(* ===== verification/Prelude.thy ===== *)
theory Prelude
  imports Main "HOL-Library.Sublist"
begin

text \<open>
  Shared vocabulary of the development. Source strings are sequences of numbers: UTF-16
  code units for the browser scripts, Unicode scalar values for the server. Literals are
  written \<open>lit ''abc''\<close>. The theory holds the string operations both languages share
  (stripping, splitting, joining) and the generic list lemmas the components use.
\<close>

type_synonym ustr = "nat list"

named_theorems ustr_simps "evaluation of string literals and character classes"
named_theorems model_defs "the definitions a component unfolds in its frame proofs"

definition lit :: "string \<Rightarrow> ustr" where
  "lit s = map of_char s"

lemmas lit_eval [ustr_simps] = lit_def

lemma inj_of_char_nat: "inj (of_char :: char \<Rightarrow> nat)"
  by (rule injI) (metis char_of_char)

lemma lit_inj [simp]: "lit s = lit t \<longleftrightarrow> s = t"
  by (simp add: lit_def inj_map_eq_map [OF inj_of_char_nat])

subsection \<open>Character classes shared by the sources\<close>

definition is_digit :: "nat \<Rightarrow> bool" where
  "is_digit c \<longleftrightarrow> 48 \<le> c \<and> c \<le> 57"

definition is_upper :: "nat \<Rightarrow> bool" where
  "is_upper c \<longleftrightarrow> 65 \<le> c \<and> c \<le> 90"

definition is_lower :: "nat \<Rightarrow> bool" where
  "is_lower c \<longleftrightarrow> 97 \<le> c \<and> c \<le> 122"

definition ascii_lower :: "nat \<Rightarrow> nat" where
  "ascii_lower c = (if is_upper c then c + 32 else c)"

lemmas char_class_defs = is_digit_def is_upper_def is_lower_def ascii_lower_def

lemma ascii_lower_idem [simp]: "ascii_lower (ascii_lower c) = ascii_lower c"
  by (simp add: char_class_defs)

subsection \<open>Stripping at both ends\<close>

definition strip_start :: "('a \<Rightarrow> bool) \<Rightarrow> 'a list \<Rightarrow> 'a list" where
  "strip_start P xs = dropWhile P xs"

definition strip_end :: "('a \<Rightarrow> bool) \<Rightarrow> 'a list \<Rightarrow> 'a list" where
  "strip_end P xs = rev (dropWhile P (rev xs))"

definition strip :: "('a \<Rightarrow> bool) \<Rightarrow> 'a list \<Rightarrow> 'a list" where
  "strip P xs = strip_end P (strip_start P xs)"

lemma strip_start_hd: "strip_start P xs \<noteq> [] \<Longrightarrow> \<not> P (hd (strip_start P xs))"
  by (simp add: strip_start_def hd_dropWhile)

lemma strip_end_last: "strip_end P xs \<noteq> [] \<Longrightarrow> \<not> P (last (strip_end P xs))"
  by (simp add: strip_end_def last_rev hd_dropWhile)

lemma strip_end_eq_takeWhile_rev: "strip_end P xs = rev (dropWhile P (rev xs))"
  by (simp add: strip_end_def)

lemma strip_end_prefix: "prefix (strip_end P xs) xs"
proof -
  have "suffix (dropWhile P (rev xs)) (rev xs)" by (rule suffix_dropWhile)
  then show ?thesis by (simp add: strip_end_def suffix_to_prefix)
qed

lemma strip_end_hd: "strip_end P xs \<noteq> [] \<Longrightarrow> hd (strip_end P xs) = hd xs"
  using strip_end_prefix [of P xs] by (metis hd_append prefixE)

lemma set_strip: "set (strip P xs) \<subseteq> set xs"
proof -
  have "set (strip_end P ys) \<subseteq> set ys" for ys
    using strip_end_prefix by (rule set_mono_prefix)
  then show ?thesis
    using set_dropWhileD by (fastforce simp: strip_def strip_start_def)
qed

lemma strip_hd: "strip P xs \<noteq> [] \<Longrightarrow> \<not> P (hd (strip P xs))"
  by (metis prefix_order.dual_order.antisym strip_def strip_end_hd strip_end_prefix
      strip_start_hd Nil_prefix)

lemma strip_last: "strip P xs \<noteq> [] \<Longrightarrow> \<not> P (last (strip P xs))"
  by (simp add: strip_def strip_end_last)

lemma length_strip: "length (strip P xs) \<le> length xs"
proof -
  have "length (strip_end P ys) \<le> length ys" for ys
    using strip_end_prefix prefix_length_le by blast
  moreover have "length (strip_start P xs) \<le> length xs"
    by (simp add: strip_start_def length_dropWhile_le)
  ultimately show ?thesis unfolding strip_def using le_trans by blast
qed

lemma strip_id: "xs = [] \<or> (\<not> P (hd xs) \<and> \<not> P (last xs)) \<Longrightarrow> strip P xs = xs"
proof (cases "xs = []")
  case False
  assume "xs = [] \<or> (\<not> P (hd xs) \<and> \<not> P (last xs))"
  with False have "dropWhile P xs = xs" and "dropWhile P (rev xs) = rev xs"
    by (metis dropWhile.simps(2) list.exhaust_sel,
        metis dropWhile.simps(2) hd_rev list.exhaust_sel rev_is_Nil_conv)
  then show ?thesis by (simp add: strip_def strip_start_def strip_end_def)
qed (simp add: strip_def strip_start_def strip_end_def)

lemma strip_idem [simp]: "strip P (strip P xs) = strip P xs"
  by (rule strip_id) (use strip_hd strip_last in blast)

subsection \<open>Splitting at a separator and joining\<close>

fun split_on :: "'a \<Rightarrow> 'a list \<Rightarrow> 'a list list" where
  "split_on c [] = [[]]"
| "split_on c (x # xs) =
     (if x = c then [] # split_on c xs
      else (case split_on c xs of [] \<Rightarrow> [[x]] | y # ys \<Rightarrow> (x # y) # ys))"

fun join :: "'a list \<Rightarrow> 'a list list \<Rightarrow> 'a list" where
  "join sep [] = []"
| "join sep [x] = x"
| "join sep (x # y # ys) = x @ sep @ join sep (y # ys)"

lemma split_on_ne [simp]: "split_on c xs \<noteq> []"
  by (induction xs) (auto split: list.splits)

lemma join_Cons_ne: "ys \<noteq> [] \<Longrightarrow> join sep (x # ys) = x @ sep @ join sep ys"
  by (cases ys) auto

lemma join_split_on [simp]: "join [c] (split_on c xs) = xs"
proof (induction xs)
  case (Cons x xs)
  then show ?case
    by (cases "split_on c xs"; cases "tl (split_on c xs)") (auto simp: join_Cons_ne)
qed simp

lemma split_on_no_sep: "w \<in> set (split_on c xs) \<Longrightarrow> c \<notin> set w"
proof (induction xs arbitrary: w)
  case (Cons x xs)
  show ?case
  proof (cases "split_on c xs")
    case Nil
    then show ?thesis by simp
  next
    case (Cons y ys)
    with Cons.prems Cons.IH show ?thesis by (auto split: if_splits)
  qed
qed simp

lemma split_on_single: "c \<notin> set xs \<Longrightarrow> split_on c xs = [xs]"
  by (induction xs) auto

lemma split_on_append: "c \<notin> set x \<Longrightarrow> split_on c (x @ c # xs) = x # split_on c xs"
  by (induction x) auto

lemma split_on_join: "ps \<noteq> [] \<Longrightarrow> \<forall>p \<in> set ps. c \<notin> set p \<Longrightarrow> split_on c (join [c] ps) = ps"
proof (induction "[c]" ps rule: join.induct)
  case (3 x y ys)
  then show ?case by (simp add: split_on_append)
qed (simp_all add: split_on_single)

subsection \<open>Searching\<close>

lemma find_SomeD: "find P xs = Some x \<Longrightarrow> x \<in> set xs \<and> P x"
  by (induction xs) (auto split: if_splits)

lemma find_map: "(\<And>x. P (f x) = P x) \<Longrightarrow> find P (map f xs) = map_option f (find P xs)"
  by (induction xs) auto

lemma find_append: "find P (xs @ ys) = (case find P xs of None \<Rightarrow> find P ys | Some x \<Rightarrow> Some x)"
  by (induction xs) auto

subsection \<open>Machines\<close>

text \<open>A step relation that keeps a condition keeps it along its runs, and keeps what a step keeps under it.\<close>

locale machine =
  fixes step :: "'s \<Rightarrow> 's \<Rightarrow> bool" and ok :: "'s \<Rightarrow> bool"
  assumes keeps: "step s t \<Longrightarrow> ok s \<Longrightarrow> ok t"
begin

lemma runs: "step\<^sup>*\<^sup>* s t \<Longrightarrow> ok s \<Longrightarrow> ok t"
  by (induction rule: rtranclp_induct) (auto intro: keeps)

lemma runs_also:
  assumes "step\<^sup>*\<^sup>* s t" "ok s" "P s" and "\<And>u v. step u v \<Longrightarrow> ok u \<Longrightarrow> P u \<Longrightarrow> P v"
  shows "P t"
proof -
  from assms(1,2,3) have "ok t \<and> P t" by (induction rule: rtranclp_induct) (auto intro: keeps assms(4))
  then show ?thesis by simp
qed

end

end
