(* ===== verification/JsString.thy ===== *)
theory JsString
  imports Prelude
begin

text \<open>
  The ECMAScript string operations the browser scripts call, on UTF-16 code units:
  \<open>trim\<close>, \<open>toLowerCase\<close>, \<open>replace\<close> of maximal runs of a character class, \<open>slice\<close> from 0 and
  \<open>indexOf(p) === 0\<close>. The Unicode case tables are a parameter: \<open>U i s\<close> is what
  \<open>toLowerCase\<close> puts in place of the non-ASCII unit at index \<open>i\<close> of \<open>s\<close> (the position is
  passed because the final-sigma rule and surrogate pairs look at the neighbours).
\<close>

subsection \<open>White space\<close>

definition js_ws :: "nat \<Rightarrow> bool" where
  "js_ws c \<longleftrightarrow> (9 \<le> c \<and> c \<le> 13) \<or> c = 32 \<or> c = 160 \<or> c = 5760 \<or>
     (8192 \<le> c \<and> c \<le> 8202) \<or> c = 8232 \<or> c = 8233 \<or> c = 8239 \<or> c = 8287 \<or>
     c = 12288 \<or> c = 65279"

definition js_trim :: "ustr \<Rightarrow> ustr" where
  "js_trim s = strip js_ws s"

definition remove_ws :: "ustr \<Rightarrow> ustr" where
  "remove_ws s = filter (\<lambda>c. \<not> js_ws c) s"

subsection \<open>Lower case\<close>

type_synonym case_table = "nat \<Rightarrow> ustr \<Rightarrow> ustr"

definition lower_at :: "case_table \<Rightarrow> ustr \<Rightarrow> nat \<Rightarrow> ustr" where
  "lower_at U s i = (if s ! i < 128 then [ascii_lower (s ! i)] else U i s)"

definition to_lower :: "case_table \<Rightarrow> ustr \<Rightarrow> ustr" where
  "to_lower U s = concat (map (lower_at U s) [0..<length s])"

definition is_ascii :: "ustr \<Rightarrow> bool" where
  "is_ascii s \<longleftrightarrow> (\<forall>c \<in> set s. c < 128)"

lemma to_lower_ascii: "is_ascii s \<Longrightarrow> to_lower U s = map ascii_lower s"
proof -
  assume a: "is_ascii s"
  have "map (lower_at U s) [0..<length s] = map (\<lambda>c. [ascii_lower c]) s"
    by (rule nth_equalityI) (use a in \<open>auto simp: lower_at_def is_ascii_def\<close>)
  then show ?thesis by (simp add: to_lower_def concat_map_singleton)
qed

subsection \<open>Replacing maximal runs\<close>

function replace_runs :: "(nat \<Rightarrow> bool) \<Rightarrow> ustr \<Rightarrow> ustr \<Rightarrow> ustr" where
  "replace_runs P r [] = []"
| "replace_runs P r (c # cs) =
     (if P c then r @ replace_runs P r (dropWhile P cs) else c # replace_runs P r cs)"
  by pat_completeness auto
termination
  by (relation "measure (\<lambda>(P, r, s). length s)") (auto simp: le_imp_less_Suc length_dropWhile_le)

lemma set_replace_runs: "c \<in> set (replace_runs P r s) \<Longrightarrow> c \<in> set r \<or> \<not> P c"
  by (induction P r s rule: replace_runs.induct) (auto split: if_splits)

subsection \<open>Slices and prefixes\<close>

definition slice_to :: "nat \<Rightarrow> ustr \<Rightarrow> ustr" where
  "slice_to n s = take n s"

definition index_of_is_0 :: "ustr \<Rightarrow> ustr \<Rightarrow> bool" where
  "index_of_is_0 s p \<longleftrightarrow> take (length p) s = p"

lemma index_of_is_0_iff: "index_of_is_0 s p \<longleftrightarrow> prefix p s"
  by (auto simp: index_of_is_0_def prefix_def) (metis append_take_drop_id)

end
