(* ===== verification/RustString.thy ===== *)
theory RustString
  imports Prelude
begin

text \<open>
  The \<open>str\<close> operations of the Rust sources. A Rust string is a list of Unicode scalar
  values (\<open>chars()\<close>); its length in bytes is the length of its UTF-8 encoding, which is
  written out here. \<open>rs_trim\<close> strips the characters with the Unicode White_Space property.
\<close>

definition scalar :: "nat \<Rightarrow> bool" where
  "scalar c \<longleftrightarrow> c < 55296 \<or> (57344 \<le> c \<and> c < 1114112)"

definition rs_str :: "ustr \<Rightarrow> bool" where
  "rs_str s \<longleftrightarrow> (\<forall>c \<in> set s. scalar c)"

definition rs_ws :: "nat \<Rightarrow> bool" where
  "rs_ws c \<longleftrightarrow> (9 \<le> c \<and> c \<le> 13) \<or> c = 32 \<or> c = 133 \<or> c = 160 \<or> c = 5760 \<or>
     (8192 \<le> c \<and> c \<le> 8202) \<or> c = 8232 \<or> c = 8233 \<or> c = 8239 \<or> c = 8287 \<or> c = 12288"

definition rs_trim :: "ustr \<Rightarrow> ustr" where
  "rs_trim s = strip rs_ws s"

definition is_alnum :: "nat \<Rightarrow> bool" where
  "is_alnum c \<longleftrightarrow> is_digit c \<or> is_upper c \<or> is_lower c"

subsection \<open>UTF-8\<close>

definition utf8_char :: "nat \<Rightarrow> nat list" where
  "utf8_char c =
     (if c < 128 then [c]
      else if c < 2048 then [192 + c div 64, 128 + c mod 64]
      else if c < 65536 then [224 + c div 4096, 128 + (c div 64) mod 64, 128 + c mod 64]
      else [240 + c div 262144, 128 + (c div 4096) mod 64, 128 + (c div 64) mod 64, 128 + c mod 64])"

definition utf8 :: "ustr \<Rightarrow> nat list" where
  "utf8 s = concat (map utf8_char s)"

definition byte_len :: "ustr \<Rightarrow> nat" where
  "byte_len s = length (utf8 s)"

lemma utf8_simps [simp]:
  "utf8 [] = []" "utf8 (c # s) = utf8_char c @ utf8 s" "utf8 (s @ t) = utf8 s @ utf8 t"
  by (simp_all add: utf8_def)

lemma byte_len_simps [simp]:
  "byte_len [] = 0" "byte_len (c # s) = length (utf8_char c) + byte_len s"
  "byte_len (s @ t) = byte_len s + byte_len t"
  by (simp_all add: byte_len_def)

lemma utf8_char_len: "1 \<le> length (utf8_char c) \<and> length (utf8_char c) \<le> 4"
  by (simp add: utf8_char_def)

lemma length_le_byte_len: "length s \<le> byte_len s"
proof (induction s)
  case (Cons c s)
  then show ?case using utf8_char_len [of c] by simp
qed simp

lemma byte_len_ascii: "\<forall>c \<in> set s. c < 128 \<Longrightarrow> utf8 s = s \<and> byte_len s = length s"
  by (induction s) (auto simp: utf8_char_def)

lemma utf8_non_ascii: "c \<in> set s \<Longrightarrow> 128 \<le> c \<Longrightarrow> \<exists>b \<in> set (utf8 s). 128 \<le> b"
  by (induction s) (auto simp: utf8_char_def)

subsection \<open>Decimal rendering\<close>

fun dec :: "nat \<Rightarrow> ustr" where
  "dec n = (if n < 10 then [48 + n] else dec (n div 10) @ [48 + n mod 10])"

declare dec.simps [simp del]

end
