(* ===== verification/AppError.thy ===== *)
theory AppError
  imports RustString
begin

text \<open>
  \<open>src/error.rs\<close>: the error type every handler returns, its classification into HTTP
  status, machine-readable code and client-visible message, and the HTML escaping of the
  error page. A variant that wraps an error of a library carries that error's rendered
  text.
\<close>

datatype app_error =
    Config ustr
  | Unauthorized
  | Forbidden
  | NotFound
  | MethodNotAllowed
  | UnsupportedMediaType
  | BadRequest ustr
  | Conflict ustr
  | EventConflict ustr
  | PayloadTooLarge ustr
  | Unprocessable "ustr option" ustr
  | Database ustr
  | Migration ustr
  | Template ustr
  | Http ustr
  | Io ustr

type_synonym 'a app_result = "app_error + 'a"

fun status :: "app_error \<Rightarrow> nat" where
  "status Unauthorized = 401"
| "status Forbidden = 403"
| "status NotFound = 404"
| "status MethodNotAllowed = 405"
| "status UnsupportedMediaType = 415"
| "status (BadRequest _) = 400"
| "status (Conflict _) = 409"
| "status (EventConflict _) = 409"
| "status (PayloadTooLarge _) = 413"
| "status (Unprocessable _ _) = 422"
| "status (Config _) = 500"
| "status (Database _) = 500"
| "status (Migration _) = 500"
| "status (Template _) = 500"
| "status (Http _) = 500"
| "status (Io _) = 500"

fun code :: "app_error \<Rightarrow> ustr" where
  "code Unauthorized = lit ''unauthorized''"
| "code Forbidden = lit ''forbidden''"
| "code NotFound = lit ''not_found''"
| "code MethodNotAllowed = lit ''method_not_allowed''"
| "code UnsupportedMediaType = lit ''unsupported_media_type''"
| "code (BadRequest _) = lit ''bad_request''"
| "code (Conflict _) = lit ''conflict''"
| "code (EventConflict _) = lit ''event_id_conflict''"
| "code (PayloadTooLarge _) = lit ''payload_too_large''"
| "code (Unprocessable _ _) = lit ''validation_failed''"
| "code (Config _) = lit ''internal_error''"
| "code (Database _) = lit ''internal_error''"
| "code (Migration _) = lit ''internal_error''"
| "code (Template _) = lit ''internal_error''"
| "code (Http _) = lit ''internal_error''"
| "code (Io _) = lit ''internal_error''"

text \<open>The \<open>Display\<close> text of an error, from its \<open>#[error(...)]\<close> attributes.\<close>

fun display :: "app_error \<Rightarrow> ustr" where
  "display (Config m) = m"
| "display Unauthorized = lit ''authentication required''"
| "display Forbidden = lit ''forbidden''"
| "display NotFound = lit ''not found''"
| "display MethodNotAllowed = lit ''method not allowed''"
| "display UnsupportedMediaType = lit ''unsupported media type''"
| "display (BadRequest m) = m"
| "display (Conflict m) = m"
| "display (EventConflict e) =
     lit ''event_id '' @ e @ lit '' was already ingested with different content''"
| "display (PayloadTooLarge m) = lit ''payload too large: '' @ m"
| "display (Unprocessable _ m) = m"
| "display (Database m) = m"
| "display (Migration m) = m"
| "display (Template m) = m"
| "display (Http m) = m"
| "display (Io m) = m"

fun is_internal :: "app_error \<Rightarrow> bool" where
  "is_internal (Config _) = True"
| "is_internal (Database _) = True"
| "is_internal (Migration _) = True"
| "is_internal (Template _) = True"
| "is_internal (Http _) = True"
| "is_internal (Io _) = True"
| "is_internal _ = False"

fun public_message :: "app_error \<Rightarrow> ustr" where
  "public_message (Config _) = lit ''internal server error''"
| "public_message (Database _) = lit ''internal server error''"
| "public_message (Migration _) = lit ''internal server error''"
| "public_message (Template _) = lit ''internal server error''"
| "public_message (Http _) = lit ''internal server error''"
| "public_message (Io _) = lit ''internal server error''"
| "public_message e = display e"

fun error_field :: "app_error \<Rightarrow> ustr option" where
  "error_field (Unprocessable f _) = f"
| "error_field _ = None"

text \<open>
  The replacement of a single character by a string, and the three replacements of
  \<open>escape\<close> in the order the code makes them.
\<close>

definition replace_char :: "nat \<Rightarrow> ustr \<Rightarrow> ustr \<Rightarrow> ustr" where
  "replace_char c r s = concat (map (\<lambda>x. if x = c then r else [x]) s)"

definition escape :: "ustr \<Rightarrow> ustr" where
  "escape s =
     replace_char 62 (lit ''&gt;'') (replace_char 60 (lit ''&lt;'') (replace_char 38 (lit ''&amp;'') s))"

text \<open>
  The error page, line by line. The reason phrase of a status comes from the \<open>http\<close> crate
  and is the parameter \<open>reason\<close>.
\<close>

definition page_head :: "nat \<Rightarrow> ustr \<Rightarrow> ustr" where
  "page_head c heading = join [10]
     [lit ''<!doctype html>'',
      lit ''<html lang=\"en\">'',
      lit ''<head>'',
      lit ''  <meta charset=\"utf-8\">'',
      lit ''  <meta name=\"viewport\" content=\"width=device-width, initial-scale=1\">'',
      lit ''  <meta name=\"color-scheme\" content=\"light dark\">'',
      lit ''  <title>'' @ dec c @ lit '' '' @ [183] @ lit '' Zbierak</title>'',
      lit ''  <script src=\"/static/theme-init.js\"></script>'',
      lit ''  <link rel=\"stylesheet\" href=\"/static/vendor/tabler/tabler.min.css\">'',
      lit ''  <link rel=\"stylesheet\" href=\"/static/app.css?v=2\">'',
      lit ''</head>'',
      lit ''<body>'',
      lit ''  <main id=\"main-content\">'',
      lit ''    <section class=\"error-shell\">'',
      lit ''      <div class=\"error-code\" aria-hidden=\"true\">'' @ dec c @ lit ''</div>'',
      lit ''      <p class=\"eyebrow\">Request interrupted</p>'',
      lit ''      <h1>'' @ heading @ lit ''</h1>''] @ [10]"

definition page_tail :: ustr where
  "page_tail = [10] @ join [10]
     [lit ''      <div class=\"error-actions\"><a class=\"btn btn-primary\" href=\"/\">Return home</a><button class=\"btn btn-outline-secondary\" type=\"button\" data-history-back>Go back</button></div>'',
      lit ''    </section>'',
      lit ''  </main>'',
      lit ''  <script src=\"/static/app.js?v=2\" defer></script>'',
      lit ''</body>'',
      lit ''</html>'']"

definition error_page :: "(nat \<Rightarrow> ustr option) \<Rightarrow> app_error \<Rightarrow> nat \<times> ustr" where
  "error_page reason e =
     (status e,
      page_head (status e)
        (case reason (status e) of None \<Rightarrow> lit ''Request failed'' | Some r \<Rightarrow> r) @
      lit ''      <p>'' @ escape (public_message e) @ lit ''</p>'' @ page_tail)"

text \<open>The JSON body of \<open>src/api_error.rs\<close> and the header it adds to a 401.\<close>

record api_body =
  body_status :: nat
  body_code :: ustr
  body_message :: ustr
  body_field :: "ustr option"
  www_authenticate :: "ustr option"

definition api_response :: "app_error \<Rightarrow> api_body" where
  "api_response e =
     \<lparr>body_status = status e, body_code = code e, body_message = public_message e,
      body_field = error_field e,
      www_authenticate = (if status e = 401 then Some (lit ''Bearer'') else None)\<rparr>"

lemma status_500_iff: "status e = 500 \<longleftrightarrow> is_internal e"
  by (cases e) auto

lemma escape_char_cases:
  "escape [c] = (if c = 38 then lit ''&amp;'' else if c = 60 then lit ''&lt;''
     else if c = 62 then lit ''&gt;'' else [c])"
  by (simp add: escape_def replace_char_def lit_def)

lemma escape_append: "escape (s @ t) = escape s @ escape t"
  by (simp add: escape_def replace_char_def)

lemma escape_Nil [simp]: "escape [] = []"
  by (simp add: escape_def replace_char_def)

lemma escape_Cons: "escape (c # s) = escape [c] @ escape s"
  using escape_append [of "[c]" s] by simp

text \<open>
  What a browser reads back from a text node: the three character references \<open>escape\<close> writes.
\<close>

fun unescape :: "ustr \<Rightarrow> ustr" where
  "unescape [] = []"
| "unescape (c # s) =
     (if c = 38 \<and> take 4 s = lit ''amp;'' then 38 # unescape (drop 4 s)
      else if c = 38 \<and> take 3 s = lit ''lt;'' then 60 # unescape (drop 3 s)
      else if c = 38 \<and> take 3 s = lit ''gt;'' then 62 # unescape (drop 3 s)
      else c # unescape s)"

lemma unescape_plain: "c \<noteq> 38 \<Longrightarrow> unescape (c # s) = c # unescape s"
  by simp

lemma internal_message: "is_internal e \<Longrightarrow> public_message e = lit ''internal server error''"
  by (cases e) auto

subsection \<open>The question mark operator\<close>

text \<open>\<open>and_then r f\<close> is \<open>let x = r?; f(x)\<close>: an error ends the function with that error.\<close>

fun and_then :: "'a app_result \<Rightarrow> ('a \<Rightarrow> 'b app_result) \<Rightarrow> 'b app_result" where
  "and_then (Inl e) f = Inl e"
| "and_then (Inr x) f = f x"

lemma and_then_Inr_iff: "and_then r f = Inr y \<longleftrightarrow> (\<exists>x. r = Inr x \<and> f x = Inr y)"
  by (cases r) auto

lemma and_then_Inl_iff: "and_then r f = Inl e \<longleftrightarrow> r = Inl e \<or> (\<exists>x. r = Inr x \<and> f x = Inl e)"
  by (cases r) auto

lemmas and_then_iff = and_then_Inr_iff and_then_Inl_iff

subsection \<open>Properties\<close>

text \<open>C40: an internal failure (configuration, database, migration, template, outbound HTTP,
  file system) is answered the same on both surfaces whatever its text is: neither the error
  page nor the JSON body depends on it.\<close>
lemma internal_errors_opaque:
  assumes "is_internal e" and "is_internal e'"
  shows "error_page reason e = error_page reason e' \<and> api_response e = api_response e'"
proof -
  have s: "status e = 500" "status e' = 500" using assms status_500_iff by auto
  moreover have "code e = code e'" using assms by (cases e; cases e') auto
  moreover have "error_field e = error_field e'" using assms by (cases e; cases e') auto
  ultimately show ?thesis
    using assms by (auto simp: error_page_def api_response_def internal_message)
qed

lemma internal_errors_opaque_witness:
  "api_response (Database (lit ''UNIQUE constraint failed'')) = api_response (Io (lit ''disk full''))"
  using internal_errors_opaque [of "Database (lit ''UNIQUE constraint failed'')" "Io (lit ''disk full'')"]
  by simp

text \<open>C37: the message on the error page cannot add markup: the escaped text has no angle
  bracket and reads back, reference by reference, as the message itself.\<close>
lemma escape_safe: "unescape (escape s) = s \<and> 60 \<notin> set (escape s) \<and> 62 \<notin> set (escape s)"
proof (induction s)
  case (Cons c s)
  then show ?case
    by (subst (1 2 3) escape_Cons) (auto simp: escape_char_cases lit_def unescape_plain)
qed simp

text \<open>A JSON error body always carries the status, code and message of its error, a 401
  and nothing else asks for a bearer token, and a body with code \<open>internal_error\<close> is exactly a
  status 500 of an internal error.\<close>
lemma api_response_classified:
  "body_status (api_response e) = status e \<and>
   (www_authenticate (api_response e) = Some (lit ''Bearer'') \<longleftrightarrow> e = Unauthorized) \<and>
   (body_code (api_response e) = lit ''internal_error'' \<longleftrightarrow> is_internal e) \<and>
   (body_status (api_response e) = 500 \<longleftrightarrow> is_internal e)"
  by (cases e) (auto simp: api_response_def lit_def)

end
