(* ===== verification/Forms.thy ===== *)
theory Forms
  imports RustString AppError
begin

text \<open>
  The guards every form handler of \<open>src/handlers.rs\<close> starts with: the CSRF comparison of
  \<open>src/auth.rs\<close>, \<open>required_text\<close> and \<open>validate_identity\<close>.
\<close>

subsection \<open>CSRF\<close>

text \<open>\<open>ct_eq\<close> of the \<open>subtle\<close> crate is equality of byte slices of one length.\<close>

definition secure_eq :: "ustr \<Rightarrow> ustr \<Rightarrow> bool" where
  "secure_eq l r \<longleftrightarrow> byte_len l = byte_len r \<and> utf8 l = utf8 r"

definition check_csrf :: "ustr \<Rightarrow> ustr \<Rightarrow> unit app_result" where
  "check_csrf session_token supplied =
     (if secure_eq session_token supplied then Inr () else Inl Forbidden)"

definition utf8_class :: "nat \<Rightarrow> nat" where
  "utf8_class c = (if c < 128 then 1 else if c < 2048 then 2 else if c < 65536 then 3 else 4)"

text \<open>The lead byte alone tells how many bytes the character takes.\<close>

definition lead_class :: "nat \<Rightarrow> nat" where
  "lead_class b = (if b < 128 then 1 else if b < 224 then 2 else if b < 240 then 3 else 4)"

lemma lead_utf8_char: "lead_class (hd (utf8_char c)) = utf8_class c"
proof -
  have "c < 2048 \<Longrightarrow> c div 64 < 32" "c < 65536 \<Longrightarrow> c div 4096 < 16" by linarith+
  then show ?thesis by (auto simp: lead_class_def utf8_class_def utf8_char_def)
qed

lemma length_utf8_char: "length (utf8_char c) = utf8_class c"
  by (simp add: utf8_char_def utf8_class_def)

lemma div_mod_inj: "x div m = y div m \<Longrightarrow> x mod m = y mod m \<Longrightarrow> x = (y::nat)"
  by (metis div_mult_mod_eq)

lemma div_digits:
  "(x::nat) div 4096 = x div 64 div 64" "x div 262144 = x div 4096 div 64"
  by (simp_all add: div_mult2_eq [symmetric])

lemma utf8_char_inj_eq: "utf8_char a = utf8_char b \<Longrightarrow> a = b"
proof -
  assume e: "utf8_char a = utf8_char b"
  then have c: "utf8_class a = utf8_class b" by (metis lead_utf8_char)
  have "utf8_class a \<in> {1, 2, 3, 4}" by (simp add: utf8_class_def)
  then consider "utf8_class a = 1" | "utf8_class a = 2" | "utf8_class a = 3" | "utf8_class a = 4"
    by blast
  then show ?thesis
  proof cases
    case 1
    then show ?thesis using e c by (auto simp: utf8_class_def utf8_char_def split: if_splits)
  next
    case 2
    then have "a div 64 = b div 64" "a mod 64 = b mod 64"
      using e c by (auto simp: utf8_class_def utf8_char_def split: if_splits)
    then show ?thesis by (rule div_mod_inj)
  next
    case 3
    then have "a div 4096 = b div 4096" "a div 64 mod 64 = b div 64 mod 64" "a mod 64 = b mod 64"
      using e c by (auto simp: utf8_class_def utf8_char_def split: if_splits)
    then show ?thesis by (metis div_mod_inj div_digits(1))
  next
    case 4
    then have "a div 262144 = b div 262144" "a div 4096 mod 64 = b div 4096 mod 64"
      "a div 64 mod 64 = b div 64 mod 64" "a mod 64 = b mod 64"
      using e c by (auto simp: utf8_class_def utf8_char_def split: if_splits)
    then show ?thesis by (metis div_mod_inj div_digits)
  qed
qed

lemma utf8_char_inj:
  assumes "utf8_char a @ s = utf8_char b @ t"
  shows "a = b \<and> s = t"
proof -
  have "utf8_char c \<noteq> []" for c by (simp add: utf8_char_def)
  then have "hd (utf8_char a) = hd (utf8_char b)" using assms by (metis hd_append2)
  then have "length (utf8_char a) = length (utf8_char b)"
    by (metis lead_utf8_char length_utf8_char)
  then have "utf8_char a = utf8_char b" "s = t" using assms by simp_all
  then show ?thesis using utf8_char_inj_eq by blast
qed

lemma utf8_inj: "utf8 s = utf8 t \<Longrightarrow> s = t"
proof (induction s arbitrary: t)
  case Nil
  then show ?case by (cases t) (auto simp: utf8_char_def split: if_splits)
next
  case (Cons a s)
  then obtain b t' where t: "t = b # t'"
    by (cases t) (auto simp: utf8_char_def split: if_splits)
  with Cons show ?case using utf8_char_inj [of a "utf8 s" b "utf8 t'"] by simp
qed

lemma secure_eq_iff: "secure_eq s t \<longleftrightarrow> s = t"
  by (auto simp: secure_eq_def utf8_inj)

subsection \<open>Text fields\<close>

definition required_text :: "ustr \<Rightarrow> ustr \<Rightarrow> nat \<Rightarrow> ustr app_result" where
  "required_text field s maximum =
     (let v = rs_trim s in
      if v = [] \<or> maximum < length v
      then Inl (BadRequest (field @ lit '' must contain 1 to '' @ dec maximum @ lit '' characters''))
      else Inr v)"

definition validate_identity :: "ustr \<Rightarrow> ustr \<Rightarrow> unit app_result" where
  "validate_identity email display_name =
     and_then (required_text (lit ''display name'') display_name 100) (\<lambda>_.
     and_then (required_text (lit ''email'') email 254) (\<lambda>e.
     if 64 \<notin> set e \<or> (\<exists>c \<in> set e. rs_ws c)
     then Inl (BadRequest (lit ''invalid email address''))
     else Inr ()))"

lemma required_text_Inr:
  "required_text field s n = Inr v \<longleftrightarrow> v = rs_trim s \<and> v \<noteq> [] \<and> length v \<le> n"
  by (auto simp: required_text_def Let_def not_less)

end
