(* ===== verification/Slug.thy ===== *)
theory Slug
  imports JsString Forms
begin

text \<open>
  Project slugs: the browser's suggestion while a project name is typed (\<open>src/static/app.js\<close>,
  the two \<open>input\<close> listeners), the server's own \<open>slugify\<close> and \<open>validate_slug\<close>, and the choice
  \<open>create_project\<close> makes between them (\<open>src/handlers.rs\<close>). The locale \<open>slug_source\<close> is the
  contract of a generator of slugs; both generators are instances of it.
\<close>

subsection \<open>The server\<close>

definition slug_char :: "nat \<Rightarrow> bool" where
  "slug_char c \<longleftrightarrow> is_lower c \<or> is_digit c \<or> c = 45"

definition slug_error :: app_error where
  "slug_error = BadRequest (lit ''slug must use 2-50 lowercase letters, digits, or hyphens'')"

definition validate_slug :: "ustr \<Rightarrow> unit app_result" where
  "validate_slug s =
     (if byte_len s < 2 \<or> 50 < byte_len s \<or> \<not> list_all slug_char (utf8 s)
         \<or> prefix [45] s \<or> suffix [45] s
      then Inl slug_error else Inr ())"

fun slugify_loop :: "ustr \<Rightarrow> bool \<Rightarrow> ustr \<Rightarrow> ustr" where
  "slugify_loop slug pending [] = slug"
| "slugify_loop slug pending (c # cs) =
     (if \<not> is_alnum c then slugify_loop slug True cs
      else if 50 < length slug + 1 then slug
      else slugify_loop
        ((if pending \<and> slug \<noteq> [] \<and> length slug + 2 \<le> 50 then slug @ [45] else slug) @ [ascii_lower c])
        False cs)"

definition slugify :: "ustr \<Rightarrow> ustr" where
  "slugify s = slugify_loop [] False s"

subsection \<open>The browser\<close>

definition js_slug_char :: "nat \<Rightarrow> bool" where
  "js_slug_char c \<longleftrightarrow> is_lower c \<or> is_digit c"

definition js_slug_full :: "case_table \<Rightarrow> ustr \<Rightarrow> ustr" where
  "js_slug_full U name =
     strip (\<lambda>c. c = 45)
       (replace_runs (\<lambda>c. \<not> js_slug_char c) [45] (js_trim (to_lower U name)))"

definition js_slug :: "case_table \<Rightarrow> ustr \<Rightarrow> ustr" where
  "js_slug U name = slice_to 50 (js_slug_full U name)"

record slug_form =
  name_value :: ustr
  slug_value :: ustr
  slug_edited :: bool

datatype form_event = SlugInput ustr | NameInput ustr

fun form_step :: "case_table \<Rightarrow> slug_form \<Rightarrow> form_event \<Rightarrow> slug_form" where
  "form_step U f (SlugInput s) = f\<lparr>slug_value := s, slug_edited := 0 < length s\<rparr>"
| "form_step U f (NameInput n) =
     (if slug_edited f then f\<lparr>name_value := n\<rparr>
      else f\<lparr>name_value := n, slug_value := js_slug U n\<rparr>)"

definition form_run :: "case_table \<Rightarrow> slug_form \<Rightarrow> form_event list \<Rightarrow> slug_form" where
  "form_run U f es = foldl (form_step U) f es"

subsection \<open>The fields of a new project\<close>

text \<open>
  \<open>create_project\<close> uses the submitted slug as it is unless it is blank, and otherwise
  slugifies the (trimmed) name. \<open>project_fields\<close> is the handler up to its first query:
  the CSRF check comes first, and every later field is checked in the code's order.
\<close>

record project_form =
  pf_csrf :: ustr
  pf_name :: ustr
  pf_slug :: "ustr option"
  pf_description :: "ustr option"

definition chosen_slug :: "ustr \<Rightarrow> ustr option \<Rightarrow> ustr" where
  "chosen_slug name submitted =
     (case submitted of
        None \<Rightarrow> slugify name
      | Some s \<Rightarrow> if rs_trim s = [] then slugify name else s)"

definition description_error :: app_error where
  "description_error = BadRequest (lit ''description must contain at most 240 characters'')"

definition project_fields :: "ustr \<Rightarrow> project_form \<Rightarrow> (ustr \<times> ustr \<times> ustr) app_result" where
  "project_fields session_csrf form =
     and_then (check_csrf session_csrf (pf_csrf form)) (\<lambda>_.
     and_then (required_text (lit ''name'') (pf_name form) 100) (\<lambda>name.
     let slug = chosen_slug name (pf_slug form) in
     and_then (validate_slug slug) (\<lambda>_.
     let description = rs_trim (case pf_description form of None \<Rightarrow> [] | Some d \<Rightarrow> d) in
     if 240 < length description then Inl description_error
     else Inr (name, slug, description))))"

subsection \<open>Both generators against one reference\<close>

text \<open>
  \<open>words_from started pending cs\<close> is what both generators compute before any length limit:
  the lower-cased alphanumeric characters of \<open>cs\<close>, one hyphen for every inner run of others.
\<close>

fun words_from :: "bool \<Rightarrow> bool \<Rightarrow> ustr \<Rightarrow> ustr" where
  "words_from started pending [] = []"
| "words_from started pending (c # cs) =
     (if \<not> is_alnum c then words_from started True cs
      else (if pending \<and> started then [45] else []) @ ascii_lower c # words_from True False cs)"

text \<open>The cut at fifty characters as the server makes it: never at a hyphen.\<close>

definition cut_50 :: "ustr \<Rightarrow> ustr" where
  "cut_50 s = (if 49 < length s \<and> s ! 49 = 45 then take 49 s @ take 1 (drop 50 s) else take 50 s)"

lemma js_slug_char_lower: "js_slug_char (ascii_lower c) \<longleftrightarrow> is_alnum c"
  by (auto simp: js_slug_char_def is_alnum_def char_class_defs)

lemma js_slug_char_45: "js_slug_char c \<Longrightarrow> c \<noteq> 45"
  by (auto simp: js_slug_char_def char_class_defs)

lemma slug_char_lower: "is_alnum c \<Longrightarrow> slug_char (ascii_lower c) \<and> ascii_lower c \<noteq> 45"
  by (auto simp: slug_char_def is_alnum_def char_class_defs)

lemma js_ws_lower: "js_ws (ascii_lower c) \<longleftrightarrow> js_ws c"
  by (auto simp: js_ws_def char_class_defs)

lemma js_ws_not_alnum: "js_ws c \<Longrightarrow> \<not> is_alnum c"
  by (auto simp: js_ws_def is_alnum_def char_class_defs)

lemma dropWhile_snoc:
  "dropWhile P (xs @ [c]) = (if (\<forall>x \<in> set xs. P x) then (if P c then [] else [c]) else dropWhile P xs @ [c])"
  by (induction xs) auto

lemma strip_end_Nil_iff: "strip_end P xs = [] \<longleftrightarrow> (\<forall>x \<in> set xs. P x)"
  by (simp add: strip_end_def dropWhile_eq_Nil_conv)

lemma strip_end_Cons:
  "strip_end P (c # xs) = (if P c \<and> strip_end P xs = [] then [] else c # strip_end P xs)"
proof -
  have "dropWhile P (rev xs) = [] \<longleftrightarrow> (\<forall>x \<in> set (rev xs). P x)"
    by (simp add: dropWhile_eq_Nil_conv)
  then show ?thesis by (simp add: strip_end_def dropWhile_snoc)
qed

lemma strip_end_Nil [simp]: "strip_end P [] = []"
  by (simp add: strip_end_def)

abbreviation hyphen :: "nat \<Rightarrow> bool" where
  "hyphen c \<equiv> c = 45"

abbreviation runs :: "ustr \<Rightarrow> ustr" where
  "runs s \<equiv> replace_runs (\<lambda>c. \<not> js_slug_char c) [45] s"

lemma runs_started:
  "strip_end hyphen (runs (map ascii_lower cs)) = words_from True False cs \<and>
   strip_end hyphen (45 # runs (dropWhile (\<lambda>c. \<not> js_slug_char c) (map ascii_lower cs))) =
     words_from True True cs"
proof (induction cs)
  case (Cons c cs)
  show ?case
  proof (cases "is_alnum c")
    case True
    then have "js_slug_char (ascii_lower c)" by (simp add: js_slug_char_lower)
    moreover from this have "ascii_lower c \<noteq> 45" by (rule js_slug_char_45)
    ultimately show ?thesis using Cons True by (simp add: strip_end_Cons)
  next
    case False
    then have "\<not> js_slug_char (ascii_lower c)" by (simp add: js_slug_char_lower)
    then show ?thesis using Cons False by simp
  qed
qed (simp add: strip_end_Cons)

lemma strip_start_runs_drop:
  "strip_start hyphen (runs (dropWhile (\<lambda>c. \<not> js_slug_char c) xs)) = strip_start hyphen (runs xs)"
  by (cases xs) (simp_all add: strip_start_def)

lemma words_from_not_started: "words_from False p cs = words_from False q cs"
  by (induction cs arbitrary: p q) auto

lemma strip_runs: "strip hyphen (runs (map ascii_lower cs)) = words_from False p cs"
proof (induction cs arbitrary: p)
  case (Cons c cs)
  show ?case
  proof (cases "is_alnum c")
    case True
    then have sc: "js_slug_char (ascii_lower c)" by (simp add: js_slug_char_lower)
    from sc have "ascii_lower c \<noteq> 45" by (rule js_slug_char_45)
    then show ?thesis using sc True runs_started [of cs]
      by (simp add: strip_def strip_start_def strip_end_Cons)
  next
    case False
    then have "\<not> js_slug_char (ascii_lower c)" by (simp add: js_slug_char_lower)
    then have "strip hyphen (runs (map ascii_lower (c # cs)))
        = strip_end hyphen (strip_start hyphen
            (runs (dropWhile (\<lambda>c. \<not> js_slug_char c) (map ascii_lower cs))))"
      by (simp add: strip_def strip_start_def)
    also have "\<dots> = words_from False True cs"
      using Cons [of True] by (simp add: strip_start_runs_drop strip_def)
    finally show ?thesis using False by simp
  qed
qed (simp add: strip_def strip_start_def)

lemma words_from_strip_end: "words_from st p (strip_end js_ws cs) = words_from st p cs"
proof (induction cs arbitrary: st p)
  case (Cons c cs)
  show ?case
  proof (cases "js_ws c \<and> strip_end js_ws cs = []")
    case True
    then have "words_from st True cs = []" using Cons [of st True] by simp
    with True show ?thesis by (simp add: strip_end_Cons js_ws_not_alnum)
  next
    case False
    then have "strip_end js_ws (c # cs) = c # strip_end js_ws cs"
      by (auto simp: strip_end_Cons)
    then show ?thesis using Cons by simp
  qed
qed simp

lemma words_from_strip_start:
  "words_from False p (strip_start js_ws cs) = words_from False p cs"
proof (induction cs arbitrary: p)
  case (Cons c cs)
  then show ?case
    using words_from_not_started [of p cs True]
    by (simp add: strip_start_def js_ws_not_alnum)
qed (simp add: strip_start_def)

lemma words_from_strip: "words_from False p (strip js_ws cs) = words_from False p cs"
  by (simp add: strip_def words_from_strip_end words_from_strip_start)

lemma strip_map_lower: "strip js_ws (map ascii_lower cs) = map ascii_lower (strip js_ws cs)"
  by (simp add: strip_def strip_start_def strip_end_def dropWhile_map comp_def js_ws_lower
      rev_map)

lemma js_slug_full_words:
  assumes "is_ascii name"
  shows "js_slug_full U name = words_from False False name"
proof -
  have "js_slug_full U name = strip hyphen (runs (map ascii_lower (strip js_ws name)))"
    by (simp add: js_slug_full_def js_trim_def to_lower_ascii [OF assms] strip_map_lower)
  also have "\<dots> = words_from False False (strip js_ws name)" by (rule strip_runs)
  finally show ?thesis by (simp add: words_from_strip)
qed

subsection \<open>The server's loop\<close>

lemma slugify_loop_full: "length slug = 50 \<Longrightarrow> slugify_loop slug p cs = slug"
  by (induction cs arbitrary: p) auto

lemma cut_50_full: "length s = 50 \<Longrightarrow> last s \<noteq> 45 \<Longrightarrow> cut_50 (s @ t) = s"
proof -
  assume a: "length s = 50" and l: "last s \<noteq> 45"
  then have "last s = s ! 49" by (subst last_conv_nth) auto
  with a l show ?thesis by (simp add: cut_50_def nth_append)
qed

lemma slugify_loop_words:
  "length slug \<le> 50 \<Longrightarrow> (slug \<noteq> [] \<Longrightarrow> last slug \<noteq> 45) \<Longrightarrow>
   slugify_loop slug p cs = cut_50 (slug @ words_from (slug \<noteq> []) p cs)"
proof (induction slug p cs rule: slugify_loop.induct)
  case (1 slug p)
  show ?case
  proof (cases "length slug = 50")
    case True
    then have "slug \<noteq> []" by auto
    with True 1 show ?thesis using cut_50_full [of slug "[]"] by simp
  next
    case False
    with 1 show ?thesis by (simp add: cut_50_def)
  qed
next
  case (2 slug p c cs)
  show ?case
  proof (cases "is_alnum c")
    case False
    then show ?thesis using 2 by simp
  next
    case True
    then have lc: "ascii_lower c \<noteq> 45" using slug_char_lower by blast
    consider "length slug = 50" | "length slug = 49 \<and> p"
      | "length slug < 50" "\<not> (length slug = 49 \<and> p)"
      using 2(3) by linarith
    then show ?thesis
    proof cases
      case 1
      then have "slug \<noteq> []" by auto
      with 1 2(4) show ?thesis by (simp add: slugify_loop_full cut_50_full)
    next
      case 2
      then have "slug \<noteq> []" by auto
      with 2 True show ?thesis
        by (simp add: slugify_loop_full cut_50_def nth_append)
    next
      case 3
      let ?s = "(if p \<and> slug \<noteq> [] \<and> length slug + 2 \<le> 50 then slug @ [45] else slug) @ [ascii_lower c]"
      have "slugify_loop ?s False cs = cut_50 (?s @ words_from (?s \<noteq> []) False cs)"
        by (rule 2(2)) (use True 3 lc in auto)
      with True 3 show ?thesis by auto
    qed
  qed
qed

lemma slugify_words: "slugify s = cut_50 (words_from False False s)"
  using slugify_loop_words [of "[]" False s] by (simp add: slugify_def)

lemma words_from_chars: "list_all slug_char (words_from st p cs)"
proof -
  have "slug_char 45" by (simp add: slug_char_def)
  then show ?thesis by (induction cs arbitrary: st p) (auto simp: slug_char_lower)
qed

lemma words_from_hd: "words_from False p cs \<noteq> [] \<Longrightarrow> hd (words_from False p cs) \<noteq> 45"
  by (induction cs arbitrary: p) (auto simp: slug_char_lower)

lemma words_from_last: "words_from st p cs \<noteq> [] \<Longrightarrow> last (words_from st p cs) \<noteq> 45"
  by (induction cs arbitrary: st p) (auto simp: slug_char_lower)

text \<open>Two hyphens never meet, so the character after a hyphen is not one.\<close>

lemma words_from_gap:
  "Suc i < length (words_from st p cs) \<Longrightarrow> words_from st p cs ! i = 45 \<Longrightarrow>
   words_from st p cs ! Suc i \<noteq> 45"
proof (induction cs arbitrary: st p i)
  case (Cons c cs)
  show ?case
  proof (cases "is_alnum c")
    case False
    then show ?thesis using Cons by simp
  next
    case True
    then have lc: "ascii_lower c \<noteq> 45" by (simp add: slug_char_lower)
    show ?thesis
    proof (cases i)
      case 0
      with Cons.prems True lc show ?thesis by (auto split: if_splits)
    next
      case (Suc j)
      with Cons.prems Cons.IH [of j True False] Cons.IH [of "j - 1" True False] True lc
      show ?thesis by (cases j) (auto split: if_splits)
    qed
  qed
qed simp

lemma cut_50_length: "length (cut_50 s) \<le> 50"
  by (simp add: cut_50_def)

lemma list_all_take: "list_all P s \<Longrightarrow> list_all P (take n s)"
  by (metis append_take_drop_id list_all_append)

lemma list_all_drop: "list_all P s \<Longrightarrow> list_all P (drop n s)"
  by (metis append_take_drop_id list_all_append)

lemma cut_50_all: "list_all P s \<Longrightarrow> list_all P (cut_50 s)"
  by (simp add: cut_50_def list_all_take list_all_drop)

lemma cut_50_hd: "s \<noteq> [] \<Longrightarrow> hd (cut_50 s) = hd s"
  by (cases s) (auto simp: cut_50_def)

lemma cut_50_last:
  assumes "\<And>i. Suc i < length s \<Longrightarrow> s ! i = 45 \<Longrightarrow> s ! Suc i \<noteq> 45"
    and "s \<noteq> [] \<Longrightarrow> last s \<noteq> 45" and "cut_50 s \<noteq> []"
  shows "last (cut_50 s) \<noteq> 45"
proof -
  have ne: "s \<noteq> []" using assms(3) by (auto simp: cut_50_def)
  consider "length s \<le> 49" | "49 < length s" "s ! 49 \<noteq> 45" | "49 < length s" "s ! 49 = 45"
    by linarith
  then show ?thesis
  proof cases
    case 1
    then show ?thesis using assms(2) ne by (simp add: cut_50_def)
  next
    case 2
    then have "last (take 50 s) = s ! 49" using take_Suc_conv_app_nth [of 49 s] by simp
    then show ?thesis using 2 by (simp add: cut_50_def)
  next
    case 3
    have "last s = s ! (length s - 1)" using ne by (rule last_conv_nth)
    then have "length s \<noteq> 50" using 3 assms(2) [OF ne] by auto
    then have "50 < length s" using 3 by simp
    then have "take 1 (drop 50 s) = [s ! 50]"
      by (metis Cons_nth_drop_Suc One_nat_def take0 take_Suc_Cons)
    moreover have "s ! 50 \<noteq> 45" using assms(1) [of 49] 3 \<open>50 < length s\<close> by simp
    ultimately show ?thesis using 3 by (simp add: cut_50_def)
  qed
qed

subsection \<open>The contract of a slug generator\<close>

lemma slug_char_ascii: "slug_char c \<Longrightarrow> c < 128"
  by (auto simp: slug_char_def char_class_defs)

lemma validate_slug_ascii:
  assumes "list_all slug_char s"
  shows "validate_slug s =
    (if length s < 2 \<or> 50 < length s \<or> hd s = 45 \<or> last s = 45 then Inl slug_error else Inr ())"
proof -
  have "\<forall>c \<in> set s. c < 128" using assms slug_char_ascii by (auto simp: list_all_iff)
  then have "utf8 s = s \<and> byte_len s = length s" by (rule byte_len_ascii)
  moreover have "s \<noteq> [] \<Longrightarrow> prefix [45] s \<longleftrightarrow> hd s = 45" by (cases s) auto
  moreover have "s \<noteq> [] \<Longrightarrow> suffix [45] s \<longleftrightarrow> last s = 45"
    by (cases s rule: rev_cases) (auto simp: suffix_def)
  ultimately show ?thesis using assms by (cases "s = []") (auto simp: validate_slug_def)
qed

lemma validate_slug_Inr:
  "validate_slug s = Inr () \<longleftrightarrow>
     list_all slug_char s \<and> 2 \<le> length s \<and> length s \<le> 50 \<and> hd s \<noteq> 45 \<and> last s \<noteq> 45"
proof
  assume v: "validate_slug s = Inr ()"
  then have "list_all slug_char (utf8 s)" by (auto simp: validate_slug_def split: if_splits)
  then have "\<forall>c \<in> set s. c < 128"
    using utf8_non_ascii [of _ s] slug_char_ascii by (force simp: list_all_iff not_less)
  then have "utf8 s = s" using byte_len_ascii by blast
  with \<open>list_all slug_char (utf8 s)\<close> have "list_all slug_char s" by simp
  with v show "list_all slug_char s \<and> 2 \<le> length s \<and> length s \<le> 50 \<and> hd s \<noteq> 45 \<and> last s \<noteq> 45"
    by (simp add: validate_slug_ascii split: if_splits)
qed (simp add: validate_slug_ascii)

locale slug_source =
  fixes gen :: "'a \<Rightarrow> ustr"
  assumes gen_chars: "list_all slug_char (gen x)"
    and gen_hd: "gen x \<noteq> [] \<Longrightarrow> hd (gen x) \<noteq> 45"
    and gen_length: "length (gen x) \<le> 50"
begin

lemma valid_iff: "validate_slug (gen x) = Inr () \<longleftrightarrow> 2 \<le> length (gen x) \<and> last (gen x) \<noteq> 45"
  using gen_chars [of x] gen_hd [of x] gen_length [of x]
  by (cases "gen x = []") (auto simp: validate_slug_Inr)

end

locale slug_exact = slug_source +
  assumes gen_last: "gen x \<noteq> [] \<Longrightarrow> last (gen x) \<noteq> 45"
begin

lemma valid_iff_long: "validate_slug (gen x) = Inr () \<longleftrightarrow> 2 \<le> length (gen x)"
  using valid_iff [of x] gen_last [of x] by (cases "gen x = []") auto

end

lemma js_slug_chars: "list_all slug_char (js_slug U n)"
proof -
  have "c = 45 \<or> js_slug_char c" if "c \<in> set (js_slug_full U n)" for c
  proof -
    have "c \<in> set (replace_runs (\<lambda>c. \<not> js_slug_char c) [45] (js_trim (to_lower U n)))"
      using that unfolding js_slug_full_def by (rule subsetD [OF set_strip])
    from set_replace_runs [OF this] show ?thesis by auto
  qed
  then have "list_all slug_char (js_slug_full U n)"
    by (auto simp: list_all_iff slug_char_def js_slug_char_def)
  then show ?thesis by (simp add: js_slug_def slice_to_def list_all_take)
qed

lemma js_slug_hd: "js_slug U n \<noteq> [] \<Longrightarrow> hd (js_slug U n) \<noteq> 45"
proof -
  have ne: "strip hyphen s \<noteq> [] \<Longrightarrow> hd (strip hyphen s) \<noteq> 45" for s
    using strip_hd [of hyphen s] by simp
  assume "js_slug U n \<noteq> []"
  then have "js_slug_full U n \<noteq> []" "hd (js_slug U n) = hd (js_slug_full U n)"
    by (auto simp: js_slug_def slice_to_def)
  moreover from this(1) have "hd (js_slug_full U n) \<noteq> 45"
    unfolding js_slug_full_def by (rule ne)
  ultimately show ?thesis by simp
qed

interpretation browser_slug: slug_source "js_slug U" for U
  by unfold_locales
     (auto simp: js_slug_chars js_slug_hd, simp add: js_slug_def slice_to_def)

interpretation server_slug: slug_exact slugify
proof unfold_locales
  fix s
  show "list_all slug_char (slugify s)"
    by (simp add: slugify_words cut_50_all words_from_chars)
  show "slugify s \<noteq> [] \<Longrightarrow> hd (slugify s) \<noteq> 45"
    using words_from_hd [of False s] cut_50_hd [of "words_from False False s"]
    by (cases "words_from False False s = []") (auto simp: slugify_words cut_50_def)
  show "length (slugify s) \<le> 50" by (simp add: slugify_words cut_50_length)
  show "slugify s \<noteq> [] \<Longrightarrow> last (slugify s) \<noteq> 45"
    unfolding slugify_words by (rule cut_50_last) (use words_from_gap words_from_last in auto)
qed

subsection \<open>Properties\<close>

text \<open>What the server generates is accepted by the server's own check as soon as it has
  the two characters a slug needs.\<close>
lemma slugify_valid: "validate_slug (slugify s) = Inr () \<longleftrightarrow> 2 \<le> length (slugify s)"
  by (rule server_slug.valid_iff_long)

text \<open>The browser's suggestion is accepted by the server exactly when it has two
  characters and the cut at fifty did not leave a hyphen at its end.\<close>
lemma js_slug_valid:
  "validate_slug (js_slug U n) = Inr () \<longleftrightarrow> 2 \<le> length (js_slug U n) \<and> last (js_slug U n) \<noteq> 45"
  by (rule browser_slug.valid_iff)

text \<open>C27: for an ASCII name the browser suggests exactly what the server would generate,
  except when the fiftieth character of the unlimited slug is a hyphen: then the browser's
  cut leaves that hyphen at the end and the server rejects the suggestion, while the slug the
  server generates itself is accepted.\<close>
lemma js_slug_agrees:
  assumes "is_ascii name"
  shows "if 49 < length (js_slug_full U name) \<and> js_slug_full U name ! 49 = 45
    then js_slug U name = take 49 (slugify name) @ [45] \<and>
         validate_slug (js_slug U name) = Inl slug_error \<and> validate_slug (slugify name) = Inr ()
    else js_slug U name = slugify name"
proof -
  let ?w = "js_slug_full U name"
  have w: "slugify name = cut_50 ?w" by (simp add: slugify_words js_slug_full_words [OF assms])
  show ?thesis
  proof (cases "49 < length ?w \<and> ?w ! 49 = 45")
    case True
    then have t: "take 50 ?w = take 49 ?w @ [45]" using take_Suc_conv_app_nth [of 49 ?w] by simp
    have s: "take 49 (cut_50 ?w) = take 49 ?w" "49 \<le> length (cut_50 ?w)"
      using True by (auto simp: cut_50_def)
    have "validate_slug (js_slug U name) \<noteq> Inr ()"
      by (simp only: browser_slug.valid_iff) (simp add: js_slug_def slice_to_def t)
    then have "validate_slug (js_slug U name) = Inl slug_error"
      by (auto simp: validate_slug_def split: if_splits)
    moreover have "validate_slug (slugify name) = Inr ()"
      unfolding server_slug.valid_iff_long using s(2) w by simp
    ultimately show ?thesis using True t s(1) w by (simp add: js_slug_def slice_to_def)
  next
    case False
    then show ?thesis using w by (auto simp: js_slug_def slice_to_def cut_50_def)
  qed
qed

lemma js_slug_agrees_witness:
  "js_slug (\<lambda>i s. []) (lit ''My App'') = slugify (lit ''My App'') \<and>
   (let name = replicate 49 97 @ [32, 98] in
      validate_slug (js_slug (\<lambda>i s. []) name) = Inl slug_error \<and> validate_slug (slugify name) = Inr ())"
proof -
  let ?n = "replicate 49 97 @ [32, 98] :: ustr"
  have a: "is_ascii (lit ''My App'')" by code_simp
  have a': "is_ascii ?n" by code_simp
  have w0: "words_from False False (lit ''My App'') = lit ''my-app''" by code_simp
  have l: "length (js_slug_full (\<lambda>i s. []) (lit ''My App'')) = 6"
    by (simp only: js_slug_full_words [OF a] w0) (simp add: lit_def)
  have w: "words_from False False ?n = replicate 49 97 @ [45, 98]" by code_simp
  then have f: "js_slug_full (\<lambda>i s. []) ?n = replicate 49 97 @ [45, 98]"
    by (simp only: js_slug_full_words [OF a'])
  have 1: "js_slug (\<lambda>i s. []) (lit ''My App'') = slugify (lit ''My App'')"
    using js_slug_agrees [OF a, of "\<lambda>i s. []"] l by simp
  have c: "(49 < length (js_slug_full (\<lambda>i s. []) ?n) \<and> js_slug_full (\<lambda>i s. []) ?n ! 49 = 45) = True"
    using f by (simp add: nth_append)
  have "validate_slug (js_slug (\<lambda>i s. []) ?n) = Inl slug_error \<and> validate_slug (slugify ?n) = Inr ()"
    using js_slug_agrees [OF a', of "\<lambda>i s. []"] unfolding c if_True by blast
  with 1 show ?thesis unfolding Let_def by blast
qed

text \<open>A slug the user typed is never overwritten by later edits of the name, and clearing
  the slug field makes the next edit of the name fill it again.\<close>
lemma typed_slug_kept:
  "slug_value (form_run U f (es @ SlugInput s # map NameInput ns)) =
     (if s = [] \<and> ns \<noteq> [] then js_slug U (last ns) else s)"
proof -
  have "slug_value (foldl (form_step U) g (map NameInput ns)) =
      (if slug_edited g \<or> ns = [] then slug_value g else js_slug U (last ns))" for g
    by (induction ns arbitrary: g) auto
  then show ?thesis by (simp add: form_run_def)
qed

text \<open>A project form is accepted exactly when its token matches, its trimmed name has 1 to
  100 characters, the chosen slug is 2 to 50 lower-case letters, digits and inner hyphens,
  and the trimmed description has at most 240 characters; the stored fields are those.\<close>
lemma project_fields_accepts:
  "project_fields csrf form = Inr (name, slug, description) \<longleftrightarrow>
     pf_csrf form = csrf \<and>
     name = rs_trim (pf_name form) \<and> name \<noteq> [] \<and> length name \<le> 100 \<and>
     slug = chosen_slug name (pf_slug form) \<and>
     list_all slug_char slug \<and> 2 \<le> length slug \<and> length slug \<le> 50 \<and> hd slug \<noteq> 45 \<and> last slug \<noteq> 45 \<and>
     description = rs_trim (case pf_description form of None \<Rightarrow> [] | Some d \<Rightarrow> d) \<and>
     length description \<le> 240"
  unfolding project_fields_def check_csrf_def
  by (auto simp: and_then_iff required_text_Inr validate_slug_Inr secure_eq_iff Let_def
      split: if_splits)

end
