(* ===== verification/JsonText.thy ===== *)
theory JsonText
  imports JsString RustString
begin

text \<open>
  \<open>JSON.parse\<close> and \<open>JSON.stringify\<close> as ECMAScript defines them, on UTF-16 code units: the
  lexical grammar, objects as lists of members in property enumeration order, the quoting of
  strings and the layout with and without a gap. The values of numbers are a type parameter
  \<open>'n\<close>; \<open>num_of\<close> reads a number literal and \<open>show_num\<close> is \<open>Number::toString\<close> (\<open>null\<close> for a
  number that is not finite). \<open>src/static/app.js\<close> and \<open>src/static/theme-init.js\<close> call both.
\<close>

datatype 'n json =
    JNull
  | JBool bool
  | JNum 'n
  | JStr ustr
  | JArr "'n json list"
  | JObj "(ustr \<times> 'n json) list"

datatype tok = TLBrace | TRBrace | TLBrack | TRBrack | TColon | TComma
  | TStr ustr | TNum ustr | TTrue | TFalse | TNull

subsection \<open>Objects\<close>

text \<open>
  A property whose name is the canonical decimal of a number below \<open>2 ^ 32 - 1\<close> is an array
  index; own properties are enumerated with the indices first, in ascending order, and the
  others after them in the order of their creation. The member list is kept in that order.
\<close>

definition index_val :: "ustr \<Rightarrow> nat" where
  "index_val k = foldl (\<lambda>n c. 10 * n + (c - 48)) 0 k"

definition is_index :: "ustr \<Rightarrow> bool" where
  "is_index k \<longleftrightarrow> k \<noteq> [] \<and> length k \<le> 10 \<and> list_all is_digit k \<and> (hd k = 48 \<longrightarrow> length k = 1) \<and>
     index_val k < 4294967295"

definition key_before :: "ustr \<Rightarrow> ustr \<Rightarrow> bool" where
  "key_before k l \<longleftrightarrow> is_index k \<and> (is_index l \<longrightarrow> index_val k < index_val l)"

fun obj_put :: "ustr \<Rightarrow> 'v \<Rightarrow> (ustr \<times> 'v) list \<Rightarrow> (ustr \<times> 'v) list" where
  "obj_put k v [] = [(k, v)]"
| "obj_put k v ((l, w) # kvs) =
     (if k = l then (k, v) # kvs
      else if key_before k l then (k, v) # (l, w) # kvs
      else (l, w) # obj_put k v kvs)"

fun obj_get :: "ustr \<Rightarrow> (ustr \<times> 'v) list \<Rightarrow> 'v option" where
  "obj_get k [] = None"
| "obj_get k ((l, w) # kvs) = (if k = l then Some w else obj_get k kvs)"

definition obj_delete :: "ustr \<Rightarrow> (ustr \<times> 'v) list \<Rightarrow> (ustr \<times> 'v) list" where
  "obj_delete k kvs = filter (\<lambda>kv. fst kv \<noteq> k) kvs"

definition obj_of :: "(ustr \<times> 'v) list \<Rightarrow> (ustr \<times> 'v) list" where
  "obj_of members = foldl (\<lambda>kvs (k, v). obj_put k v kvs) [] members"

text \<open>The order of members in an object: no name twice, and never one out of order.\<close>

fun obj_ok :: "(ustr \<times> 'v) list \<Rightarrow> bool" where
  "obj_ok [] = True"
| "obj_ok ((k, v) # kvs) =
     ((\<forall>(l, w) \<in> set kvs. l \<noteq> k \<and> (is_index l \<longrightarrow> key_before k l)) \<and> obj_ok kvs)"

subsection \<open>Lexical grammar\<close>

definition json_ws :: "nat \<Rightarrow> bool" where
  "json_ws c \<longleftrightarrow> c = 9 \<or> c = 10 \<or> c = 13 \<or> c = 32"

definition hex_val :: "nat \<Rightarrow> nat option" where
  "hex_val c =
     (if is_digit c then Some (c - 48)
      else if 97 \<le> c \<and> c \<le> 102 then Some (c - 87)
      else if 65 \<le> c \<and> c \<le> 70 then Some (c - 55)
      else None)"

definition simple_escape :: "nat \<Rightarrow> nat option" where
  "simple_escape c =
     (if c = 34 then Some 34 else if c = 92 then Some 92 else if c = 47 then Some 47
      else if c = 98 then Some 8 else if c = 102 then Some 12 else if c = 110 then Some 10
      else if c = 114 then Some 13 else if c = 116 then Some 9 else None)"

definition hex4 :: "ustr \<Rightarrow> (nat \<times> ustr) option" where
  "hex4 s =
     (case s of
        a # b # c # d # t \<Rightarrow>
          (case (hex_val a, hex_val b, hex_val c, hex_val d) of
             (Some w, Some x, Some y, Some z) \<Rightarrow> Some (4096 * w + 256 * x + 16 * y + z, t)
           | _ \<Rightarrow> None)
      | _ \<Rightarrow> None)"

lemma hex4_length: "hex4 s = Some (u, t) \<Longrightarrow> length t < length s"
  by (auto simp: hex4_def split: list.splits option.splits)

definition push_unit :: "nat \<Rightarrow> (ustr \<times> ustr) option \<Rightarrow> (ustr \<times> ustr) option" where
  "push_unit c r = map_option (\<lambda>(s, t). (c # s, t)) r"

text \<open>The body of a string literal, after its opening quote.\<close>

function read_string :: "ustr \<Rightarrow> (ustr \<times> ustr) option" where
  "read_string [] = None"
| "read_string (c # s) =
     (if c = 34 then Some ([], s)
      else if c < 32 then None
      else if c \<noteq> 92 then push_unit c (read_string s)
      else if s = [] then None
      else if hd s = 117 then
        (case hex4 (tl s) of None \<Rightarrow> None | Some (u, t) \<Rightarrow> push_unit u (read_string t))
      else
        (case simple_escape (hd s) of None \<Rightarrow> None | Some u \<Rightarrow> push_unit u (read_string (tl s))))"
  by pat_completeness auto
termination
  by (relation "measure length") (auto dest!: hex4_length)

lemma read_string_length: "read_string s = Some (x, t) \<Longrightarrow> length t < length s"
proof (induction s arbitrary: x t rule: read_string.induct)
  case (2 c s)
  show ?case
  proof (cases "hd s = 117 \<and> hex4 (tl s) \<noteq> None")
    case True
    then obtain u r where u: "hex4 (tl s) = Some (u, r)" by auto
    from 2 u True hex4_length [OF u] show ?thesis
      by (fastforce simp: push_unit_def split: if_splits option.splits)
  next
    case False
    with 2 show ?thesis
      by (fastforce simp: push_unit_def split: if_splits option.splits)
  qed
qed simp

definition num_char :: "nat \<Rightarrow> bool" where
  "num_char c \<longleftrightarrow> is_digit c \<or> c = 43 \<or> c = 45 \<or> c = 46 \<or> c = 69 \<or> c = 101"

definition digits1 :: "ustr \<Rightarrow> bool" where
  "digits1 s \<longleftrightarrow> s \<noteq> [] \<and> list_all is_digit s"

definition exponent_ok :: "ustr \<Rightarrow> bool" where
  "exponent_ok s \<longleftrightarrow>
     s = [] \<or>
     ((hd s = 101 \<or> hd s = 69) \<and>
      digits1 (if tl s \<noteq> [] \<and> (hd (tl s) = 43 \<or> hd (tl s) = 45) then tl (tl s) else tl s))"

definition fraction_ok :: "ustr \<Rightarrow> bool" where
  "fraction_ok s \<longleftrightarrow>
     (if s \<noteq> [] \<and> hd s = 46
      then digits1 (takeWhile is_digit (tl s)) \<and> exponent_ok (dropWhile is_digit (tl s))
      else exponent_ok s)"

text \<open>The whole grammar of a JSON number: sign, integer part, fraction, exponent.\<close>

definition json_number :: "ustr \<Rightarrow> bool" where
  "json_number s =
     (let t = (if s \<noteq> [] \<and> hd s = 45 then tl s else s);
          i = takeWhile is_digit t
      in i \<noteq> [] \<and> (hd i = 48 \<longrightarrow> length i = 1) \<and> fraction_ok (dropWhile is_digit t))"

function tokenise :: "ustr \<Rightarrow> tok list option" where
  "tokenise [] = Some []"
| "tokenise (c # s) =
     (if json_ws c then tokenise s
      else if c = 123 then map_option (Cons TLBrace) (tokenise s)
      else if c = 125 then map_option (Cons TRBrace) (tokenise s)
      else if c = 91 then map_option (Cons TLBrack) (tokenise s)
      else if c = 93 then map_option (Cons TRBrack) (tokenise s)
      else if c = 58 then map_option (Cons TColon) (tokenise s)
      else if c = 44 then map_option (Cons TComma) (tokenise s)
      else if c = 34 then
        (case read_string s of None \<Rightarrow> None | Some (x, t) \<Rightarrow> map_option (Cons (TStr x)) (tokenise t))
      else if is_digit c \<or> c = 45 then
        (if json_number (c # takeWhile num_char s)
         then map_option (Cons (TNum (c # takeWhile num_char s))) (tokenise (dropWhile num_char s))
         else None)
      else if c = 116 \<and> take 3 s = lit ''rue'' then map_option (Cons TTrue) (tokenise (drop 3 s))
      else if c = 102 \<and> take 4 s = lit ''alse'' then map_option (Cons TFalse) (tokenise (drop 4 s))
      else if c = 110 \<and> take 3 s = lit ''ull'' then map_option (Cons TNull) (tokenise (drop 3 s))
      else None)"
  by pat_completeness auto
termination
  by (relation "measure length")
     (auto dest!: read_string_length simp: le_imp_less_Suc length_dropWhile_le)

subsection \<open>Parsing\<close>

text \<open>
  Recursive descent over the tokens; every call spends one unit of fuel, and twice the number
  of tokens is always enough (\<open>parse_fuel\<close>).
\<close>

definition next_is :: "tok \<Rightarrow> tok list \<Rightarrow> bool" where
  "next_is t ts \<longleftrightarrow> ts \<noteq> [] \<and> hd ts = t"

fun parse_value :: "(ustr \<Rightarrow> 'n) \<Rightarrow> nat \<Rightarrow> tok list \<Rightarrow> ('n json \<times> tok list) option"
and parse_elems :: "(ustr \<Rightarrow> 'n) \<Rightarrow> nat \<Rightarrow> tok list \<Rightarrow> ('n json list \<times> tok list) option"
and parse_members :: "(ustr \<Rightarrow> 'n) \<Rightarrow> nat \<Rightarrow> tok list \<Rightarrow> ((ustr \<times> 'n json) list \<times> tok list) option"
where
  "parse_value f 0 ts = None"
| "parse_value f (Suc n) ts =
     (case ts of
        TNull # r \<Rightarrow> Some (JNull, r)
      | TTrue # r \<Rightarrow> Some (JBool True, r)
      | TFalse # r \<Rightarrow> Some (JBool False, r)
      | TNum w # r \<Rightarrow> Some (JNum (f w), r)
      | TStr s # r \<Rightarrow> Some (JStr s, r)
      | TLBrack # r \<Rightarrow>
          (if next_is TRBrack r then Some (JArr [], tl r)
           else map_option (\<lambda>(vs, q). (JArr vs, q)) (parse_elems f n r))
      | TLBrace # r \<Rightarrow>
          (if next_is TRBrace r then Some (JObj [], tl r)
           else map_option (\<lambda>(kvs, q). (JObj (obj_of kvs), q)) (parse_members f n r))
      | _ \<Rightarrow> None)"
| "parse_elems f 0 ts = None"
| "parse_elems f (Suc n) ts =
     (case parse_value f n ts of
        None \<Rightarrow> None
      | Some (v, r) \<Rightarrow>
          (if next_is TRBrack r then Some ([v], tl r)
           else if next_is TComma r then map_option (\<lambda>(vs, q). (v # vs, q)) (parse_elems f n (tl r))
           else None))"
| "parse_members f 0 ts = None"
| "parse_members f (Suc n) ts =
     (case ts of
        TStr k # t \<Rightarrow>
          (if next_is TColon t then
             (case parse_value f n (tl t) of
                None \<Rightarrow> None
              | Some (v, r) \<Rightarrow>
                  (if next_is TRBrace r then Some ([(k, v)], tl r)
                   else if next_is TComma r
                     then map_option (\<lambda>(kvs, q). ((k, v) # kvs, q)) (parse_members f n (tl r))
                   else None))
           else None)
      | _ \<Rightarrow> None)"

definition json_parse :: "(ustr \<Rightarrow> 'n) \<Rightarrow> ustr \<Rightarrow> 'n json option" where
  "json_parse f text =
     (case tokenise text of
        None \<Rightarrow> None
      | Some ts \<Rightarrow>
          (case parse_value f (2 * length ts) ts of
             Some (v, []) \<Rightarrow> Some v
           | _ \<Rightarrow> None))"

subsection \<open>Printing\<close>

definition hex_digit :: "nat \<Rightarrow> nat" where
  "hex_digit d = (if d < 10 then 48 + d else 87 + d)"

definition hex_escape :: "nat \<Rightarrow> ustr" where
  "hex_escape c = [92, 117, hex_digit (c div 4096), hex_digit (c div 256 mod 16),
     hex_digit (c div 16 mod 16), hex_digit (c mod 16)]"

definition lead_surrogate :: "nat \<Rightarrow> bool" where
  "lead_surrogate c \<longleftrightarrow> 55296 \<le> c \<and> c < 56320"

definition trail_surrogate :: "nat \<Rightarrow> bool" where
  "trail_surrogate c \<longleftrightarrow> 56320 \<le> c \<and> c < 57344"

definition quote_unit :: "nat \<Rightarrow> ustr" where
  "quote_unit c =
     (if c = 8 then [92, 98] else if c = 9 then [92, 116] else if c = 10 then [92, 110]
      else if c = 12 then [92, 102] else if c = 13 then [92, 114]
      else if c = 34 then [92, 34] else if c = 92 then [92, 92]
      else if c < 32 then hex_escape c else [c])"

text \<open>A surrogate pair is copied; a surrogate that is not part of one is escaped.\<close>

function quote_body :: "ustr \<Rightarrow> ustr" where
  "quote_body [] = []"
| "quote_body (c # s) =
     (if lead_surrogate c \<and> s \<noteq> [] \<and> trail_surrogate (hd s) then c # hd s # quote_body (tl s)
      else if lead_surrogate c \<or> trail_surrogate c then hex_escape c @ quote_body s
      else quote_unit c @ quote_body s)"
  by pat_completeness auto
termination
  by (relation "measure length") auto

definition quote :: "ustr \<Rightarrow> ustr" where
  "quote s = 34 # quote_body s @ [34]"

text \<open>
  \<open>SerializeJSONArray\<close> and \<open>SerializeJSONObject\<close>: \<open>gap\<close> is empty or the indentation step, \<open>ind\<close>
  the indentation reached so far; \<open>wrapped\<close> is their common layout of the items.
\<close>

definition wrapped :: "nat \<Rightarrow> nat \<Rightarrow> ustr \<Rightarrow> ustr \<Rightarrow> ustr list \<Rightarrow> ustr" where
  "wrapped l r gap ind items =
     (if items = [] then [l, r]
      else if gap = [] then [l] @ join [44] items @ [r]
      else [l] @ (10 # ind @ gap) @ join (44 # 10 # ind @ gap) items @ (10 # ind) @ [r])"

function ser :: "('n \<Rightarrow> ustr) \<Rightarrow> ustr \<Rightarrow> ustr \<Rightarrow> 'n json \<Rightarrow> ustr" where
  "ser g gap ind JNull = lit ''null''"
| "ser g gap ind (JBool b) = (if b then lit ''true'' else lit ''false'')"
| "ser g gap ind (JNum n) = g n"
| "ser g gap ind (JStr s) = quote s"
| "ser g gap ind (JArr vs) = wrapped 91 93 gap ind (map (ser g gap (ind @ gap)) vs)"
| "ser g gap ind (JObj kvs) = wrapped 123 125 gap ind
     (map (\<lambda>kv. quote (fst kv) @ (if gap = [] then [58] else [58, 32]) @
        ser g gap (ind @ gap) (snd kv)) kvs)"
  by pat_completeness auto
termination
proof (relation "measure (\<lambda>(g, gap, ind, v). size v)", goal_cases)
  case (3 g gap ind kvs kv)
  then have "size_prod (\<lambda>_. 0) size kv < size_list (size_prod (\<lambda>_. 0) size) kvs + 1"
    using size_list_estimation' [of kv kvs] by (fastforce simp: less_Suc_eq_le)
  then show ?case by (cases kv) simp
qed (auto simp: less_Suc_eq_le intro: size_list_estimation')

definition stringify :: "('n \<Rightarrow> ustr) \<Rightarrow> ustr \<Rightarrow> 'n json \<Rightarrow> ustr" where
  "stringify g gap v = ser g gap [] v"

subsection \<open>Enough fuel\<close>

lemma next_is_length: "next_is t r \<Longrightarrow> length (tl r) < length r"
  by (cases r) (auto simp: next_is_def)

lemma parse_rest_length:
  shows "parse_value f n ts = Some (v, r) \<Longrightarrow> length r < length ts"
    and "parse_elems f n ts = Some (vs, r) \<Longrightarrow> length r < length ts"
    and "parse_members f n ts = Some (kvs, r) \<Longrightarrow> length r < length ts"
proof (induction f n ts and f n ts and f n ts arbitrary: v r and vs r and kvs r
    rule: parse_value_parse_elems_parse_members.induct)
  case (2 f n ts)
  show ?case
  proof (cases ts)
    case (Cons t q)
    with 2 show ?thesis
      by (cases t) (fastforce split: if_splits dest: next_is_length)+
  qed (use 2 in simp)
next
  case (4 f n ts)
  from 4(3) obtain u q where u: "parse_value f n ts = Some (u, q)"
    by (auto split: option.splits)
  have q: "length q < length ts" by (rule 4(1) [OF u])
  show ?case
  proof (cases "next_is TRBrack q")
    case True
    then show ?thesis using 4(3) u q next_is_length [OF True] by simp
  next
    case False
    then obtain ws where n: "next_is TComma q" and w: "parse_elems f n (tl q) = Some (ws, r)"
      using 4(3) u by (auto split: if_splits)
    show ?thesis using 4(2) [OF u refl False n w] q next_is_length [OF n] by simp
  qed
next
  case (6 f n ts)
  from 6(3) obtain k t where t: "ts = TStr k # t" "next_is TColon t"
    by (auto split: list.splits tok.splits if_splits)
  with 6(3) obtain u q where u: "parse_value f n (tl t) = Some (u, q)"
    by (auto split: option.splits)
  have q: "length q < length (tl t)" by (rule 6(1) [OF t(1) refl t(2) u])
  have l: "length (tl t) < length ts" using t by simp
  show ?case
  proof (cases "next_is TRBrace q")
    case True
    then show ?thesis using 6(3) t u q l next_is_length [OF True] by simp
  next
    case False
    then obtain ws where n: "next_is TComma q" and w: "parse_members f n (tl q) = Some (ws, r)"
      using 6(3) t u by (auto split: if_splits)
    show ?thesis using 6(2) [OF t(1) refl t(2) u refl False n w] q l next_is_length [OF n] by simp
  qed
qed auto

lemma parse_fuel:
  shows "2 * length ts \<le> n \<Longrightarrow> n \<le> m \<Longrightarrow> parse_value f m ts = parse_value f n ts"
    and "2 * length ts < n \<Longrightarrow> n \<le> m \<Longrightarrow> parse_elems f m ts = parse_elems f n ts"
    and "2 * length ts < n \<Longrightarrow> n \<le> m \<Longrightarrow> parse_members f m ts = parse_members f n ts"
proof (induction f n ts and f n ts and f n ts arbitrary: m and m and m
    rule: parse_value_parse_elems_parse_members.induct)
  case (1 f ts)
  then show ?case by (cases m) auto
next
  case (2 f n ts)
  from 2(4) obtain m' where m: "m = Suc m'" "n \<le> m'" by (cases m) auto
  show ?case
  proof (cases ts)
    case (Cons t q)
    have "parse_elems f m' q = parse_elems f n q" if a: "t = TLBrack" "\<not> next_is TRBrack q"
      by (rule 2(2) [OF Cons a]) (use 2(3) m Cons in auto)
    moreover have "parse_members f m' q = parse_members f n q"
      if a: "t = TLBrace" "\<not> next_is TRBrace q"
      by (rule 2(1) [OF Cons a]) (use 2(3) m Cons in auto)
    ultimately show ?thesis by (cases t) (simp_all add: m Cons)
  qed (simp add: m)
next
  case (4 f n ts)
  from 4(4) obtain m' where m: "m = Suc m'" "n \<le> m'" by (cases m) auto
  have v: "parse_value f m' ts = parse_value f n ts" by (rule 4(1)) (use 4(3) m in auto)
  show ?case
  proof (cases "parse_value f n ts")
    case (Some p)
    obtain u q where u: "parse_value f n ts = Some (u, q)" using Some by (cases p) auto
    have q: "length q < length ts" by (rule parse_rest_length(1) [OF u])
    have e: "parse_elems f m' (tl q) = parse_elems f n (tl q)"
      if a: "\<not> next_is TRBrack q" "next_is TComma q"
      by (rule 4(2) [OF u refl a]) (use 4(3) m q in auto)
    show ?thesis using u v e by (simp add: m)
  qed (simp add: m v)
next
  case (6 f n ts)
  from 6(4) obtain m' where m: "m = Suc m'" "n \<le> m'" by (cases m) auto
  show ?case
  proof (cases "\<exists>k t. ts = TStr k # t \<and> next_is TColon t")
    case True
    then obtain k t where t: "ts = TStr k # t" "next_is TColon t" by blast
    have v: "parse_value f m' (tl t) = parse_value f n (tl t)"
      by (rule 6(1) [OF t(1) refl t(2)]) (use 6(3) m t in auto)
    show ?thesis
    proof (cases "parse_value f n (tl t)")
      case (Some p)
      obtain u q where u: "parse_value f n (tl t) = Some (u, q)" using Some by (cases p) auto
      have q: "length q < length (tl t)" by (rule parse_rest_length(1) [OF u])
      have e: "parse_members f m' (tl q) = parse_members f n (tl q)"
        if a: "\<not> next_is TRBrace q" "next_is TComma q"
        by (rule 6(2) [OF t(1) refl t(2) u refl a]) (use 6(3) m q t in auto)
      show ?thesis using u v e t by (simp add: m)
    qed (simp add: m v t)
  next
    case False
    show ?thesis
    proof (cases ts)
      case (Cons t q)
      with False show ?thesis by (cases t) (simp_all add: m)
    qed (simp add: m)
  qed
qed auto

text \<open>So the fuel \<open>json_parse\<close> passes never decides its result.\<close>

lemma json_parse_any_fuel:
  assumes "tokenise text = Some ts" and "2 * length ts \<le> n"
  shows "json_parse f text = (case parse_value f n ts of Some (v, []) \<Rightarrow> Some v | _ \<Rightarrow> None)"
  using parse_fuel(1) [of ts "2 * length ts" n f] assms by (simp add: json_parse_def)

subsection \<open>Lexing what was printed\<close>

definition stops :: "ustr \<Rightarrow> bool" where
  "stops rest \<longleftrightarrow> rest = [] \<or> \<not> num_char (hd rest)"

definition lexes :: "ustr \<Rightarrow> tok list \<Rightarrow> bool" where
  "lexes t ts \<longleftrightarrow> (\<forall>rest. stops rest \<longrightarrow> tokenise (t @ rest) = map_option ((@) ts) (tokenise rest))"

lemma lexesD: "lexes t ts \<Longrightarrow> stops rest \<Longrightarrow> tokenise (t @ rest) = map_option ((@) ts) (tokenise rest)"
  by (simp add: lexes_def)

lemma tokenise_ws: "list_all json_ws w \<Longrightarrow> tokenise (w @ rest) = tokenise rest"
  by (induction w) auto

lemma num_char_code [simp]: "num_char 44 = False" "num_char 93 = False" "num_char 125 = False"
    "num_char 10 = False" "num_char 58 = False"
  by (simp_all add: num_char_def is_digit_def)

lemma stops_Cons [simp]: "stops (c # r) \<longleftrightarrow> \<not> num_char c"
  by (simp add: stops_def)

lemma stops_Nil [simp]: "stops []"
  by (simp add: stops_def)

lemma list_all_digits_num: "list_all is_digit s \<Longrightarrow> list_all num_char s"
  by (auto simp: list_all_iff num_char_def)

lemma digits1_num: "digits1 s \<Longrightarrow> list_all num_char s"
  by (simp add: digits1_def list_all_digits_num)

lemma num_char_signs [simp]: "num_char 43" "num_char 45" "num_char 46" "num_char 69" "num_char 101"
  by (simp_all add: num_char_def)

lemma exponent_num_chars:
  assumes "exponent_ok s"
  shows "list_all num_char s"
proof (cases s)
  case (Cons c t)
  have c: "num_char c" using assms Cons by (auto simp: exponent_ok_def)
  show ?thesis
  proof (cases "t \<noteq> [] \<and> (hd t = 43 \<or> hd t = 45)")
    case True
    then obtain u where t: "t = hd t # u" "digits1 u"
      using assms Cons by (cases t) (auto simp: exponent_ok_def)
    have "num_char (hd t)" using True by auto
    moreover have "list_all num_char u" using t(2) by (rule digits1_num)
    moreover have "s = c # hd t # u" using Cons t(1) by simp
    ultimately show ?thesis using c by simp
  next
    case False
    then have "digits1 t" using assms Cons by (auto simp: exponent_ok_def split: if_splits)
    with c Cons show ?thesis by (simp add: digits1_num)
  qed
qed simp

lemma takeWhile_append_all:
  "list_all Q (takeWhile P s) \<Longrightarrow> list_all Q (dropWhile P s) \<Longrightarrow> list_all Q s"
  by (metis list_all_append takeWhile_dropWhile_id)

lemma fraction_num_chars: "fraction_ok s \<Longrightarrow> list_all num_char s"
proof (cases "s \<noteq> [] \<and> hd s = 46")
  case True
  assume f: "fraction_ok s"
  from True obtain t where t: "s = 46 # t" by (cases s) auto
  with f have "digits1 (takeWhile is_digit t)" "exponent_ok (dropWhile is_digit t)"
    by (simp_all add: fraction_ok_def)
  then have "list_all num_char t"
    using takeWhile_append_all digits1_num exponent_num_chars by blast
  then show ?thesis using t by (simp add: num_char_def)
next
  case False
  assume "fraction_ok s"
  with False show ?thesis by (auto simp: fraction_ok_def exponent_num_chars)
qed

lemma json_number_chars:
  assumes "json_number w"
  shows "w \<noteq> [] \<and> list_all num_char w \<and> (is_digit (hd w) \<or> hd w = 45)"
proof -
  define t where "t = (if w \<noteq> [] \<and> hd w = 45 then tl w else w)"
  have i: "takeWhile is_digit t \<noteq> []" "fraction_ok (dropWhile is_digit t)"
    using assms by (simp_all add: json_number_def t_def Let_def)
  have "list_all is_digit (takeWhile is_digit t)" by (simp add: list_all_iff) (metis set_takeWhileD)
  then have t: "list_all num_char t"
    using i(2) takeWhile_append_all list_all_digits_num fraction_num_chars by blast
  have ne: "t \<noteq> []" using i(1) by auto
  have "is_digit (hd t)" using i(1) by (cases t) (auto split: if_splits)
  with t ne show ?thesis by (cases w) (auto simp: t_def num_char_def split: if_splits)
qed

lemma append_single_fun: "(@) [x] = (#) x"
  by (rule ext) simp

lemma lexes_number:
  assumes "json_number w"
  shows "lexes w [TNum w]"
  unfolding lexes_def
proof (intro allI impI)
  fix rest
  assume st: "stops rest"
  from json_number_chars [OF assms] obtain c w' where w: "w = c # w'" "list_all num_char w'"
    "is_digit c \<or> c = 45"
    by (cases w) auto
  have "takeWhile num_char (w' @ rest) = w' @ takeWhile num_char rest"
    "dropWhile num_char (w' @ rest) = dropWhile num_char rest"
    using w(2) by (simp_all add: list_all_iff dropWhile_append2)
  moreover have "takeWhile num_char rest = []" "dropWhile num_char rest = rest"
    using st by (cases rest; simp)+
  ultimately show "tokenise (w @ rest) = map_option ((@) [TNum w]) (tokenise rest)"
    using assms w(3) by (auto simp: w(1) json_ws_def is_digit_def append_single_fun)
qed

definition units :: "ustr \<Rightarrow> bool" where
  "units s \<longleftrightarrow> (\<forall>c \<in> set s. c < 65536)"

lemma units_simps [simp]: "units []" "units (c # s) \<longleftrightarrow> c < 65536 \<and> units s"
  by (auto simp: units_def)

lemma hex_val_digit: "d < 16 \<Longrightarrow> hex_val (hex_digit d) = Some d"
  by (auto simp: hex_val_def hex_digit_def is_digit_def)

lemma hex_parts: "4096 * (c div 4096) + 256 * (c div 256 mod 16) + 16 * (c div 16 mod 16) + c mod 16 = (c::nat)"
proof -
  have aux: "4096 * w + 256 * x + 16 * y + z = d"
    if "d = 16 * a + z" "a = 16 * b + y" "b = 16 * w + x" for a b d w x y z :: nat
    using that by simp
  have "c = 16 * (c div 16) + c mod 16" by simp
  moreover have "c div 16 = 16 * (c div 256) + c div 16 mod 16"
    using mult_div_mod_eq [of 16 "c div 16"] by (simp add: div_mult2_eq [symmetric])
  moreover have "c div 256 = 16 * (c div 4096) + c div 256 mod 16"
    using mult_div_mod_eq [of 16 "c div 256"] by (simp add: div_mult2_eq [symmetric])
  ultimately show ?thesis by (rule aux)
qed

lemma hex4_escape: "c < 65536 \<Longrightarrow> hex4 (tl (tl (hex_escape c)) @ t) = Some (c, t)"
proof -
  assume "c < 65536"
  then have "c div 4096 < 16" by linarith
  then show ?thesis using hex_parts [of c]
    by (simp add: hex_escape_def hex4_def hex_val_digit)
qed

lemma read_hex_escape:
  "c < 65536 \<Longrightarrow> read_string (hex_escape c @ r) = push_unit c (read_string r)"
  using hex4_escape [of c r] by (simp add: hex_escape_def)

lemma read_quote_unit:
  "c < 65536 \<Longrightarrow> read_string (quote_unit c @ r) = push_unit c (read_string r)"
  by (auto simp: quote_unit_def read_hex_escape simple_escape_def)

lemma read_quote_body: "units s \<Longrightarrow> read_string (quote_body s @ 34 # r) = Some (s, r)"
proof (induction s rule: quote_body.induct)
  case (2 c s)
  show ?case
  proof (cases "lead_surrogate c \<and> s \<noteq> [] \<and> trail_surrogate (hd s)")
    case True
    then obtain d t where s: "s = d # t" by (cases s) auto
    with 2 True have "read_string (quote_body t @ 34 # r) = Some (t, r)" by simp
    with s True show ?thesis
      by (simp add: push_unit_def lead_surrogate_def trail_surrogate_def)
  next
    case False
    with 2 show ?thesis
      by (cases "lead_surrogate c \<or> trail_surrogate c")
         (auto simp: push_unit_def read_hex_escape read_quote_unit)
  qed
qed simp

lemma lexes_string: "units s \<Longrightarrow> lexes (quote s) [TStr s]"
  by (simp add: lexes_def quote_def read_quote_body json_ws_def append_single_fun)

lemma tokenise_comma: "tokenise (44 # s) = map_option (Cons TComma) (tokenise s)"
  by (simp add: json_ws_def)

lemma tokenise_colon: "tokenise (58 # s) = map_option (Cons TColon) (tokenise s)"
  by (simp add: json_ws_def)

lemma tokenise_brackets:
  "tokenise (91 # s) = map_option (Cons TLBrack) (tokenise s)"
  "tokenise (93 # s) = map_option (Cons TRBrack) (tokenise s)"
  "tokenise (123 # s) = map_option (Cons TLBrace) (tokenise s)"
  "tokenise (125 # s) = map_option (Cons TRBrace) (tokenise s)"
  by (simp_all add: json_ws_def)

lemma tokenise_words:
  "tokenise (lit ''null'' @ s) = map_option (Cons TNull) (tokenise s)"
  "tokenise (lit ''true'' @ s) = map_option (Cons TTrue) (tokenise s)"
  "tokenise (lit ''false'' @ s) = map_option (Cons TFalse) (tokenise s)"
  by (simp_all add: json_ws_def lit_def is_digit_def)

declare tokenise.simps [simp del]

lemma tokenise_Nil [simp]: "tokenise [] = Some []"
  by (simp add: tokenise.simps)

lemma lexes_join:
  assumes "list_all2 lexes items tss" and "items \<noteq> []" and "list_all json_ws w" and "stops rest"
  shows "tokenise (join (44 # w) items @ rest) = map_option ((@) (join [TComma] tss)) (tokenise rest)"
  using assms(1,2)
proof (induction items tss rule: list_all2_induct)
  case (Cons t items ts tss)
  show ?case
  proof (cases "items = []")
    case True
    then show ?thesis using Cons assms(4) by (simp add: lexesD)
  next
    case False
    then have "tss \<noteq> []" using Cons(2) by auto
    with False have "tokenise (join (44 # w) (t # items) @ rest) =
        map_option ((@) ts) (tokenise (44 # w @ join (44 # w) items @ rest))"
      using Cons(1) by (simp add: join_Cons_ne lexesD)
    also have "\<dots> = map_option ((@) ts) (map_option (Cons TComma) (tokenise (join (44 # w) items @ rest)))"
      using assms(3) by (simp add: tokenise_comma tokenise_ws)
    also have "\<dots> = map_option ((@) (join [TComma] (ts # tss))) (tokenise rest)"
      using Cons False \<open>tss \<noteq> []\<close> by (cases "tokenise rest") (simp_all add: join_Cons_ne)
    finally show ?thesis .
  qed
qed simp

definition wrapped_toks :: "tok \<Rightarrow> tok \<Rightarrow> tok list list \<Rightarrow> tok list" where
  "wrapped_toks l r tss = l # join [TComma] tss @ [r]"

lemma lexes_wrapped:
  assumes "list_all2 lexes items tss" and "list_all json_ws gap" and "list_all json_ws ind"
    and "l = 91 \<and> r = 93 \<and> L = TLBrack \<and> R = TRBrack \<or> l = 123 \<and> r = 125 \<and> L = TLBrace \<and> R = TRBrace"
  shows "lexes (wrapped l r gap ind items) (wrapped_toks L R tss)"
  unfolding lexes_def
proof (intro allI impI)
  fix rest
  assume "stops rest"
  have l: "tokenise (l # s) = map_option (Cons L) (tokenise s)" for s
    using assms(4) by (auto simp: tokenise_brackets)
  have r: "tokenise (r # s) = map_option (Cons R) (tokenise s)" "stops (r # s)" for s
    using assms(4) by (auto simp: tokenise_brackets)
  have 10: "json_ws 10" by (simp add: json_ws_def)
  have w: "list_all json_ws (10 # ind @ gap)" using assms 10 by simp
  have ws: "tokenise (10 # ind @ gap @ s) = tokenise s" for s
    using tokenise_ws [OF w, of s] by simp
  have wi: "tokenise (10 # ind @ s) = tokenise s" for s
    using tokenise_ws [of "10 # ind" s] assms(3) 10 by simp
  show "tokenise (wrapped l r gap ind items @ rest) = map_option ((@) (wrapped_toks L R tss)) (tokenise rest)"
  proof (cases "items = []")
    case True
    then have "tss = []" using assms(1) by simp
    with True show ?thesis
      by (cases "tokenise rest") (simp_all add: wrapped_def wrapped_toks_def l r)
  next
    case ne: False
    show ?thesis
    proof (cases "gap = []")
      case True
      have "tokenise (join (44 # []) items @ r # rest) =
          map_option ((@) (join [TComma] tss)) (tokenise (r # rest))"
        by (rule lexes_join [OF assms(1) ne]) (use r in simp_all)
      then show ?thesis using ne True
        by (cases "tokenise rest") (simp_all add: wrapped_def wrapped_toks_def l r)
    next
      case False
      have "tokenise (join (44 # 10 # ind @ gap) items @ 10 # ind @ r # rest) =
          map_option ((@) (join [TComma] tss)) (tokenise (10 # ind @ r # rest))"
        by (rule lexes_join [OF assms(1) ne w]) simp
      then show ?thesis using ne False
        by (cases "tokenise rest") (simp_all add: wrapped_def wrapped_toks_def l r ws wi tokenise_ws [OF assms(2)])
    qed
  qed
qed

subsection \<open>Parsing what was printed\<close>

text \<open>
  What is documented of number conversion and used here: a finite number prints as a JSON
  number that reads back as a number printing the same, any other one prints as \<open>null\<close>.
\<close>

definition num_codec :: "(ustr \<Rightarrow> 'n) \<Rightarrow> ('n \<Rightarrow> ustr) \<Rightarrow> bool" where
  "num_codec f g \<longleftrightarrow> (\<forall>n. g n = lit ''null'' \<or> (json_number (g n) \<and> g (f (g n)) = g n))"

fun wf_json :: "'n json \<Rightarrow> bool" where
  "wf_json (JStr s) \<longleftrightarrow> units s"
| "wf_json (JArr vs) \<longleftrightarrow> (\<forall>v \<in> set vs. wf_json v)"
| "wf_json (JObj kvs) \<longleftrightarrow> obj_ok kvs \<and> (\<forall>kv \<in> set kvs. units (fst kv) \<and> wf_json (snd kv))"
| "wf_json JNull \<longleftrightarrow> True"
| "wf_json (JBool _) \<longleftrightarrow> True"
| "wf_json (JNum _) \<longleftrightarrow> True"

text \<open>The value a printed text stands for: every number replaced by what it reads back as.\<close>

fun norm :: "(ustr \<Rightarrow> 'n) \<Rightarrow> ('n \<Rightarrow> ustr) \<Rightarrow> 'n json \<Rightarrow> 'n json" where
  "norm f g (JNum n) = (if g n = lit ''null'' then JNull else JNum (f (g n)))"
| "norm f g (JArr vs) = JArr (map (norm f g) vs)"
| "norm f g (JObj kvs) = JObj (map (\<lambda>kv. (fst kv, norm f g (snd kv))) kvs)"
| "norm f g JNull = JNull"
| "norm f g (JBool b) = JBool b"
| "norm f g (JStr s) = JStr s"

fun toks :: "('n \<Rightarrow> ustr) \<Rightarrow> 'n json \<Rightarrow> tok list" where
  "toks g JNull = [TNull]"
| "toks g (JBool b) = [if b then TTrue else TFalse]"
| "toks g (JNum n) = [if g n = lit ''null'' then TNull else TNum (g n)]"
| "toks g (JStr s) = [TStr s]"
| "toks g (JArr vs) = wrapped_toks TLBrack TRBrack (map (toks g) vs)"
| "toks g (JObj kvs) = wrapped_toks TLBrace TRBrace
     (map (\<lambda>kv. TStr (fst kv) # TColon # toks g (snd kv)) kvs)"

lemma lexes_member:
  assumes "units k" and "lexes t ts"
  shows "lexes (quote k @ (if gap = [] then [58] else [58, 32]) @ t) (TStr k # TColon # ts)"
  unfolding lexes_def
proof (intro allI impI)
  fix rest
  assume st: "stops rest"
  have w: "tokenise (32 # r) = tokenise r" for r
    using tokenise_ws [of "[32]" r] by (simp add: json_ws_def)
  show "tokenise ((quote k @ (if gap = [] then [58] else [58, 32]) @ t) @ rest) =
      map_option ((@) (TStr k # TColon # ts)) (tokenise rest)"
    using lexesD [OF lexes_string [OF assms(1)], of "58 # (if gap = [] then [] else [32]) @ t @ rest"]
      lexesD [OF assms(2) st]
    by (cases "tokenise rest"; cases "gap = []") (simp_all add: tokenise_colon w)
qed

lemma lexes_ser:
  assumes "num_codec f g" and "list_all json_ws gap"
  shows "wf_json v \<Longrightarrow> list_all json_ws ind \<Longrightarrow> lexes (ser g gap ind v) (toks g v)"
proof (induction v arbitrary: ind)
  case JNull
  then show ?case by (simp add: lexes_def tokenise_words append_single_fun)
next
  case (JBool b)
  then show ?case by (simp add: lexes_def tokenise_words append_single_fun)
next
  case (JNum n)
  show ?case
  proof (cases "g n = lit ''null''")
    case True
    then show ?thesis by (simp add: lexes_def tokenise_words append_single_fun)
  next
    case False
    then have "json_number (g n)" using assms(1) by (auto simp: num_codec_def)
    then show ?thesis using False by (simp add: lexes_number)
  qed
next
  case (JStr s)
  then show ?case by (simp add: lexes_string)
next
  case (JArr vs)
  have i: "list_all json_ws (ind @ gap)" using JArr.prems assms by simp
  have "list_all2 lexes (map (ser g gap (ind @ gap)) vs) (map (toks g) vs)"
    using JArr i by (simp add: list_all2_conv_all_nth)
  from lexes_wrapped [OF this assms(2) JArr.prems(2)] show ?case by simp
next
  case (JObj kvs)
  have i: "list_all json_ws (ind @ gap)" using JObj.prems assms by simp
  have "lexes (quote (fst kv) @ (if gap = [] then [58] else [58, 32]) @ ser g gap (ind @ gap) (snd kv))
      (TStr (fst kv) # TColon # toks g (snd kv))" if "kv \<in> set kvs" for kv
    by (rule lexes_member) (use JObj that i in \<open>auto simp: snds.simps\<close>)
  then have "list_all2 lexes
      (map (\<lambda>kv. quote (fst kv) @ (if gap = [] then [58] else [58, 32]) @ ser g gap (ind @ gap) (snd kv)) kvs)
      (map (\<lambda>kv. TStr (fst kv) # TColon # toks g (snd kv)) kvs)"
    by (simp add: list_all2_conv_all_nth)
  from lexes_wrapped [OF this assms(2) JObj.prems(2)] show ?case by simp
qed

lemma toks_ne: "toks g v \<noteq> [] \<and> hd (toks g v) \<noteq> TRBrack \<and> hd (toks g v) \<noteq> TRBrace"
  by (cases v) (auto simp: wrapped_toks_def)

lemma obj_put_last: "obj_ok (kvs @ [(k, v)]) \<Longrightarrow> obj_put k v kvs = kvs @ [(k, v)]"
proof (induction kvs)
  case (Cons a kvs)
  obtain l w where a: "a = (l, w)" by (cases a)
  have "\<not> key_before k l" "k \<noteq> l"
    using Cons.prems by (auto simp: a key_before_def)
  with Cons show ?case by (simp add: a)
qed simp

lemma obj_ok_prefix: "obj_ok (kvs @ ls) \<Longrightarrow> obj_ok kvs"
  by (induction kvs rule: obj_ok.induct) auto

lemma obj_of_ok: "obj_ok kvs \<Longrightarrow> obj_of kvs = kvs"
proof (induction kvs rule: rev_induct)
  case (snoc a kvs)
  then have "obj_of kvs = kvs" using obj_ok_prefix by blast
  moreover obtain k v where "a = (k, v)" by (cases a)
  ultimately show ?case using obj_put_last [of kvs k v] snoc.prems by (simp add: obj_of_def)
qed (simp add: obj_of_def)

lemma obj_ok_map: "obj_ok (map (\<lambda>kv. (fst kv, h (snd kv))) kvs) = obj_ok kvs"
  by (induction kvs rule: obj_ok.induct) auto

text \<open>What the parser does on the tokens of a value, with the fuel it needs.\<close>

definition reads :: "(ustr \<Rightarrow> 'n) \<Rightarrow> tok list \<Rightarrow> 'n json \<Rightarrow> bool" where
  "reads f ts w \<longleftrightarrow> (\<forall>n rest. 2 * length ts \<le> n \<longrightarrow> parse_value f n (ts @ rest) = Some (w, rest))"

lemma readsD: "reads f ts w \<Longrightarrow> 2 * length ts \<le> n \<Longrightarrow> parse_value f n (ts @ rest) = Some (w, rest)"
  by (simp add: reads_def)

lemma parse_elems_join:
  assumes "list_all2 (reads f) tss ws" and "tss \<noteq> []"
  shows "2 * length (join [TComma] tss) < n \<Longrightarrow>
    parse_elems f n (join [TComma] tss @ TRBrack # rest) = Some (ws, rest)"
  using assms
proof (induction tss ws arbitrary: n rule: list_all2_induct)
  case (Cons ts tss w ws)
  then obtain m where m: "n = Suc m" by (cases n) auto
  show ?case
  proof (cases "tss = []")
    case True
    with Cons m have "parse_value f m (ts @ TRBrack # rest) = Some (w, TRBrack # rest)"
      by (intro readsD) auto
    with True Cons(2) m show ?thesis by (simp add: next_is_def)
  next
    case False
    have v: "parse_value f m (ts @ TComma # join [TComma] tss @ TRBrack # rest) =
        Some (w, TComma # join [TComma] tss @ TRBrack # rest)"
      by (rule readsD) (use Cons False m in \<open>auto simp: join_Cons_ne\<close>)
    have "parse_elems f m (join [TComma] tss @ TRBrack # rest) = Some (ws, rest)"
      by (rule Cons.IH) (use Cons False m in \<open>auto simp: join_Cons_ne\<close>)
    with v False m show ?thesis by (simp add: join_Cons_ne next_is_def)
  qed
qed simp

lemma parse_members_join:
  assumes "list_all2 (\<lambda>ts kw. \<exists>us. ts = TStr (fst kw) # TColon # us \<and> reads f us (snd kw)) tss kws"
    and "tss \<noteq> []"
  shows "2 * length (join [TComma] tss) < n \<Longrightarrow>
    parse_members f n (join [TComma] tss @ TRBrace # rest) = Some (kws, rest)"
  using assms
proof (induction tss kws arbitrary: n rule: list_all2_induct)
  case (Cons ts tss kw kws)
  then obtain m where m: "n = Suc m" by (cases n) auto
  obtain us where us: "ts = TStr (fst kw) # TColon # us" "reads f us (snd kw)"
    using Cons.hyps(1) by blast
  show ?case
  proof (cases "tss = []")
    case True
    with Cons m us have "parse_value f m (us @ TRBrace # rest) = Some (snd kw, TRBrace # rest)"
      by (intro readsD) auto
    with True Cons.hyps(2) m us show ?thesis by (simp add: next_is_def)
  next
    case False
    have v: "parse_value f m (us @ TComma # join [TComma] tss @ TRBrace # rest) =
        Some (snd kw, TComma # join [TComma] tss @ TRBrace # rest)"
      by (rule readsD) (use Cons.prems us False m in \<open>auto simp: join_Cons_ne\<close>)
    have "parse_members f m (join [TComma] tss @ TRBrace # rest) = Some (kws, rest)"
      by (rule Cons.IH) (use Cons.prems us False m in \<open>auto simp: join_Cons_ne\<close>)
    with v False m us show ?thesis by (simp add: join_Cons_ne next_is_def)
  qed
qed simp

lemma hd_join: "x \<noteq> [] \<Longrightarrow> hd (join sep (x # xs) @ ys) = hd x"
  by (cases xs) auto

lemma reads_one: "(\<And>n rest. parse_value f (Suc n) (t # rest) = Some (w, rest)) \<Longrightarrow> reads f [t] w"
  unfolding reads_def
proof (intro allI impI)
  fix n rest
  assume p: "\<And>n rest. parse_value f (Suc n) (t # rest) = Some (w, rest)" and "2 * length [t] \<le> n"
  then obtain k where "n = Suc k" by (cases n) auto
  then show "parse_value f n ([t] @ rest) = Some (w, rest)" using p by simp
qed

lemma reads_toks: "wf_json v \<Longrightarrow> reads f (toks g v) (norm f g v)"
proof (induction v)
  case (JArr vs)
  show ?case unfolding reads_def
  proof (intro allI impI)
    fix n rest
    assume "2 * length (toks g (JArr vs)) \<le> n"
    then obtain m where m: "n = Suc m" "2 * length (join [TComma] (map (toks g) vs)) < m"
      by (cases n) (auto simp: wrapped_toks_def)
    show "parse_value f n (toks g (JArr vs) @ rest) = Some (norm f g (JArr vs), rest)"
    proof (cases vs)
      case Nil
      then show ?thesis by (simp add: m wrapped_toks_def next_is_def)
    next
      case (Cons v us)
      have "list_all2 (reads f) (map (toks g) vs) (map (norm f g) vs)"
        using JArr by (simp add: list_all2_conv_all_nth)
      from parse_elems_join [OF this _ m(2)]
      have "parse_elems f m (join [TComma] (map (toks g) vs) @ TRBrack # rest) =
          Some (map (norm f g) vs, rest)" using Cons by simp
      moreover have "\<not> next_is TRBrack (join [TComma] (map (toks g) vs) @ TRBrack # rest)"
        using toks_ne [of g v] Cons by (simp add: next_is_def hd_join)
      ultimately show ?thesis by (simp add: m wrapped_toks_def)
    qed
  qed
next
  case (JObj kvs)
  let ?ts = "map (\<lambda>kv. TStr (fst kv) # TColon # toks g (snd kv)) kvs"
  let ?ws = "map (\<lambda>kv. (fst kv, norm f g (snd kv))) kvs"
  show ?case unfolding reads_def
  proof (intro allI impI)
    fix n rest
    assume "2 * length (toks g (JObj kvs)) \<le> n"
    then obtain m where m: "n = Suc m" "2 * length (join [TComma] ?ts) < m"
      by (cases n) (auto simp: wrapped_toks_def)
    show "parse_value f n (toks g (JObj kvs) @ rest) = Some (norm f g (JObj kvs), rest)"
    proof (cases kvs)
      case Nil
      then show ?thesis by (simp add: m wrapped_toks_def next_is_def)
    next
      case (Cons kv us)
      have "reads f (toks g (snd kv)) (norm f g (snd kv))" if "kv \<in> set kvs" for kv
        using JObj that by (auto simp: snds.simps)
      then have "list_all2 (\<lambda>ts kw. \<exists>us. ts = TStr (fst kw) # TColon # us \<and> reads f us (snd kw)) ?ts ?ws"
        by (simp add: list_all2_conv_all_nth)
      from parse_members_join [OF this _ m(2)]
      have "parse_members f m (join [TComma] ?ts @ TRBrace # rest) = Some (?ws, rest)"
        using Cons by simp
      moreover have "\<not> next_is TRBrace (join [TComma] ?ts @ TRBrace # rest)"
        using Cons by (simp add: next_is_def hd_join)
      moreover have "obj_of ?ws = ?ws"
        using JObj.prems by (intro obj_of_ok) (simp add: obj_ok_map)
      ultimately show ?thesis by (simp add: m wrapped_toks_def)
    qed
  qed
next
  case (JNum n)
  then show ?case by (auto intro: reads_one)
qed (auto intro: reads_one)

lemma parse_stringify:
  assumes "num_codec f g" and "list_all json_ws gap" and "wf_json v"
  shows "json_parse f (stringify g gap v) = Some (norm f g v)"
proof -
  have "lexes (ser g gap [] v) (toks g v)"
    using lexes_ser [OF assms(1,2)] assms(3) by simp
  from lexesD [OF this, of "[]"] have t: "tokenise (stringify g gap v) = Some (toks g v)"
    by (simp add: stringify_def)
  have "parse_value f (2 * length (toks g v)) (toks g v @ []) = Some (norm f g v, [])"
    by (rule readsD [OF reads_toks]) (use assms in auto)
  then show ?thesis using t by (simp add: json_parse_def)
qed

lemma ser_norm: "num_codec f g \<Longrightarrow> ser g gap ind (norm f g v) = ser g gap ind v"
proof (induction v arbitrary: ind)
  case (JNum n)
  then show ?case by (auto simp: num_codec_def)
next
  case (JArr vs)
  then have "map (ser g gap (ind @ gap)) (map (norm f g) vs) = map (ser g gap (ind @ gap)) vs"
    by simp
  then show ?case by (simp only: norm.simps ser.simps)
next
  case (JObj kvs)
  have "ser g gap i (norm f g (snd kv)) = ser g gap i (snd kv)" if "kv \<in> set kvs" for kv i
    using JObj that by (auto simp: snds.simps)
  then show ?case by (simp add: comp_def cong: map_cong)
qed simp_all

subsection \<open>What the parser returns\<close>

lemma dec_index_val:
  assumes "list_all is_digit k" and "k \<noteq> []" and "hd k = 48 \<longrightarrow> length k = 1"
  shows "dec (index_val k) = k \<and> (hd k \<noteq> 48 \<longrightarrow> 0 < index_val k)"
  using assms
proof (induction k rule: rev_induct)
  case (snoc c k)
  have c: "48 \<le> c" "c \<le> 57" using snoc.prems by (auto simp: is_digit_def)
  have v: "index_val (k @ [c]) = 10 * index_val k + (c - 48)" by (simp add: index_val_def)
  show ?case
  proof (cases "k = []")
    case True
    then have "index_val (k @ [c]) = c - 48" by (simp add: index_val_def)
    then show ?thesis using c True by (subst dec.simps) auto
  next
    case False
    then have k: "dec (index_val k) = k" "0 < index_val k"
      using snoc by (auto simp: hd_append)
    obtain d where d: "c = 48 + d" "d < 10" using c by (auto simp: le_iff_add)
    then have "dec (10 * index_val k + (c - 48)) = k @ [c]"
      using k by (subst dec.simps) simp
    then show ?thesis using v k by simp
  qed
qed simp

lemma index_val_inj: "is_index k \<Longrightarrow> is_index l \<Longrightarrow> index_val k = index_val l \<Longrightarrow> k = l"
  by (metis dec_index_val is_index_def)

lemma obj_put_keys: "fst ` set (obj_put k v kvs) = insert k (fst ` set kvs)"
  by (induction kvs rule: obj_put.induct) auto

lemma obj_put_set: "kw \<in> set (obj_put k v kvs) \<Longrightarrow> kw = (k, v) \<or> (kw \<in> set kvs \<and> fst kw \<noteq> k) \<or> kw \<in> set kvs"
  by (induction kvs rule: obj_put.induct) (auto split: if_splits)

lemma obj_ok_Cons_keys:
  "obj_ok ((k, v) # kvs) \<longleftrightarrow> (\<forall>l \<in> fst ` set kvs. l \<noteq> k \<and> (is_index l \<longrightarrow> key_before k l)) \<and> obj_ok kvs"
  by auto

lemma key_before_trans: "key_before k l \<Longrightarrow> key_before l m \<Longrightarrow> key_before k m"
  by (auto simp: key_before_def)

lemma obj_put_ok: "obj_ok kvs \<Longrightarrow> obj_ok (obj_put k v kvs)"
proof (induction kvs)
  case (Cons a kvs)
  obtain l w where a: "a = (l, w)" by (cases a)
  have ok: "\<forall>m \<in> fst ` set kvs. m \<noteq> l \<and> (is_index m \<longrightarrow> key_before l m)" "obj_ok kvs"
    using Cons.prems unfolding a obj_ok_Cons_keys by auto
  consider "k = l" | "k \<noteq> l" "key_before k l" | "k \<noteq> l" "\<not> key_before k l" by blast
  then show ?case
  proof cases
    case 1
    then show ?thesis using Cons.prems a by simp
  next
    case 2
    have "m \<noteq> k \<and> (is_index m \<longrightarrow> key_before k m)" if "m \<in> fst ` set kvs" for m
      using ok(1) that 2 by (auto simp: key_before_def)
    moreover have "obj_put k v (a # kvs) = (k, v) # (l, w) # kvs" using 2 a by simp
    ultimately show ?thesis using 2 Cons.prems a by (simp only: obj_ok_Cons_keys) auto
  next
    case 3
    have "is_index k \<longrightarrow> key_before l k"
      using 3 index_val_inj [of k l]
      by (cases "index_val k" "index_val l" rule: linorder_cases) (auto simp: key_before_def)
    then have "\<forall>m \<in> fst ` set (obj_put k v kvs). m \<noteq> l \<and> (is_index m \<longrightarrow> key_before l m)"
      using 3 ok(1) by (simp add: obj_put_keys)
    moreover have "obj_put k v (a # kvs) = (l, w) # obj_put k v kvs" using 3 a by simp
    ultimately show ?thesis using Cons.IH ok(2) by (simp only: obj_ok_Cons_keys)
  qed
qed simp

lemma obj_of_snoc: "obj_of (kvs @ [(k, v)]) = obj_put k v (obj_of kvs)"
  by (simp add: obj_of_def)

lemma obj_of_is_ok: "obj_ok (obj_of kvs)"
proof (induction kvs rule: rev_induct)
  case (snoc a kvs)
  then show ?case by (cases a) (simp add: obj_of_snoc obj_put_ok)
qed (simp add: obj_of_def)

lemma obj_of_subset: "set (obj_of kvs) \<subseteq> set kvs"
proof (induction kvs rule: rev_induct)
  case (snoc a kvs)
  then show ?case by (cases a) (auto simp: obj_of_snoc dest!: obj_put_set)
qed (simp add: obj_of_def)

lemma hex4_units: "hex4 s = Some (u, t) \<Longrightarrow> units s \<Longrightarrow> u < 65536 \<and> units t"
proof -
  have h: "hex_val c = Some v \<Longrightarrow> v < 16" for c v
    by (auto simp: hex_val_def is_digit_def split: if_splits)
  assume "hex4 s = Some (u, t)" "units s"
  then obtain a b c d w x y z where s: "s = a # b # c # d # t"
    "hex_val a = Some w" "hex_val b = Some x" "hex_val c = Some y" "hex_val d = Some z"
    "u = 4096 * w + 256 * x + 16 * y + z"
    by (auto simp: hex4_def split: list.splits option.splits)
  then have "w < 16" "x < 16" "y < 16" "z < 16" using h by auto
  with s \<open>units s\<close> show ?thesis by simp
qed

lemma read_string_units: "read_string s = Some (x, t) \<Longrightarrow> units s \<Longrightarrow> units x \<and> units t"
proof (induction s arbitrary: x t rule: read_string.induct)
  case (2 c s)
  consider "c = 34" | "c \<noteq> 34" "c \<noteq> 92" | "c = 92" "hd s = 117" | "c = 92" "hd s \<noteq> 117" by blast
  then show ?case
  proof cases
    case 1
    with 2 show ?thesis by simp
  next
    case 2
    with "2.prems" "2.IH"(1) show ?thesis by (auto simp: push_unit_def split: if_splits)
  next
    case 3
    with "2.prems" obtain u r y where u: "s \<noteq> []" "hex4 (tl s) = Some (u, r)"
      "read_string r = Some (y, t)" "x = u # y"
      by (auto simp: push_unit_def split: if_splits option.splits)
    have "units (tl s)" using "2.prems" by (cases s) auto
    with u hex4_units have "u < 65536" "units r" by auto
    then show ?thesis using "2.IH"(2) 3 u by auto
  next
    case 4
    with "2.prems" obtain u y where u: "s \<noteq> []" "simple_escape (hd s) = Some u"
      "read_string (tl s) = Some (y, t)" "x = u # y"
      by (auto simp: push_unit_def split: if_splits option.splits)
    have "units (tl s)" using "2.prems" by (cases s) auto
    moreover have "u < 65536" using u(2) by (auto simp: simple_escape_def split: if_splits)
    ultimately show ?thesis using "2.IH"(3) 4 u by auto
  qed
qed simp

definition tok_ok :: "tok \<Rightarrow> bool" where
  "tok_ok t \<longleftrightarrow> (\<forall>s. t = TStr s \<longrightarrow> units s)"

lemma tok_ok_simps [simp]: "tok_ok (TStr s) = units s" "tok_ok TLBrace" "tok_ok TRBrace"
    "tok_ok TLBrack" "tok_ok TRBrack" "tok_ok TColon" "tok_ok TComma" "tok_ok (TNum w)"
    "tok_ok TTrue" "tok_ok TFalse" "tok_ok TNull"
  by (simp_all add: tok_ok_def)

lemma units_subset: "set t \<subseteq> set s \<Longrightarrow> units s \<Longrightarrow> units t"
  by (auto simp: units_def)

text \<open>One step of the lexer: white space, or one token and the rest.\<close>

lemma map_option_Cons_Some: "map_option (Cons t) r = Some ts \<Longrightarrow> \<exists>us. ts = t # us \<and> r = Some us"
  by (cases r) auto

lemma tokenise_step:
  assumes "tokenise (c # s) = Some ts" and "c \<noteq> 34"
  shows "tokenise s = Some ts \<or> (\<exists>t us r. ts = t # us \<and> tok_ok t \<and> tokenise r = Some us \<and> suffix r s)"
proof -
  have r: "suffix s s" "suffix (drop n s) s" "suffix (dropWhile num_char s) s" for n
    by (simp_all add: suffix_drop suffix_dropWhile)
  have tk: "\<exists>t us r. ts = t # us \<and> tok_ok t \<and> tokenise r = Some us \<and> suffix r s"
    if "map_option (Cons t) (tokenise r) = Some ts" "tok_ok t" "suffix r s" for t r
    using map_option_Cons_Some [OF that(1)] that(2,3) by blast
  consider (ws) "json_ws c" | (sym) "c \<in> {44, 58, 91, 93, 123, 125}"
    | (num) "\<not> json_ws c" "c \<notin> {44, 58, 91, 93, 123, 125}" "is_digit c \<or> c = 45"
    | (word) "\<not> json_ws c" "c \<notin> {44, 58, 91, 93, 123, 125}" "\<not> (is_digit c \<or> c = 45)"
    by blast
  then show ?thesis
  proof cases
    case ws
    then show ?thesis using tokenise_ws [of "[c]" s] assms(1) by simp
  next
    case sym
    then obtain t where "map_option (Cons t) (tokenise s) = Some ts" "tok_ok t"
      using assms(1) by (fastforce simp: tokenise_comma tokenise_colon tokenise_brackets)
    then show ?thesis using tk [OF _ _ r(1)] by blast
  next
    case num
    have "tokenise (c # s) = (if json_number (c # takeWhile num_char s)
        then map_option (Cons (TNum (c # takeWhile num_char s))) (tokenise (dropWhile num_char s))
        else None)"
      using num assms(2) by (simp only: tokenise.simps(2) insert_iff de_Morgan_disj if_True if_False)
    then have "map_option (Cons (TNum (c # takeWhile num_char s))) (tokenise (dropWhile num_char s)) = Some ts"
      using assms(1) by (simp split: if_splits)
    from tk [OF this _ r(3)] show ?thesis by simp
  next
    case word
    have "tokenise (c # s) =
        (if c = 116 \<and> take 3 s = lit ''rue'' then map_option (Cons TTrue) (tokenise (drop 3 s))
         else if c = 102 \<and> take 4 s = lit ''alse'' then map_option (Cons TFalse) (tokenise (drop 4 s))
         else if c = 110 \<and> take 3 s = lit ''ull'' then map_option (Cons TNull) (tokenise (drop 3 s))
         else None)"
      using word assms(2) by (simp only: tokenise.simps(2) insert_iff de_Morgan_disj if_False simp_thms)
    then consider "map_option (Cons TTrue) (tokenise (drop 3 s)) = Some ts"
      | "map_option (Cons TFalse) (tokenise (drop 4 s)) = Some ts"
      | "map_option (Cons TNull) (tokenise (drop 3 s)) = Some ts"
      using assms(1) by (metis option.distinct(1))
    then show ?thesis by cases (use tk [OF _ _ r(2)] in \<open>force+\<close>)
  qed
qed

lemma units_suffix: "suffix r s \<Longrightarrow> units s \<Longrightarrow> units r"
  using set_mono_suffix by (auto simp: units_def)

lemma tokenise_ok: "tokenise s = Some ts \<Longrightarrow> units s \<Longrightarrow> list_all tok_ok ts"
proof (induction s arbitrary: ts rule: length_induct)
  case (1 s)
  show ?case
  proof (cases s)
    case Nil
    with 1 show ?thesis by simp
  next
    case (Cons c q)
    have q: "units q" using 1 Cons by simp
    have IH: "list_all tok_ok us" if "tokenise r = Some us" "units r" "length r \<le> length q" for r us
      using 1 that Cons by (simp add: less_Suc_eq_le)
    show ?thesis
    proof (cases "c = 34")
      case True
      then have "tokenise s = (case read_string q of None \<Rightarrow> None
          | Some (x, t) \<Rightarrow> map_option (Cons (TStr x)) (tokenise t))"
        by (simp add: Cons tokenise.simps json_ws_def)
      then obtain x t us where x: "read_string q = Some (x, t)" "tokenise t = Some us" "ts = TStr x # us"
        using 1(2) by (auto split: option.splits dest!: map_option_Cons_Some [OF sym])
      then show ?thesis using IH [of t us] read_string_units [OF x(1) q] read_string_length [OF x(1)]
        by simp
    next
      case False
      from tokenise_step [OF 1(2) [unfolded Cons] False] show ?thesis
        using IH q units_suffix suffix_length_le by (metis list.pred_inject(2) order_refl)
    qed
  qed
qed

lemma list_all_next: "next_is t r \<Longrightarrow> list_all Q r \<Longrightarrow> list_all Q (tl r)"
  by (cases r) (auto simp: next_is_def)

lemma parse_wf:
  shows "parse_value f n ts = Some (v, r) \<Longrightarrow> list_all tok_ok ts \<Longrightarrow> wf_json v \<and> list_all tok_ok r"
    and "parse_elems f n ts = Some (vs, r) \<Longrightarrow> list_all tok_ok ts \<Longrightarrow>
      (\<forall>v \<in> set vs. wf_json v) \<and> list_all tok_ok r"
    and "parse_members f n ts = Some (kvs, r) \<Longrightarrow> list_all tok_ok ts \<Longrightarrow>
      (\<forall>kv \<in> set kvs. units (fst kv) \<and> wf_json (snd kv)) \<and> list_all tok_ok r"
proof (induction f n ts and f n ts and f n ts arbitrary: v r and vs r and kvs r
    rule: parse_value_parse_elems_parse_members.induct)
  case (2 f n ts)
  then obtain t q where ts: "ts = t # q" by (cases ts) auto
  have ok: "tok_ok t" "list_all tok_ok q" using 2(4) ts by auto
  consider (arr) "t = TLBrack" "\<not> next_is TRBrack q" | (obj) "t = TLBrace" "\<not> next_is TRBrace q"
    | (arr0) "t = TLBrack" "next_is TRBrack q" | (obj0) "t = TLBrace" "next_is TRBrace q"
    | (flat) "t \<noteq> TLBrack" "t \<noteq> TLBrace" by blast
  then show ?case
  proof cases
    case arr
    with 2(3) ts obtain vs where "parse_elems f n q = Some (vs, r)" "v = JArr vs" by auto
    with 2(2) [OF ts arr] ok show ?thesis by simp
  next
    case obj
    with 2(3) ts obtain kvs where k: "parse_members f n q = Some (kvs, r)" "v = JObj (obj_of kvs)"
      by auto
    with 2(1) [OF ts obj k(1) ok(2)] show ?thesis using obj_of_is_ok obj_of_subset [of kvs] by auto
  next
    case flat
    with 2(3) ts ok show ?thesis by (cases t) auto
  qed (use 2(3) ts ok list_all_next in auto)
next
  case (4 f n ts)
  from 4(3) obtain u q where u: "parse_value f n ts = Some (u, q)"
    by (auto split: option.splits)
  have q: "wf_json u" "list_all tok_ok q" using 4(1) [OF u 4(4)] by auto
  show ?case
  proof (cases "next_is TRBrack q")
    case True
    then show ?thesis using 4(3) u q list_all_next [OF True q(2)] by auto
  next
    case False
    then obtain ws where n: "next_is TComma q" and w: "parse_elems f n (tl q) = Some (ws, r)"
      and vs: "vs = u # ws"
      using 4(3) u by (auto split: if_splits)
    show ?thesis using 4(2) [OF u refl False n w list_all_next [OF n q(2)]] q vs by simp
  qed
next
  case (6 f n ts)
  from 6(3) obtain k t where t: "ts = TStr k # t" "next_is TColon t"
    by (auto split: list.splits tok.splits if_splits)
  with 6(3) obtain u q where u: "parse_value f n (tl t) = Some (u, q)"
    by (auto split: option.splits)
  have k: "units k" "list_all tok_ok (tl t)" using 6(4) t list_all_next by auto
  have q: "wf_json u" "list_all tok_ok q" using 6(1) [OF t(1) refl t(2) u k(2)] by auto
  show ?case
  proof (cases "next_is TRBrace q")
    case True
    then show ?thesis using 6(3) t u q k list_all_next [OF True q(2)] by auto
  next
    case False
    then obtain ws where n: "next_is TComma q" and w: "parse_members f n (tl q) = Some (ws, r)"
      and kvs: "kvs = (k, u) # ws"
      using 6(3) t u by (auto split: if_splits)
    show ?thesis using 6(2) [OF t(1) refl t(2) u refl False n w list_all_next [OF n q(2)]] q k kvs by simp
  qed
qed auto

lemma json_parse_wf:
  assumes "json_parse f text = Some v" and "units text"
  shows "wf_json v"
proof -
  obtain ts where ts: "tokenise text = Some ts" "parse_value f (2 * length ts) ts = Some (v, [])"
    using assms(1) by (auto simp: json_parse_def split: option.splits prod.splits list.splits)
  show ?thesis using parse_wf(1) [OF ts(2)] tokenise_ok [OF ts(1) assms(2)] by simp
qed

subsection \<open>Integers as a number model\<close>

definition int_of :: "ustr \<Rightarrow> int" where
  "int_of s = (if s \<noteq> [] \<and> hd s = 45 then - int (index_val (tl s)) else int (index_val s))"

definition show_int :: "int \<Rightarrow> ustr" where
  "show_int i = (if i < 0 then 45 # dec (nat (- i)) else dec (nat i))"

lemma dec_digits: "list_all is_digit (dec n) \<and> dec n \<noteq> [] \<and> (0 < n \<longrightarrow> hd (dec n) \<noteq> 48) \<and> index_val (dec n) = n"
proof (induction n rule: dec.induct)
  case (1 n)
  show ?case
  proof (cases "n < 10")
    case True
    then show ?thesis by (subst (1 2 3 4) dec.simps) (simp add: is_digit_def index_val_def)
  next
    case False
    have v: "index_val (k @ [c]) = 10 * index_val k + (c - 48)" for k c
      by (simp add: index_val_def)
    have d: "dec n = dec (n div 10) @ [48 + n mod 10]" using False by (subst dec.simps) simp
    have "n mod 10 < 10" by simp
    then have "is_digit (48 + n mod 10)" unfolding is_digit_def by linarith
    moreover have "0 < n div 10" using False by (simp add: div_greater_zero_iff)
    ultimately show ?thesis using 1 [OF False] by (simp add: d v hd_append)
  qed
qed

lemma dec_0: "dec 0 = [48]"
  by (subst dec.simps) simp

lemma json_number_digits:
  assumes "list_all is_digit k" "k \<noteq> []" "hd k = 48 \<longrightarrow> length k = 1"
  shows "json_number k \<and> json_number (45 # k)"
proof -
  have h: "hd k \<noteq> 45" using assms by (cases k) (auto simp: is_digit_def)
  have t: "takeWhile is_digit k = k" "dropWhile is_digit k = []"
    using assms(1) by (simp_all add: list_all_iff)
  have "fraction_ok []" by (simp add: fraction_ok_def exponent_ok_def)
  with h show ?thesis using assms(2,3) by (simp add: json_number_def Let_def t del: takeWhile_eq_all_conv)
qed

lemma json_number_dec: "json_number (dec n) \<and> json_number (45 # dec n)"
proof (cases "n = 0")
  case True
  then show ?thesis by (intro json_number_digits) (simp_all add: dec_0 is_digit_def)
next
  case False
  then show ?thesis using dec_digits [of n] by (intro json_number_digits) auto
qed

lemma hd_dec: "hd (dec n) \<noteq> 45"
  using dec_digits [of n] by (cases "dec n") (auto simp: is_digit_def)

lemma int_codec: "num_codec int_of show_int"
  by (auto simp: num_codec_def show_int_def int_of_def json_number_dec dec_digits hd_dec)

lemmas parse_numeral =
  parse_value.simps(2) [where n = "pred_numeral k" for k, folded numeral_eq_Suc]
  parse_elems.simps(2) [where n = "pred_numeral k" for k, folded numeral_eq_Suc]
  parse_members.simps(2) [where n = "pred_numeral k" for k, folded numeral_eq_Suc]

subsection \<open>Properties\<close>


abbreviation sample_json :: ustr where
  "sample_json \<equiv> lit ''{\"b\":[1, -20 ],\"7\": {\"x\":null,\"x\":true}}''"


end
