(* ===== verification/Theme.thy ===== *)
theory Theme
  imports JsonText
begin

text \<open>
  The theme of a page: \<open>src/static/theme-init.js\<close> in full, with the controls that
  \<open>syncThemeControls\<close> of \<open>src/static/app.js\<close> keeps in step. The state is what the two scripts
  read and write: the entry of \<open>localStorage\<close> (and whether reading or writing it throws), the
  script's own \<open>memoryPreference\<close>, the system's colour scheme, the attributes of the root
  element, the configuration of the API reference, the theme controls and the events
  dispatched.
\<close>

subsection \<open>State\<close>

record theme_state =
  stored :: "ustr option"
  can_read :: bool
  can_write :: bool
  memory_preference :: ustr
  sys_dark :: bool
  bs_theme :: ustr
  theme_preference :: ustr
  color_scheme :: ustr
  api_reference :: "ustr option option"
  app_loaded :: bool
  theme_selects :: "ustr list"
  theme_changes :: "(ustr \<times> ustr) list"

definition storage_key :: ustr where
  "storage_key = lit ''zbierak-theme''"

definition valid_preference :: "ustr \<Rightarrow> bool" where
  "valid_preference v \<longleftrightarrow> v = lit ''light'' \<or> v = lit ''dark'' \<or> v = lit ''system''"

text \<open>An invalid value stands for the system preference.\<close>

definition selected :: "ustr \<Rightarrow> ustr" where
  "selected v = (if valid_preference v then v else lit ''system'')"

definition stored_preference :: "ustr option \<Rightarrow> ustr" where
  "stored_preference v = (case v of None \<Rightarrow> lit ''system'' | Some p \<Rightarrow> selected p)"

subsection \<open>Operations\<close>

definition preference :: "theme_state \<Rightarrow> ustr \<times> theme_state" where
  "preference s =
     (if can_read s
      then let p = stored_preference (stored s) in (p, s\<lparr>memory_preference := p\<rparr>)
      else (memory_preference s, s))"

definition resolved_theme :: "bool \<Rightarrow> ustr \<Rightarrow> ustr" where
  "resolved_theme dark v =
     (if v = lit ''system'' then (if dark then lit ''dark'' else lit ''light'') else v)"

definition hide_toggle :: ustr where "hide_toggle = lit ''hideDarkModeToggle''"
definition dark_mode :: ustr where "dark_mode = lit ''darkMode''"

text \<open>
  The two property writes of \<open>configureScalar\<close>. On \<open>null\<close> and on a primitive the first one
  throws (the script is strict) and the attribute keeps its text; an array takes the
  properties, but they are not part of its JSON text.
\<close>

definition configured :: "ustr \<Rightarrow> 'n json \<Rightarrow> 'n json option" where
  "configured v config =
     (case config of
        JObj kvs \<Rightarrow>
          (let kvs = obj_put hide_toggle (JBool True) kvs in
           Some (JObj (if v = lit ''system'' then obj_delete dark_mode kvs
                       else obj_put dark_mode (JBool (v = lit ''dark'')) kvs)))
      | JArr vs \<Rightarrow> Some (JArr vs)
      | _ \<Rightarrow> None)"

definition configure_text :: "(ustr \<Rightarrow> 'n) \<Rightarrow> ('n \<Rightarrow> ustr) \<Rightarrow> ustr \<Rightarrow> ustr option \<Rightarrow> ustr option" where
  "configure_text f g v attr =
     (let text = (case attr of None \<Rightarrow> lit ''{}'' | Some t \<Rightarrow> if t = [] then lit ''{}'' else t) in
      case json_parse f text of
        None \<Rightarrow> attr
      | Some config \<Rightarrow>
          (case configured v config of
             None \<Rightarrow> attr
           | Some c \<Rightarrow> Some (stringify g [] c)))"

definition configure_scalar :: "(ustr \<Rightarrow> 'n) \<Rightarrow> ('n \<Rightarrow> ustr) \<Rightarrow> ustr \<Rightarrow> theme_state \<Rightarrow> theme_state" where
  "configure_scalar f g v s =
     (case api_reference s of
        None \<Rightarrow> s
      | Some attr \<Rightarrow> s\<lparr>api_reference := Some (configure_text f g v attr)\<rparr>)"

definition sync_controls :: "theme_state \<Rightarrow> theme_state" where
  "sync_controls s =
     (let (p, s') = preference s in s'\<lparr>theme_selects := map (\<lambda>_. p) (theme_selects s')\<rparr>)"

text \<open>Dispatching is synchronous: the listener of \<open>app.js\<close> runs before \<open>apply\<close> returns.\<close>

definition dispatch_change :: "ustr \<Rightarrow> ustr \<Rightarrow> theme_state \<Rightarrow> theme_state" where
  "dispatch_change p t s =
     (let s' = s\<lparr>theme_changes := theme_changes s @ [(p, t)]\<rparr> in
      if app_loaded s' then sync_controls s' else s')"

definition apply_theme :: "(ustr \<Rightarrow> 'n) \<Rightarrow> ('n \<Rightarrow> ustr) \<Rightarrow> ustr \<Rightarrow> theme_state \<Rightarrow> theme_state" where
  "apply_theme f g v s =
     (let p = selected v;
          r = resolved_theme (sys_dark s) p;
          s = s\<lparr>bs_theme := r, theme_preference := p, color_scheme := r\<rparr>;
          s = configure_scalar f g p s
      in dispatch_change p r s)"

definition set_preference :: "(ustr \<Rightarrow> 'n) \<Rightarrow> ('n \<Rightarrow> ustr) \<Rightarrow> ustr \<Rightarrow> theme_state \<Rightarrow> theme_state" where
  "set_preference f g v s =
     (let p = selected v;
          s = s\<lparr>memory_preference := p\<rparr>;
          s = (if can_write s then s\<lparr>stored := Some p\<rparr> else s)
      in apply_theme f g p s)"

definition theme_init :: "(ustr \<Rightarrow> 'n) \<Rightarrow> ('n \<Rightarrow> ustr) \<Rightarrow> theme_state \<Rightarrow> theme_state" where
  "theme_init f g s =
     (let (p, s') = preference (s\<lparr>memory_preference := lit ''system'', app_loaded := False\<rparr>)
      in apply_theme f g p s')"

definition on_system_change :: "(ustr \<Rightarrow> 'n) \<Rightarrow> ('n \<Rightarrow> ustr) \<Rightarrow> theme_state \<Rightarrow> theme_state" where
  "on_system_change f g s =
     (let (p, s') = preference s in
      if p = lit ''system'' then apply_theme f g (lit ''system'') s' else s')"

definition on_storage :: "(ustr \<Rightarrow> 'n) \<Rightarrow> ('n \<Rightarrow> ustr) \<Rightarrow> ustr option \<Rightarrow> theme_state \<Rightarrow> theme_state" where
  "on_storage f g key s =
     (if key = Some storage_key then let (p, s') = preference s in apply_theme f g p s' else s)"

text \<open>The \<open>change\<close> listener of \<open>app.js\<close>: the user picks \<open>v\<close> in the \<open>i\<close>-th control.\<close>

definition on_select :: "(ustr \<Rightarrow> 'n) \<Rightarrow> ('n \<Rightarrow> ustr) \<Rightarrow> nat \<Rightarrow> ustr \<Rightarrow> theme_state \<Rightarrow> theme_state" where
  "on_select f g i v s = set_preference f g v (s\<lparr>theme_selects := (theme_selects s)[i := v]\<rparr>)"

subsection \<open>Runs\<close>

text \<open>
  What happens to a page after \<open>theme-init.js\<close> ran in its head: \<open>app.js\<close> starts, the user picks
  a theme (nothing hears it before \<open>app.js\<close> runs), the system changes its colour scheme,
  another tab writes, removes or clears the entry or writes another one (the page then hears a
  storage event, whose key is null for a clear), a fragment is swapped in and enhanced,
  storage starts or stops to throw.
\<close>

datatype theme_event =
    AppStarts
  | UserPicks nat ustr
  | SystemChange bool
  | OtherTabWrites ustr
  | OtherTabRemoves
  | OtherTabClears
  | OtherKeyWritten
  | FragmentSwapped
  | StorageAccess bool bool

fun theme_step :: "(ustr \<Rightarrow> 'n) \<Rightarrow> ('n \<Rightarrow> ustr) \<Rightarrow> theme_state \<Rightarrow> theme_event \<Rightarrow> theme_state" where
  "theme_step f g s AppStarts = sync_controls (s\<lparr>app_loaded := True\<rparr>)"
| "theme_step f g s (UserPicks i v) =
     (if app_loaded s then on_select f g i v s
      else s\<lparr>theme_selects := (theme_selects s)[i := v]\<rparr>)"
| "theme_step f g s (SystemChange d) = on_system_change f g (s\<lparr>sys_dark := d\<rparr>)"
| "theme_step f g s (OtherTabWrites v) = on_storage f g (Some storage_key) (s\<lparr>stored := Some v\<rparr>)"
| "theme_step f g s OtherTabRemoves = on_storage f g (Some storage_key) (s\<lparr>stored := None\<rparr>)"
| "theme_step f g s OtherTabClears = on_storage f g None (s\<lparr>stored := None\<rparr>)"
| "theme_step f g s OtherKeyWritten = on_storage f g (Some (lit ''other-key'')) s"
| "theme_step f g s FragmentSwapped = (if app_loaded s then sync_controls s else s)"
| "theme_step f g s (StorageAccess r w) = s\<lparr>can_read := r, can_write := w\<rparr>"

definition theme_run :: "(ustr \<Rightarrow> 'n) \<Rightarrow> ('n \<Rightarrow> ustr) \<Rightarrow> theme_state \<Rightarrow> theme_event list \<Rightarrow> theme_state" where
  "theme_run f g s es = foldl (theme_step f g) (theme_init f g s) es"

inductive theme_reach :: "(ustr \<Rightarrow> 'n) \<Rightarrow> ('n \<Rightarrow> ustr) \<Rightarrow> theme_state \<Rightarrow> theme_state \<Rightarrow> bool"
  for f g s\<^sub>0 where
  reach_init: "theme_reach f g s\<^sub>0 (theme_init f g s\<^sub>0)"
| reach_step: "theme_reach f g s\<^sub>0 s \<Longrightarrow> theme_reach f g s\<^sub>0 (theme_step f g s e)"

subsection \<open>Frames\<close>

lemma valid_selected [simp]: "valid_preference (selected v)"
  by (simp add: selected_def valid_preference_def)

lemma selected_selected [simp]: "selected (selected v) = selected v"
  by (simp add: selected_def)

lemma selected_system [simp]: "selected (lit ''system'') = lit ''system''"
  by (simp add: selected_def)

lemma valid_stored_preference [simp]: "valid_preference (stored_preference v)"
  by (simp add: stored_preference_def valid_preference_def selected_def split: option.split)

lemma selected_stored [simp]: "selected (stored_preference v) = stored_preference v"
  by (simp add: stored_preference_def split: option.split)

lemma valid_system [simp]: "valid_preference (lit ''system'')"
  by (simp add: valid_preference_def)

lemma resolved_valid: "valid_preference p \<Longrightarrow> resolved_theme d p \<in> {lit ''light'', lit ''dark''}"
  by (auto simp: valid_preference_def resolved_theme_def)

text \<open>What a read of the preference and each dispatch keep.\<close>

lemma preference_fst:
  "fst (preference s) = (if can_read s then stored_preference (stored s) else memory_preference s)"
  by (simp add: preference_def Let_def)

lemma preference_snd:
  "snd (preference s) = s\<lparr>memory_preference := fst (preference s)\<rparr>"
  by (simp add: preference_def Let_def)

lemma preference_pair: "preference s = (fst (preference s), s\<lparr>memory_preference := fst (preference s)\<rparr>)"
  by (simp flip: preference_snd)

lemma sync_controls_eq:
  "sync_controls s = s\<lparr>memory_preference := fst (preference s),
     theme_selects := map (\<lambda>_. fst (preference s)) (theme_selects s)\<rparr>"
  by (simp add: sync_controls_def preference_snd Let_def split_beta)

lemma dispatch_change_eq:
  "dispatch_change p t s =
     (let s' = s\<lparr>theme_changes := theme_changes s @ [(p, t)]\<rparr> in
      if app_loaded s
      then s'\<lparr>memory_preference := fst (preference s),
        theme_selects := map (\<lambda>_. fst (preference s)) (theme_selects s)\<rparr>
      else s')"
  by (simp add: dispatch_change_def sync_controls_eq preference_fst Let_def)

lemma configure_scalar_eq:
  "\<exists>c. configure_scalar f g v s = s\<lparr>api_reference := c\<rparr>"
proof (cases "api_reference s")
  case None
  then have "configure_scalar f g v s = s\<lparr>api_reference := None\<rparr>"
    by (simp add: configure_scalar_def)
  then show ?thesis by blast
next
  case (Some a)
  then show ?thesis by (auto simp: configure_scalar_def)
qed

lemma apply_theme_fields:
  "stored (apply_theme f g v s) = stored s \<and>
   can_read (apply_theme f g v s) = can_read s \<and>
   can_write (apply_theme f g v s) = can_write s \<and>
   sys_dark (apply_theme f g v s) = sys_dark s \<and>
   app_loaded (apply_theme f g v s) = app_loaded s \<and>
   bs_theme (apply_theme f g v s) = resolved_theme (sys_dark s) (selected v) \<and>
   theme_preference (apply_theme f g v s) = selected v \<and>
   color_scheme (apply_theme f g v s) = resolved_theme (sys_dark s) (selected v) \<and>
   memory_preference (apply_theme f g v s) =
     (if app_loaded s \<and> can_read s then stored_preference (stored s) else memory_preference s) \<and>
   theme_selects (apply_theme f g v s) =
     (if app_loaded s
      then map (\<lambda>_. if can_read s then stored_preference (stored s) else memory_preference s) (theme_selects s)
      else theme_selects s)"
proof -
  let ?s = "s\<lparr>bs_theme := resolved_theme (sys_dark s) (selected v), theme_preference := selected v,
    color_scheme := resolved_theme (sys_dark s) (selected v)\<rparr>"
  obtain c where "configure_scalar f g (selected v) ?s = ?s\<lparr>api_reference := c\<rparr>"
    using configure_scalar_eq by blast
  then show ?thesis
    by (simp add: apply_theme_def dispatch_change_eq preference_fst Let_def)
qed

lemmas theme_fields [simp] = apply_theme_fields preference_fst preference_snd sync_controls_eq

lemmas theme_ops = set_preference_def on_select_def on_system_change_def on_storage_def
  theme_init_def split_beta Let_def

text \<open>One equation per operation for the fields a user sees.\<close>

definition shown :: "theme_state \<Rightarrow> ustr \<times> ustr \<times> ustr" where
  "shown s = (theme_preference s, bs_theme s, color_scheme s)"

definition shows_theme :: "bool \<Rightarrow> ustr \<Rightarrow> ustr \<times> ustr \<times> ustr" where
  "shows_theme d p = (p, resolved_theme d p, resolved_theme d p)"

definition page_ok :: "theme_state \<Rightarrow> bool" where
  "page_ok s \<longleftrightarrow> valid_preference (memory_preference s) \<and> valid_preference (theme_preference s) \<and>
     bs_theme s \<in> {lit ''light'', lit ''dark''} \<and> color_scheme s = bs_theme s \<and>
     (theme_preference s \<noteq> lit ''system'' \<longrightarrow> bs_theme s = theme_preference s)"

lemma page_ok_apply: "valid_preference (memory_preference s) \<Longrightarrow> page_ok (apply_theme f g v s)"
  using resolved_valid [of "selected v" "sys_dark s"]
  by (simp add: page_ok_def) (simp add: resolved_theme_def)

lemma page_ok_memory: "page_ok s \<Longrightarrow> valid_preference (memory_preference s)"
  by (simp add: page_ok_def)

lemma page_ok_sync: "page_ok s \<Longrightarrow> page_ok (sync_controls s)"
  by (simp add: page_ok_def)

lemma page_ok_frame: "page_ok s \<Longrightarrow> page_ok (s\<lparr>stored := a\<rparr>) \<and> page_ok (s\<lparr>sys_dark := d\<rparr>) \<and>
    page_ok (s\<lparr>app_loaded := l\<rparr>) \<and> page_ok (s\<lparr>theme_selects := t\<rparr>) \<and>
    page_ok (s\<lparr>can_read := r, can_write := w\<rparr>) \<and>
    (valid_preference m \<longrightarrow> page_ok (s\<lparr>memory_preference := m\<rparr>))"
  by (simp add: page_ok_def)

lemma page_ok_init: "page_ok (theme_init f g s)"
  by (simp add: theme_ops) (intro conjI impI page_ok_apply; simp)

lemma page_ok_set: "page_ok (set_preference f g v s)"
  by (simp add: theme_ops page_ok_apply)

lemma page_ok_system: "page_ok s \<Longrightarrow> page_ok (on_system_change f g s)"
  by (auto simp: theme_ops page_ok_apply page_ok_memory page_ok_frame)

lemma page_ok_storage: "page_ok s \<Longrightarrow> page_ok (on_storage f g k s)"
  by (auto simp: theme_ops page_ok_apply page_ok_memory page_ok_frame)

lemma page_ok_step: "page_ok s \<Longrightarrow> page_ok (theme_step f g s e)"
  by (cases e)
     (auto simp: page_ok_sync page_ok_frame page_ok_system page_ok_storage page_ok_set on_select_def
       simp del: sync_controls_eq)

subsection \<open>The abstract page\<close>

text \<open>
  What a page promises while its storage works: a single preference, the system's scheme and
  whether the application script runs. \<open>spec_theme\<close> is the effect of an event on it; clearing
  the storage is left out (its event carries no key and the script does not act on it), and so
  is a storage that stops working.
\<close>

type_synonym theme_spec = "ustr \<times> bool \<times> bool"

fun spec_theme :: "theme_spec \<Rightarrow> theme_event \<Rightarrow> theme_spec" where
  "spec_theme (p, d, l) AppStarts = (p, d, True)"
| "spec_theme (p, d, l) (UserPicks i v) = (if l then selected v else p, d, l)"
| "spec_theme (p, d, l) (SystemChange d') = (p, d', l)"
| "spec_theme (p, d, l) (OtherTabWrites v) = (selected v, d, l)"
| "spec_theme (p, d, l) OtherTabRemoves = (lit ''system'', d, l)"
| "spec_theme (p, d, l) _ = (p, d, l)"

fun storage_works :: "theme_event \<Rightarrow> bool" where
  "storage_works OtherTabClears = False"
| "storage_works (StorageAccess r w) = (r \<and> w)"
| "storage_works _ = True"

definition theme_abs :: "theme_state \<Rightarrow> theme_spec" where
  "theme_abs s = (stored_preference (stored s), sys_dark s, app_loaded s)"

text \<open>The state stands for an abstract page: working storage, the shown theme, the controls.\<close>

definition represents :: "theme_state \<Rightarrow> theme_spec \<Rightarrow> bool" where
  "represents s q \<longleftrightarrow> can_read s \<and> can_write s \<and> theme_abs s = q \<and>
     shown s = shows_theme (fst (snd q)) (fst q) \<and>
     (snd (snd q) \<longrightarrow> (\<forall>c \<in> set (theme_selects s). c = fst q))"

lemma other_key: "lit ''other-key'' \<noteq> storage_key"
  by (simp add: storage_key_def lit_def)

lemma stored_Some [simp]: "stored_preference (Some v) = selected v"
  "stored_preference None = lit ''system''"
  by (simp_all add: stored_preference_def)

lemmas represents_defs = represents_def theme_abs_def shown_def shows_theme_def

lemma represents_init: "can_read s \<Longrightarrow> can_write s \<Longrightarrow>
    represents (theme_init f g s) (stored_preference (stored s), sys_dark s, False)"
  by (simp add: represents_defs theme_ops)

lemma represents_step:
  assumes "represents s q" and "storage_works e"
  shows "represents (theme_step f g s e) (spec_theme q e)"
proof -
  obtain p d l where q: "q = (p, d, l)" by (cases q) auto
  from assms(1) have r: "can_read s" "can_write s" "stored_preference (stored s) = p"
    "sys_dark s = d" "app_loaded s = l" "shown s = shows_theme d p"
    "l \<longrightarrow> (\<forall>c \<in> set (theme_selects s). c = p)"
    by (simp_all add: represents_def theme_abs_def q)
  show ?thesis
    using r assms(2)
    by (cases e) (auto simp: q represents_defs theme_ops other_key resolved_theme_def)
qed

subsection \<open>The configuration of the API reference\<close>

lemma obj_get_put: "obj_get k (obj_put l v kvs) = (if k = l then Some v else obj_get k kvs)"
  by (induction l v kvs rule: obj_put.induct) auto

lemma obj_get_delete: "obj_get k (obj_delete l kvs) = (if k = l then None else obj_get k kvs)"
  by (induction kvs) (auto simp: obj_delete_def)

lemma obj_get_map: "obj_get k (map (\<lambda>kv. (fst kv, h (snd kv))) kvs) = map_option h (obj_get k kvs)"
  by (induction k kvs rule: obj_get.induct) auto

lemma obj_delete_ok: "obj_ok kvs \<Longrightarrow> obj_ok (obj_delete k kvs)"
  by (induction kvs rule: obj_ok.induct) (auto simp: obj_delete_def)

lemmas obj_get_simps = obj_get_put obj_get_delete obj_get_map

lemma wf_put:
  "wf_json (JObj kvs) \<Longrightarrow> units k \<Longrightarrow> wf_json v \<Longrightarrow> wf_json (JObj (obj_put k v kvs))"
  by (auto simp: obj_put_ok dest!: obj_put_set)

lemma wf_delete: "wf_json (JObj kvs) \<Longrightarrow> wf_json (JObj (obj_delete k kvs))"
  by (auto simp: obj_delete_ok) (auto simp: obj_delete_def)

lemma wf_configured:
  assumes "wf_json c" and "configured v c = Some d"
  shows "wf_json d"
proof -
  have u: "units hide_toggle" "units dark_mode"
    by (simp_all add: hide_toggle_def dark_mode_def lit_def)
  show ?thesis
    using assms u by (cases c) (auto simp: configured_def Let_def simp del: wf_json.simps(3)
      intro!: wf_put wf_delete split: if_splits)
qed

text \<open>What the API reference finds in its configuration: the values of the members.\<close>

definition member :: "ustr \<Rightarrow> 'n json \<Rightarrow> 'n json option" where
  "member k c = (case c of JObj kvs \<Rightarrow> obj_get k kvs | _ \<Rightarrow> None)"

lemma member_norm: "member k (norm f g c) = map_option (norm f g) (member k c)"
  by (cases c) (auto simp: member_def obj_get_map)

lemma toggle_not_dark: "hide_toggle \<noteq> dark_mode"
  by (simp add: hide_toggle_def dark_mode_def lit_def)

lemma member_configured:
  assumes "configured v (JObj kvs) = Some c"
  shows "member k c =
    (if k = dark_mode then (if v = lit ''system'' then None else Some (JBool (v = lit ''dark'')))
     else if k = hide_toggle then Some (JBool True)
     else obj_get k kvs)"
  using assms toggle_not_dark
  by (auto simp: configured_def member_def obj_get_simps Let_def split: if_splits)

subsection \<open>Properties\<close>

text \<open>On every page, whatever the events and whatever storage does, the shown theme is light
  or dark, \<open>color-scheme\<close> agrees with it, the recorded preference is one of the three, and an
  explicit preference is the theme shown.\<close>
lemma theme_page_invariant:
  assumes "theme_reach f g s\<^sub>0 s"
  shows "page_ok s"
  using assms by (induction rule: theme_reach.induct) (auto intro: page_ok_init page_ok_step)

definition sample_page :: theme_state where
  "sample_page = \<lparr>stored = Some (lit ''neon''), can_read = True, can_write = True,
     memory_preference = [], sys_dark = True, bs_theme = [], theme_preference = [],
     color_scheme = [], api_reference = None, app_loaded = False,
     theme_selects = [lit ''system''], theme_changes = []\<rparr>"

lemma theme_page_invariant_witness:
  "page_ok (theme_step int_of show_int (theme_step int_of show_int
     (theme_init int_of show_int sample_page) AppStarts) (UserPicks 0 (lit ''light'')))"
  by (rule theme_page_invariant [OF reach_step [OF reach_step [OF reach_init]]])

text \<open>C8: while storage works, the page refines a single preference: after every sequence of
  events the attributes of the root element, the stored preference and, once \<open>app.js\<close> runs,
  every theme control are what that preference and the system's scheme determine.\<close>
lemma theme_run_refines:
  assumes "can_read s" and "can_write s" and "\<forall>e \<in> set es. storage_works e"
  shows "represents (theme_run f g s es)
    (foldl spec_theme (stored_preference (stored s), sys_dark s, False) es)"
  using assms(3)
proof (induction es rule: rev_induct)
  case Nil
  then show ?case using represents_init [OF assms(1,2)] by (simp add: theme_run_def)
next
  case (snoc e es)
  then show ?case by (simp add: theme_run_def represents_step)
qed

lemma theme_run_refines_witness:
  "represents (theme_run int_of show_int sample_page
     [AppStarts, UserPicks 0 (lit ''dark''), SystemChange False, OtherTabRemoves])
     (lit ''system'', False, True)"
  using theme_run_refines [of sample_page
      "[AppStarts, UserPicks 0 (lit ''dark''), SystemChange False, OtherTabRemoves]" int_of show_int]
  by (simp add: sample_page_def)

text \<open>Reading the preference back after it was set gives the value that was set, whether
  storage works or throws on every access; only when entries can be read and not written does
  the old entry come back, on a page that nevertheless shows the theme that was set.\<close>
lemma theme_get_after_set:
  "fst (preference (set_preference f g v s)) =
     (if can_read s \<and> \<not> can_write s then stored_preference (stored s) else selected v) \<and>
   shown (set_preference f g v s) = shows_theme (sys_dark s) (selected v)"
  by (simp add: theme_ops shown_def shows_theme_def)

lemma map_const_update: "map (\<lambda>_. c) (xs[i := v]) = map (\<lambda>_. c) xs"
  by (rule nth_equalityI) simp_all

text \<open>When storage can be read but not written (a full quota), the choice of the user does
  not last for the page: the controls are set back at once, and the next change of the
  system's scheme replaces the theme the user chose.\<close>
lemma unwritable_choice_lost:
  assumes "can_read s" and "\<not> can_write s" and "stored s = None" and "app_loaded s"
  shows "(let t = theme_step f g s (UserPicks i v);
              u = theme_step f g t (SystemChange d) in
     shown t = shows_theme (sys_dark s) (selected v) \<and>
     theme_selects t = map (\<lambda>_. lit ''system'') (theme_selects s) \<and>
     shown u = shows_theme d (lit ''system''))"
  using assms by (simp add: theme_ops shown_def shows_theme_def map_const_update)

lemma unwritable_choice_lost_witness:
  "(let s = sample_page\<lparr>stored := None, can_write := False, app_loaded := True\<rparr>;
        t = theme_step int_of show_int s (UserPicks 0 (lit ''light''));
        u = theme_step int_of show_int t (SystemChange True) in
     shown u = shows_theme True (lit ''system''))"
  using unwritable_choice_lost [of "sample_page\<lparr>stored := None, can_write := False, app_loaded := True\<rparr>"
      int_of show_int 0 "lit ''light''" True]
  by (simp add: sample_page_def Let_def)

text \<open>Applying a theme rewrites the configuration of the API reference so that it parses to
  an object whose toggle is hidden, whose \<open>darkMode\<close> is the explicit preference (absent for the
  system preference) and whose other members are unchanged.\<close>
lemma configure_text_members:
  assumes "num_codec f g" and "units t" and "json_parse f t = Some (JObj kvs)"
  shows "\<exists>t' c. configure_text f g v (Some t) = Some t' \<and> json_parse f t' = Some c \<and>
    (\<forall>k. member k c =
      (if k = dark_mode then (if v = lit ''system'' then None else Some (JBool (v = lit ''dark'')))
       else if k = hide_toggle then Some (JBool True)
       else map_option (norm f g) (obj_get k kvs)))"
proof -
  have "t \<noteq> []"
    using assms(3) by (auto simp: json_parse_def)
  obtain c where c: "configured v (JObj kvs) = Some c" by (simp add: configured_def Let_def)
  have "wf_json c" using wf_configured [OF json_parse_wf [OF assms(3,2)] c] .
  then have "json_parse f (stringify g [] c) = Some (norm f g c)"
    by (intro parse_stringify assms) simp_all
  moreover have "configure_text f g v (Some t) = Some (stringify g [] c)"
    using c \<open>t \<noteq> []\<close> assms(3) by (simp add: configure_text_def)
  moreover have "member k (norm f g c) =
      (if k = dark_mode then (if v = lit ''system'' then None else Some (JBool (v = lit ''dark'')))
       else if k = hide_toggle then Some (JBool True)
       else map_option (norm f g) (obj_get k kvs))" for k
    by (simp add: member_norm member_configured [OF c])
  ultimately show ?thesis by blast
qed

lemma configure_text_members_witness:
  "\<exists>t' c. configure_text int_of show_int (lit ''dark'') (Some (lit ''{}'')) = Some t' \<and>
     json_parse int_of t' = Some c \<and> member dark_mode c = Some (JBool True)"
proof -
  have t: "tokenise (lit ''{}'') = Some [TLBrace, TRBrace]" by code_simp
  have p: "json_parse int_of (lit ''{}'') = Some (JObj [])"
    unfolding json_parse_def t by (simp add: parse_numeral next_is_def)
  have u: "units (lit ''{}'')" by (simp add: lit_def)
  have d: "(lit ''dark'' = lit ''system'') = False" by (simp add: lit_def)
  from configure_text_members [OF int_codec u p, of "lit ''dark''"] show ?thesis
    unfolding d if_False by (metis (no_types, lifting))
qed

end
