(* ===== verification/StackLine.thy ===== *)
theory StackLine
  imports JsString
begin

text \<open>
  The classification of a line of a stack trace in \<open>prepareStackTraces\<close>
  (\<open>src/static/app.js\<close>): two regular expressions, each an alternation tried at every position
  where a word boundary is found.
\<close>

definition is_word :: "nat \<Rightarrow> bool" where
  "is_word c \<longleftrightarrow> is_digit c \<or> is_upper c \<or> is_lower c \<or> c = 95"

text \<open>The assertion \<open>\b\<close> at position \<open>i\<close>: exactly one of the two neighbours is a word character.\<close>

definition word_before :: "ustr \<Rightarrow> nat \<Rightarrow> bool" where
  "word_before s i \<longleftrightarrow> 0 < i \<and> i \<le> length s \<and> is_word (s ! (i - 1))"

definition word_after :: "ustr \<Rightarrow> nat \<Rightarrow> bool" where
  "word_after s i \<longleftrightarrow> i < length s \<and> is_word (s ! i)"

definition boundary :: "ustr \<Rightarrow> nat \<Rightarrow> bool" where
  "boundary s i \<longleftrightarrow> word_before s i \<noteq> word_after s i"

text \<open>\<open>/\b(src\/|app\/|crates\/|\.rs:\d+|\.js:\d+|\.ts:\d+)/\<close>\<close>

definition dir_literals :: "ustr list" where
  "dir_literals = [lit ''src/'', lit ''app/'', lit ''crates/'']"

definition file_literals :: "ustr list" where
  "file_literals = [lit ''.rs:'', lit ''.js:'', lit ''.ts:'']"

definition source_at :: "ustr \<Rightarrow> bool" where
  "source_at r \<longleftrightarrow>
     list_ex (\<lambda>p. prefix p r) dir_literals \<or>
     list_ex (\<lambda>p. prefix p r \<and> length p < length r \<and> is_digit (r ! length p)) file_literals"

definition mentions_source :: "ustr \<Rightarrow> bool" where
  "mentions_source s \<longleftrightarrow> list_ex (\<lambda>i. boundary s i \<and> source_at (drop i s)) [0..<Suc (length s)]"

text \<open>\<open>/\b(node_modules|\/rustc\/|site-packages|vendor)\b/\<close>\<close>

definition library_literals :: "ustr list" where
  "library_literals = [lit ''node_modules'', lit ''/rustc/'', lit ''site-packages'', lit ''vendor'']"

definition literal_at :: "ustr \<Rightarrow> ustr \<Rightarrow> nat \<Rightarrow> bool" where
  "literal_at s p i \<longleftrightarrow> boundary s i \<and> prefix p (drop i s) \<and> boundary s (i + length p)"

definition mentions_library :: "ustr \<Rightarrow> bool" where
  "mentions_library s \<longleftrightarrow>
     list_ex (\<lambda>i. list_ex (\<lambda>p. literal_at s p i) library_literals) [0..<Suc (length s)]"

definition app_line :: "ustr \<Rightarrow> bool" where
  "app_line s \<longleftrightarrow> mentions_source s \<and> \<not> mentions_library s"

subsection \<open>Where a literal can match\<close>

lemma prefix_drop_nth:
  assumes "prefix p (drop i s)" and "k < length p"
  shows "i + k < length s \<and> s ! (i + k) = p ! k"
proof -
  obtain t where t: "drop i s = p @ t" using assms(1) by (auto simp: prefix_def)
  then have "length s - i = length p + length t" by (metis length_append length_drop)
  then have l: "i + k < length s" using assms(2) by linarith
  then have "s ! (i + k) = drop i s ! k" by simp
  then show ?thesis using l t assms(2) by (simp add: nth_append)
qed

lemma prefix_drop_set: "prefix p (drop i s) \<Longrightarrow> set p \<subseteq> set s"
  by (meson in_set_dropD set_mono_prefix subset_iff)

lemma literal_at_set: "literal_at s p i \<Longrightarrow> set p \<subseteq> set s"
  by (auto simp: literal_at_def dest: prefix_drop_set)

text \<open>A literal that starts outside a word needs a word character just before it.\<close>

lemma literal_at_nonword:
  assumes "literal_at s p i" and "p \<noteq> []" and "\<not> is_word (hd p)"
  shows "word_before s i"
proof -
  have "prefix p (drop i s)" using assms(1) by (simp add: literal_at_def)
  then have "\<not> word_after s i"
    using assms(2,3) prefix_drop_nth [of p i s 0] by (auto simp: word_after_def hd_conv_nth)
  with assms(1) show ?thesis by (auto simp: literal_at_def boundary_def)
qed

lemma mentions_libraryE:
  assumes "mentions_library s"
  obtains p i where "p \<in> set library_literals" "literal_at s p i"
  using assms by (auto simp: mentions_library_def list_ex_iff)

lemma mentions_libraryI: "literal_at s p i \<Longrightarrow> p \<in> set library_literals \<Longrightarrow> mentions_library s"
  by (auto simp: mentions_library_def list_ex_iff literal_at_def boundary_def word_before_def
      word_after_def intro!: bexI [of _ i])

lemma mentions_sourceI: "boundary s i \<Longrightarrow> source_at (drop i s) \<Longrightarrow> mentions_source s"
  by (auto simp: mentions_source_def list_ex_iff boundary_def word_before_def word_after_def
      intro!: bexI [of _ i])

subsection \<open>Properties\<close>

text \<open>The directory literals of the library expression hide a line exactly where they stand
  as whole words: \<open>vendor\<close>, \<open>node_modules\<close> and \<open>site-packages\<close> with no word character on either
  side, but \<open>/rustc/\<close> only between two word characters.\<close>
lemma mentions_library_iff:
  "mentions_library s \<longleftrightarrow>
     (\<exists>i. \<exists>p \<in> {lit ''node_modules'', lit ''site-packages'', lit ''vendor''}.
        prefix p (drop i s) \<and> \<not> word_before s i \<and> \<not> word_after s (i + length p)) \<or>
     (\<exists>i. prefix (lit ''/rustc/'') (drop i s) \<and> word_before s i \<and> word_after s (i + 7))"
proof -
  have w: "word_after s i = is_word (hd p) \<and> word_before s (i + length p) = is_word (last p)"
    if "prefix p (drop i s)" "p \<noteq> []" for p i
  proof -
    have e: "i + (length p - 1) = i + length p - 1" using that(2) by (cases p) auto
    show ?thesis
      using prefix_drop_nth [OF that(1), of 0] prefix_drop_nth [OF that(1), of "length p - 1"] that(2)
      unfolding e by (auto simp: word_after_def word_before_def hd_conv_nth last_conv_nth)
  qed
  have lits: "\<forall>p \<in> {lit ''node_modules'', lit ''site-packages'', lit ''vendor''}.
      p \<noteq> [] \<and> is_word (hd p) \<and> is_word (last p)"
    by (simp add: lit_def is_word_def char_class_defs)
  let ?W = "{lit ''node_modules'', lit ''site-packages'', lit ''vendor''}"
  have words: "literal_at s p i \<longleftrightarrow> prefix p (drop i s) \<and> \<not> word_before s i \<and> \<not> word_after s (i + length p)"
    if "p \<in> {lit ''node_modules'', lit ''site-packages'', lit ''vendor''}" for p i
    using lits that w [of p i] by (auto simp: literal_at_def boundary_def)
  have rustc: "literal_at s (lit ''/rustc/'') i \<longleftrightarrow>
      prefix (lit ''/rustc/'') (drop i s) \<and> word_before s i \<and> word_after s (i + 7)" for i
  proof -
    have l: "length (lit ''/rustc/'') = 7" "lit ''/rustc/'' \<noteq> []"
      "\<not> is_word (hd (lit ''/rustc/''))" "\<not> is_word (last (lit ''/rustc/''))"
      by (simp_all add: lit_def is_word_def char_class_defs)
    show ?thesis
    proof (cases "prefix (lit ''/rustc/'') (drop i s)")
      case True
      from w [OF True l(2)] have "\<not> word_after s i" "\<not> word_before s (i + 7)"
        by (simp_all add: l)
      then show ?thesis by (simp add: literal_at_def boundary_def l True)
    qed (simp add: literal_at_def)
  qed
  have "mentions_library s \<longleftrightarrow> (\<exists>p \<in> set library_literals. \<exists>i. literal_at s p i)"
    using mentions_libraryE mentions_libraryI by metis
  also have "set library_literals = insert (lit ''/rustc/'') ?W"
    by (auto simp: library_literals_def)
  also have "(\<exists>p \<in> insert (lit ''/rustc/'') ?W. \<exists>i. literal_at s p i) \<longleftrightarrow>
      (\<exists>i. \<exists>p \<in> ?W. literal_at s p i) \<or> (\<exists>i. literal_at s (lit ''/rustc/'') i)"
    by blast
  also have "(\<exists>i. \<exists>p \<in> ?W. literal_at s p i) \<longleftrightarrow>
      (\<exists>i. \<exists>p \<in> ?W. prefix p (drop i s) \<and> \<not> word_before s i \<and> \<not> word_after s (i + length p))"
    by (intro ex_cong1 bex_cong refl words)
  finally show ?thesis by (simp only: rustc)
qed

definition hex_lower :: "nat \<Rightarrow> bool" where
  "hex_lower c \<longleftrightarrow> is_digit c \<or> (97 \<le> c \<and> c \<le> 102)"

text \<open>The line of a standard library frame, with the commit hash of its toolchain.\<close>

definition std_frame :: "ustr \<Rightarrow> ustr" where
  "std_frame h = lit ''at /rustc/'' @ h @ lit ''/library/core/src/panicking.rs:72:14''"

lemma std_frame_u:
  assumes "list_all hex_lower h" and "std_frame h ! j = 117" and "j < length (std_frame h)"
  shows "j = 5"
proof -
  let ?a = "lit ''at /rustc/''" and ?b = "lit ''/library/core/src/panicking.rs:72:14''"
  have h: "117 \<notin> set h" using assms(1) by (auto simp: list_all_iff hex_lower_def is_digit_def)
  have b: "117 \<notin> set ?b" by (simp add: lit_def)
  have "117 \<notin> set (drop 10 (std_frame h))" using h b by (simp add: std_frame_def lit_def)
  moreover have "std_frame h ! j \<in> set (drop 10 (std_frame h))" if "\<not> j < 10"
  proof -
    have "drop 10 (std_frame h) ! (j - 10) \<in> set (drop 10 (std_frame h))"
      using that assms(3) by (intro nth_mem) simp
    then show ?thesis using that assms(3) by simp
  qed
  ultimately have "j < 10" using assms(2) by auto
  moreover have "length ?a = 10" by (simp add: lit_def)
  ultimately have "std_frame h ! j = ?a ! j" by (simp only: std_frame_def nth_append if_True)
  with assms(2) \<open>j < 10\<close> show ?thesis
    by (auto simp: lit_def nth_Cons' split: if_splits)
qed

text \<open>Every frame of the Rust standard library, printed with its absolute \<open>/rustc/<hash>/\<close>
  path, counts as a line of the application: the expression that is meant to leave such
  lines out does not match it.\<close>
lemma std_frame_is_app:
  assumes "list_all hex_lower h"
  shows "app_line (std_frame h)"
proof -
  have chars: "set (std_frame h) \<subseteq> set (lit ''at /rustc/'') \<union> {c. hex_lower c} \<union>
      set (lit ''/library/core/src/panicking.rs:72:14'')"
    using assms by (auto simp: std_frame_def list_all_iff)
  have "\<not> mentions_library (std_frame h)"
  proof
    assume "mentions_library (std_frame h)"
    then obtain p i where p: "p \<in> set library_literals" "literal_at (std_frame h) p i"
      by (rule mentions_libraryE)
    from literal_at_set [OF p(2)] chars
    have s: "set p \<subseteq> set (lit ''at /rustc/'') \<union> {c. hex_lower c} \<union>
      set (lit ''/library/core/src/panicking.rs:72:14'')" by blast
    have "p = lit ''/rustc/''"
      using p(1) s by (auto simp: library_literals_def lit_def hex_lower_def is_digit_def)
    with p(2) have pre: "prefix (lit ''/rustc/'') (drop i (std_frame h))" and
      wb: "word_before (std_frame h) i"
      using literal_at_nonword [of "std_frame h" "lit ''/rustc/''" i]
      by (auto simp: literal_at_def lit_def is_word_def char_class_defs)
    from prefix_drop_nth [OF pre, of 2] std_frame_u [OF assms, of "i + 2"] have "i = 3"
      by (simp add: lit_def)
    with wb show False
      by (simp add: word_before_def std_frame_def lit_def is_word_def char_class_defs)
  qed
  moreover have "mentions_source (std_frame h)"
  proof (rule mentions_sourceI [of _ "length (lit ''at /rustc/'' @ h @ lit ''/library/core/'')"])
    let ?p = "lit ''at /rustc/'' @ h @ lit ''/library/core/''"
    have f: "std_frame h = ?p @ lit ''src/panicking.rs:72:14''"
      by (simp add: std_frame_def lit_def)
    show "boundary (std_frame h) (length ?p)" unfolding f
      by (simp add: boundary_def word_before_def word_after_def nth_append lit_def is_word_def
          char_class_defs)
    show "source_at (drop (length ?p) (std_frame h))" unfolding f
      by (simp add: source_at_def dir_literals_def lit_def)
  qed
  ultimately show ?thesis by (simp add: app_line_def)
qed

lemma std_frame_is_app_witness: "app_line (std_frame (lit ''90b35a62''))"
  by (rule std_frame_is_app) code_simp

end
