(* ===== verification/Dom.thy ===== *)
theory Dom
  imports JsString
begin

text \<open>
  The document as the page script sees it: elements with a tag, a class list, attributes, a
  flat content of text and rows, and the value of a form control; the document order and each
  element's chain of ancestors. Selectors are predicates on an element of a document, and
  \<open>querySelectorAll\<close> and \<open>closest\<close> are the list operations they are. The locale
  \<open>once_tasks\<close> is the contract of an enhancement pass: an element is marked when it was worked
  on, and what cannot be worked on stays as it is.
\<close>

subsection \<open>Elements and documents\<close>

datatype inline = Plain ustr | Row "ustr list" ustr

record elem =
  etag :: ustr
  eclasses :: "ustr list"
  eattrs :: "ustr \<rightharpoonup> ustr"
  econtent :: "inline list"
  evalue :: ustr

record dom =
  order :: "nat list"
  ancestors :: "nat \<Rightarrow> nat list"
  node :: "nat \<Rightarrow> elem"
  editors :: "(nat \<times> ustr) list"

fun inline_text :: "inline \<Rightarrow> ustr" where
  "inline_text (Plain t) = t"
| "inline_text (Row cs t) = t"

definition text_content :: "elem \<Rightarrow> ustr" where
  "text_content e = concat (map inline_text (econtent e))"

definition set_text :: "ustr \<Rightarrow> elem \<Rightarrow> elem" where
  "set_text t e = e\<lparr>econtent := (if t = [] then [] else [Plain t])\<rparr>"

definition set_attr :: "ustr \<Rightarrow> ustr \<Rightarrow> elem \<Rightarrow> elem" where
  "set_attr a v e = e\<lparr>eattrs := (eattrs e)(a \<mapsto> v)\<rparr>"

definition has_attr :: "ustr \<Rightarrow> elem \<Rightarrow> bool" where
  "has_attr a e \<longleftrightarrow> eattrs e a \<noteq> None"

definition has_class :: "ustr \<Rightarrow> elem \<Rightarrow> bool" where
  "has_class c e \<longleftrightarrow> c \<in> set (eclasses e)"

definition update :: "nat \<Rightarrow> (elem \<Rightarrow> elem) \<Rightarrow> dom \<Rightarrow> dom" where
  "update i h d = d\<lparr>node := (node d)(i := h (node d i))\<rparr>"

subsection \<open>Queries\<close>

text \<open>\<open>None\<close> is the document itself; a query from an element finds its descendants.\<close>

definition within :: "dom \<Rightarrow> nat option \<Rightarrow> nat \<Rightarrow> bool" where
  "within d root i = (case root of None \<Rightarrow> True | Some r \<Rightarrow> r \<in> set (ancestors d i))"

definition scope :: "nat option \<Rightarrow> dom \<Rightarrow> nat list" where
  "scope root d = filter (within d root) (order d)"

definition closest :: "dom \<Rightarrow> nat \<Rightarrow> (elem \<Rightarrow> bool) \<Rightarrow> nat option" where
  "closest d i P = find (\<lambda>j. P (node d j)) (i # ancestors d i)"

definition inside :: "dom \<Rightarrow> nat \<Rightarrow> (elem \<Rightarrow> bool) \<Rightarrow> bool" where
  "inside d i P \<longleftrightarrow> list_ex (\<lambda>j. P (node d j)) (ancestors d i)"

lemma text_content_set_text [simp]: "text_content (set_text t e) = t"
  by (simp add: text_content_def set_text_def)

lemma elem_simps [simp]:
  "etag (set_text t e) = etag e" "eclasses (set_text t e) = eclasses e"
  "eattrs (set_text t e) = eattrs e" "evalue (set_text t e) = evalue e"
  "etag (set_attr a v e) = etag e" "eclasses (set_attr a v e) = eclasses e"
  "econtent (set_attr a v e) = econtent e" "evalue (set_attr a v e) = evalue e"
  "eattrs (set_attr a v e) = (eattrs e)(a \<mapsto> v)"
  "text_content (set_attr a v e) = text_content e"
  by (simp_all add: set_text_def set_attr_def text_content_def)

lemma update_simps [simp]:
  "order (update i h d) = order d" "ancestors (update i h d) = ancestors d"
  "editors (update i h d) = editors d"
  "node (update i h d) j = (if j = i then h (node d i) else node d j)"
  by (simp_all add: update_def)

subsection \<open>Passes that work on each element once\<close>

definition run_pass :: "('d \<Rightarrow> 'i \<Rightarrow> bool) \<Rightarrow> ('i \<Rightarrow> 'd \<Rightarrow> 'd) \<Rightarrow> ('d \<Rightarrow> 'i list) \<Rightarrow> 'd \<Rightarrow> 'd" where
  "run_pass sel step items d = fold step (filter (sel d) (items d)) d"

locale once_tasks =
  fixes items :: "'k \<Rightarrow> 'd \<Rightarrow> 'i list"
    and fits :: "'d \<Rightarrow> 'i \<Rightarrow> bool"
    and sel :: "'d \<Rightarrow> 'i \<Rightarrow> bool"
    and step :: "'i \<Rightarrow> 'd \<Rightarrow> 'd"
  assumes items_step: "fits d i \<Longrightarrow> items k (step i d) = items k d"
    and sel_fits: "sel d i \<Longrightarrow> fits d i"
    and fits_step: "fits d i \<Longrightarrow> fits d j \<Longrightarrow> fits (step i d) j"
    and closed: "fits d i \<Longrightarrow> \<not> sel d j \<Longrightarrow> \<not> sel (step i d) j"
    and settled: "fits d i \<Longrightarrow> sel (step i d) i \<Longrightarrow> step i (step i d) = step i d"
    and stuck: "fits d j \<Longrightarrow> sel d i \<Longrightarrow> step i d = d \<Longrightarrow> step i (step j d) = step j d"
begin

definition quiet :: "'d \<Rightarrow> 'i \<Rightarrow> bool" where
  "quiet d i \<longleftrightarrow> (sel d i \<longrightarrow> step i d = d)"

lemma quiet_step: "fits d j \<Longrightarrow> quiet d i \<Longrightarrow> quiet (step j d) i"
  using closed stuck by (metis quiet_def)

lemma quiet_self: "fits d i \<Longrightarrow> quiet (step i d) i"
  by (simp add: quiet_def settled)

lemma fold_facts:
  "\<forall>x \<in> set xs. fits d x \<Longrightarrow>
   items k (fold step xs d) = items k d \<and> (\<forall>j. fits d j \<longrightarrow> fits (fold step xs d) j) \<and>
   (\<forall>i. quiet d i \<or> i \<in> set xs \<longrightarrow> quiet (fold step xs d) i)"
proof (induction xs arbitrary: d)
  case (Cons x xs)
  have "\<forall>y \<in> set xs. fits (step x d) y" using Cons.prems fits_step by auto
  from Cons.IH [OF this] show ?case
    using Cons.prems items_step fits_step quiet_step quiet_self by (auto; metis)
qed simp

lemma fold_quiet: "\<forall>x \<in> set xs. step x d = d \<Longrightarrow> fold step xs d = d"
  by (induction xs) auto

abbreviation pass :: "'k \<Rightarrow> 'd \<Rightarrow> 'd" where
  "pass k \<equiv> run_pass sel step (items k)"

lemma pass_facts:
  "items l (pass k d) = items l d \<and> (\<forall>i. quiet d i \<longrightarrow> quiet (pass k d) i) \<and>
   (\<forall>i \<in> set (items k d). quiet (pass k d) i)"
proof -
  let ?xs = "filter (sel d) (items k d)"
  have f: "\<forall>x \<in> set ?xs. fits d x" using sel_fits by auto
  have "quiet d i" if "i \<in> set (items k d)" "i \<notin> set ?xs" for i
    using that by (auto simp: quiet_def)
  with fold_facts [OF f] show ?thesis unfolding run_pass_def by blast
qed

lemma pass_quiet: "\<forall>i \<in> set (items k d). quiet d i \<Longrightarrow> pass k d = d"
  unfolding run_pass_def by (rule fold_quiet) (auto simp: quiet_def)

lemma passes_facts:
  "items l (fold pass ks d) = items l d \<and> (\<forall>i. quiet d i \<longrightarrow> quiet (fold pass ks d) i) \<and>
   (\<forall>k \<in> set ks. \<forall>i \<in> set (items k d). quiet (fold pass ks d) i)"
proof (induction ks arbitrary: d l)
  case (Cons k ks)
  have i: "items l (pass k d) = items l d" for l using pass_facts by blast
  from Cons.IH [of l "pass k d"] pass_facts [of l k d] show ?case
    by (auto simp: i)
qed simp

text \<open>Running the passes again changes nothing.\<close>

lemma passes_idem: "fold pass ks (fold pass ks d) = fold pass ks d"
proof -
  have q: "\<forall>k \<in> set ks. \<forall>i \<in> set (items k (fold pass ks d)). quiet (fold pass ks d) i"
    using passes_facts by metis
  have "fold pass ls e = e" if "\<forall>k \<in> set ls. \<forall>i \<in> set (items k e). quiet e i" for ls e
    using that by (induction ls) (auto simp: pass_quiet)
  from this [OF q] show ?thesis .
qed

end

end
