(* ===== verification/Enhance.thy ===== *)
theory Enhance
  imports Dom StackLine JsonText
begin

text \<open>
  \<open>enhance(root)\<close> of \<open>src/static/app.js\<close>: the stack traces, the local times, the JSON payloads,
  the theme controls and the Markdown editors below \<open>root\<close>. What the browser supplies is a
  record of parameters: number and date conversion, the localised date text, the preference
  of the theme script and the EasyMDE constructor, of which only success or failure is kept
  (the plain textarea is the model of both).
\<close>

record ('n, 'd) host =
  num_of :: "ustr \<Rightarrow> 'n"
  show_num :: "'n \<Rightarrow> ustr"
  date_of_unix :: "ustr \<Rightarrow> 'd option"
  date_of_text :: "ustr \<Rightarrow> 'd option"
  date_format :: "'d \<Rightarrow> ustr"
  date_iso :: "'d \<Rightarrow> ustr"
  theme_get :: "ustr option"
  easymde :: bool
  editor_starts :: "nat \<Rightarrow> bool"

subsection \<open>Names in the markup\<close>

abbreviation a_prepared :: ustr where "a_prepared \<equiv> lit ''data-prepared''"
abbreviation a_mode :: ustr where "a_mode \<equiv> lit ''data-mode''"
abbreviation a_localized :: ustr where "a_localized \<equiv> lit ''data-localized''"
abbreviation a_unix :: ustr where "a_unix \<equiv> lit ''data-unix''"
abbreviation a_datetime :: ustr where "a_datetime \<equiv> lit ''datetime''"
abbreviation a_title :: ustr where "a_title \<equiv> lit ''title''"
abbreviation a_formatted :: ustr where "a_formatted \<equiv> lit ''data-formatted''"
abbreviation a_theme_select :: ustr where "a_theme_select \<equiv> lit ''data-theme-select''"
abbreviation a_editor :: ustr where "a_editor \<equiv> lit ''data-markdown-editor''"
abbreviation a_placeholder :: ustr where "a_placeholder \<equiv> lit ''placeholder''"
abbreviation js_true :: ustr where "js_true \<equiv> lit ''true''"

definition query_all :: "dom \<Rightarrow> nat option \<Rightarrow> (dom \<Rightarrow> nat \<Rightarrow> bool) \<Rightarrow> nat list" where
  "query_all d root sel = filter (sel d) (scope root d)"

subsection \<open>Stack traces\<close>

definition is_trace_code :: "dom \<Rightarrow> nat \<Rightarrow> bool" where
  "is_trace_code d i \<longleftrightarrow>
     etag (node d i) = lit ''code'' \<and> inside d i (has_class (lit ''stack-trace''))"

definition sel_code :: "dom \<Rightarrow> nat \<Rightarrow> bool" where
  "sel_code d i \<longleftrightarrow> is_trace_code d i \<and> \<not> has_attr a_prepared (node d i)"

definition stack_row :: "ustr \<Rightarrow> ustr \<Rightarrow> inline" where
  "stack_row line t = Row (lit ''stack-line'' # (if app_line line then [lit ''is-app''] else [])) t"

fun stack_rows :: "ustr list \<Rightarrow> inline list" where
  "stack_rows [] = []"
| "stack_rows [line] = [stack_row line line]"
| "stack_rows (line # lines) = stack_row line (line @ [10]) # stack_rows lines"

definition mark_app_card :: "nat \<Rightarrow> dom \<Rightarrow> dom" where
  "mark_app_card i d =
     (case closest d i (has_class (lit ''stack-card'')) of
        None \<Rightarrow> d
      | Some c \<Rightarrow> update c (set_attr a_mode (lit ''app'')) d)"

definition prepare_code :: "nat \<Rightarrow> dom \<Rightarrow> dom" where
  "prepare_code i d =
     (let lines = split_on 10 (text_content (node d i));
          d = update i (\<lambda>e. set_attr a_prepared js_true (e\<lparr>econtent := stack_rows lines\<rparr>)) d
      in if list_ex app_line lines then mark_app_card i d else d)"

definition is_frame_list :: "dom \<Rightarrow> nat \<Rightarrow> bool" where
  "is_frame_list d i \<longleftrightarrow> has_class (lit ''stack-frames'') (node d i)"

definition sel_frames :: "dom \<Rightarrow> nat \<Rightarrow> bool" where
  "sel_frames d i \<longleftrightarrow> is_frame_list d i \<and> \<not> has_attr a_prepared (node d i)"

definition has_app_frame :: "dom \<Rightarrow> nat \<Rightarrow> bool" where
  "has_app_frame d i \<longleftrightarrow>
     list_ex (\<lambda>j. has_class (lit ''stack-frame'') (node d j) \<and> has_class (lit ''is-app'') (node d j))
       (scope (Some i) d)"

definition prepare_frames :: "nat \<Rightarrow> dom \<Rightarrow> dom" where
  "prepare_frames i d =
     (let d = update i (set_attr a_prepared js_true) d
      in if has_app_frame d i then mark_app_card i d else d)"

definition prepare_stack_traces :: "nat option \<Rightarrow> dom \<Rightarrow> dom" where
  "prepare_stack_traces root d =
     (let d = fold prepare_code (query_all d root sel_code) d
      in fold prepare_frames (query_all d root sel_frames) d)"

subsection \<open>Times\<close>

definition is_local_time :: "dom \<Rightarrow> nat \<Rightarrow> bool" where
  "is_local_time d i \<longleftrightarrow>
     etag (node d i) = lit ''time'' \<and> has_class (lit ''js-local-time'') (node d i)"

definition sel_time :: "dom \<Rightarrow> nat \<Rightarrow> bool" where
  "sel_time d i \<longleftrightarrow> is_local_time d i \<and> \<not> has_attr a_localized (node d i)"

text \<open>An absent or empty \<open>data-unix\<close> is falsy; \<open>dateTime\<close> reflects an attribute, or is empty.\<close>

definition element_date :: "('n, 'd) host \<Rightarrow> elem \<Rightarrow> 'd option" where
  "element_date h e =
     (case eattrs e a_unix of
        Some u \<Rightarrow> if u \<noteq> [] then date_of_unix h u
                  else date_of_text h (case eattrs e a_datetime of None \<Rightarrow> [] | Some t \<Rightarrow> t)
      | None \<Rightarrow> date_of_text h (case eattrs e a_datetime of None \<Rightarrow> [] | Some t \<Rightarrow> t))"

definition localize_time :: "('n, 'd) host \<Rightarrow> nat \<Rightarrow> dom \<Rightarrow> dom" where
  "localize_time h i d =
     (case element_date h (node d i) of
        None \<Rightarrow> d
      | Some t \<Rightarrow> update i (\<lambda>e. set_attr a_localized js_true (set_attr a_title (date_iso h t)
          (set_attr a_datetime (date_iso h t) (set_text (date_format h t) e)))) d)"

definition localize_times :: "('n, 'd) host \<Rightarrow> nat option \<Rightarrow> dom \<Rightarrow> dom" where
  "localize_times h root d = fold (localize_time h) (query_all d root sel_time) d"

subsection \<open>JSON payloads\<close>

definition is_json_code :: "dom \<Rightarrow> nat \<Rightarrow> bool" where
  "is_json_code d i \<longleftrightarrow> etag (node d i) = lit ''code'' \<and> has_class (lit ''js-json'') (node d i)"

definition sel_json :: "dom \<Rightarrow> nat \<Rightarrow> bool" where
  "sel_json d i \<longleftrightarrow> is_json_code d i \<and> \<not> has_attr a_formatted (node d i)"

definition format_element :: "('n, 'd) host \<Rightarrow> nat \<Rightarrow> dom \<Rightarrow> dom" where
  "format_element h i d =
     (case json_parse (num_of h) (text_content (node d i)) of
        None \<Rightarrow> d
      | Some v \<Rightarrow> update i (\<lambda>e. set_attr a_formatted js_true
          (set_text (stringify (show_num h) [32, 32] v) e)) d)"

definition format_json :: "('n, 'd) host \<Rightarrow> nat option \<Rightarrow> dom \<Rightarrow> dom" where
  "format_json h root d = fold (format_element h) (query_all d root sel_json) d"

subsection \<open>Theme controls and editors\<close>

definition sel_select :: "dom \<Rightarrow> nat \<Rightarrow> bool" where
  "sel_select d i \<longleftrightarrow> has_attr a_theme_select (node d i)"

definition set_select :: "('n, 'd) host \<Rightarrow> nat \<Rightarrow> dom \<Rightarrow> dom" where
  "set_select h i d =
     (case theme_get h of None \<Rightarrow> d | Some p \<Rightarrow> update i (\<lambda>e. e\<lparr>evalue := p\<rparr>) d)"

definition sync_theme_controls :: "('n, 'd) host \<Rightarrow> nat option \<Rightarrow> dom \<Rightarrow> dom" where
  "sync_theme_controls h root d =
     (if theme_get h = None then d else fold (set_select h) (query_all d root sel_select) d)"

definition is_editor_area :: "dom \<Rightarrow> nat \<Rightarrow> bool" where
  "is_editor_area d i \<longleftrightarrow> etag (node d i) = lit ''textarea'' \<and> has_attr a_editor (node d i)"

definition sel_editor :: "dom \<Rightarrow> nat \<Rightarrow> bool" where
  "sel_editor d i \<longleftrightarrow> is_editor_area d i \<and> \<not> has_attr a_prepared (node d i)"

text \<open>A started editor is recorded with its placeholder; one that throws leaves the textarea.\<close>

definition start_editor :: "('n, 'd) host \<Rightarrow> nat \<Rightarrow> dom \<Rightarrow> dom" where
  "start_editor h i d =
     (if easymde h then
        let d = update i (set_attr a_prepared js_true) d in
        if editor_starts h i
        then d\<lparr>editors := editors d @
          [(i, case eattrs (node d i) a_placeholder of None \<Rightarrow> [] | Some p \<Rightarrow> p)]\<rparr>
        else d
      else d)"

definition setup_markdown_editors :: "('n, 'd) host \<Rightarrow> nat option \<Rightarrow> dom \<Rightarrow> dom" where
  "setup_markdown_editors h root d =
     (if \<not> easymde h then d else fold (start_editor h) (query_all d root sel_editor) d)"

definition enhance :: "('n, 'd) host \<Rightarrow> nat option \<Rightarrow> dom \<Rightarrow> dom" where
  "enhance h root d =
     setup_markdown_editors h root (sync_theme_controls h root (format_json h root
       (localize_times h root (prepare_stack_traces root d))))"

subsection \<open>The passes as one family of tasks\<close>

datatype kind = KCode | KFrames | KTime | KJson | KSelect | KEditor

type_synonym task = "kind \<times> nat"

definition task_items :: "nat option \<Rightarrow> kind \<Rightarrow> dom \<Rightarrow> task list" where
  "task_items root k d = map (Pair k) (scope root d)"

fun task_fits :: "dom \<Rightarrow> task \<Rightarrow> bool" where
  "task_fits d (KCode, i) = is_trace_code d i"
| "task_fits d (KFrames, i) = is_frame_list d i"
| "task_fits d (KTime, i) = is_local_time d i"
| "task_fits d (KJson, i) = is_json_code d i"
| "task_fits d (KSelect, i) = sel_select d i"
| "task_fits d (KEditor, i) = is_editor_area d i"

fun task_sel :: "dom \<Rightarrow> task \<Rightarrow> bool" where
  "task_sel d (KCode, i) = sel_code d i"
| "task_sel d (KFrames, i) = sel_frames d i"
| "task_sel d (KTime, i) = sel_time d i"
| "task_sel d (KJson, i) = sel_json d i"
| "task_sel d (KSelect, i) = sel_select d i"
| "task_sel d (KEditor, i) = sel_editor d i"

fun task_step :: "('n, 'd) host \<Rightarrow> task \<Rightarrow> dom \<Rightarrow> dom" where
  "task_step h (KCode, i) = prepare_code i"
| "task_step h (KFrames, i) = prepare_frames i"
| "task_step h (KTime, i) = localize_time h i"
| "task_step h (KJson, i) = format_element h i"
| "task_step h (KSelect, i) = set_select h i"
| "task_step h (KEditor, i) = start_editor h i"

lemmas sel_defs = sel_code_def sel_frames_def sel_time_def sel_json_def sel_select_def sel_editor_def
lemmas shape_defs = is_trace_code_def is_frame_list_def is_local_time_def is_json_code_def
  is_editor_area_def

text \<open>
  The frame of every step: the tree, the tags, the classes and the attributes other than the
  marks stay, and no attribute goes away.
\<close>

definition marks :: "ustr set" where
  "marks = {a_prepared, a_mode, a_localized, a_datetime, a_title, a_formatted}"

definition grows :: "dom \<Rightarrow> dom \<Rightarrow> bool" where
  "grows d d' \<longleftrightarrow> order d' = order d \<and> ancestors d' = ancestors d \<and>
     (\<forall>i. etag (node d' i) = etag (node d i) \<and> eclasses (node d' i) = eclasses (node d i) \<and>
       (\<forall>a. (a \<notin> marks \<longrightarrow> eattrs (node d' i) a = eattrs (node d i) a) \<and>
            (eattrs (node d i) a \<noteq> None \<longrightarrow> eattrs (node d' i) a \<noteq> None)))"

lemma grows_refl [simp]: "grows d d"
  by (simp add: grows_def)

lemma grows_trans: "grows d e \<Longrightarrow> grows e g \<Longrightarrow> grows d g"
  by (simp add: grows_def)

lemma grows_editors [simp]: "grows d (e\<lparr>editors := x\<rparr>) = grows d e"
  by (simp add: grows_def)

lemma grows_update:
  assumes "etag (h (node d i)) = etag (node d i)" "eclasses (h (node d i)) = eclasses (node d i)"
    and "\<And>a. a \<notin> marks \<Longrightarrow> eattrs (h (node d i)) a = eattrs (node d i) a"
    and "\<And>a. eattrs (node d i) a \<noteq> None \<Longrightarrow> eattrs (h (node d i)) a \<noteq> None"
  shows "grows d (update i h d)"
  using assms by (simp add: grows_def)

lemma marks_mem [simp]: "a_prepared \<in> marks" "a_mode \<in> marks" "a_localized \<in> marks"
    "a_datetime \<in> marks" "a_title \<in> marks" "a_formatted \<in> marks" "a_unix \<notin> marks"
    "a_theme_select \<notin> marks" "a_editor \<notin> marks" "a_placeholder \<notin> marks"
  by (simp_all add: marks_def)

lemma grows_mark_app_card: "grows d (mark_app_card i d)"
  unfolding mark_app_card_def by (cases "closest d i (has_class (lit ''stack-card''))") (auto intro!: grows_update)

lemma grows_prepare_code: "grows d (prepare_code i d)"
proof -
  let ?d = "update i (\<lambda>e. set_attr a_prepared js_true
    (e\<lparr>econtent := stack_rows (split_on 10 (text_content (node d i)))\<rparr>)) d"
  have "grows d ?d" by (rule grows_update) auto
  then show ?thesis using grows_trans grows_mark_app_card
    by (auto simp: prepare_code_def Let_def)
qed

lemma grows_prepare_frames: "grows d (prepare_frames i d)"
proof -
  have "grows d (update i (set_attr a_prepared js_true) d)" by (rule grows_update) auto
  then show ?thesis using grows_trans grows_mark_app_card
    by (auto simp: prepare_frames_def Let_def)
qed

lemma grows_localize_time: "grows d (localize_time h i d)"
  unfolding localize_time_def by (cases "element_date h (node d i)") (auto intro!: grows_update)

lemma grows_format_element: "grows d (format_element h i d)"
  unfolding format_element_def
  by (cases "json_parse (num_of h) (text_content (node d i))") (auto intro!: grows_update)

lemma grows_set_select: "grows d (set_select h i d)"
  unfolding set_select_def by (cases "theme_get h") (auto intro!: grows_update)

lemma grows_start_editor: "grows d (start_editor h i d)"
  unfolding start_editor_def Let_def by (auto intro!: grows_update)

lemmas grows_ops = grows_prepare_code grows_prepare_frames grows_localize_time grows_format_element
  grows_set_select grows_start_editor

lemma grows_task: "grows d (task_step h t d)"
  by (cases t; cases "fst t") (auto simp: grows_ops)

lemma grows_fold: "(\<And>x d. grows d (step x d)) \<Longrightarrow> grows d (fold step xs d)"
  by (induction xs arbitrary: d) (auto intro: grows_trans)

subsection \<open>What growth keeps\<close>

lemma grows_inside: "grows d d' \<Longrightarrow> inside d' i (has_class c) = inside d i (has_class c)"
  by (simp add: grows_def inside_def has_class_def)

lemma grows_closest: "grows d d' \<Longrightarrow> closest d' i (has_class c) = closest d i (has_class c)"
  by (simp add: grows_def closest_def has_class_def)

lemma grows_scope: "grows d d' \<Longrightarrow> scope root d' = scope root d"
  unfolding grows_def scope_def by (auto simp: within_def intro!: filter_cong split: option.split)

lemma grows_class: "grows d d' \<Longrightarrow> has_class c (node d' i) = has_class c (node d i)"
  by (simp add: grows_def has_class_def)

lemma grows_tag: "grows d d' \<Longrightarrow> etag (node d' i) = etag (node d i)"
  by (simp add: grows_def)

lemma grows_attr: "grows d d' \<Longrightarrow> a \<notin> marks \<Longrightarrow> eattrs (node d' i) a = eattrs (node d i) a"
  by (simp add: grows_def)

lemma grows_has_attr: "grows d d' \<Longrightarrow> has_attr a (node d i) \<Longrightarrow> has_attr a (node d' i)"
  by (simp add: grows_def has_attr_def)

lemma grows_has_attr_eq: "grows d d' \<Longrightarrow> a \<notin> marks \<Longrightarrow> has_attr a (node d' i) = has_attr a (node d i)"
  by (simp add: grows_def has_attr_def)

lemmas grows_simps = grows_inside grows_closest grows_scope grows_class grows_tag grows_has_attr_eq

lemma grows_fits: "grows d d' \<Longrightarrow> task_fits d' t = task_fits d t"
  by (cases t; cases "fst t") (auto simp: shape_defs sel_select_def grows_simps)

lemma grows_sel: "grows d d' \<Longrightarrow> \<not> task_sel d t \<Longrightarrow> \<not> task_sel d' t"
  by (cases t; cases "fst t") (auto simp: shape_defs sel_defs grows_simps grows_has_attr)

subsection \<open>What each step leaves alone\<close>

lemma mark_app_card_node:
  "text_content (node (mark_app_card k d) i) = text_content (node d i)"
  "evalue (node (mark_app_card k d) i) = evalue (node d i)"
  "econtent (node (mark_app_card k d) i) = econtent (node d i)"
  "a \<noteq> a_mode \<Longrightarrow> eattrs (node (mark_app_card k d) i) a = eattrs (node d i) a"
  "editors (mark_app_card k d) = editors d"
  by (auto simp: mark_app_card_def split: option.split)

lemma stack_rows_text: "ls \<noteq> [] \<Longrightarrow> concat (map inline_text (stack_rows ls)) = join [10] ls"
  by (induction ls rule: stack_rows.induct) (auto simp: stack_row_def)

lemma prepare_code_node:
  "text_content (node (prepare_code k d) i) = text_content (node d i)"
  "evalue (node (prepare_code k d) i) = evalue (node d i)"
  "a \<noteq> a_mode \<Longrightarrow> a \<noteq> a_prepared \<Longrightarrow> eattrs (node (prepare_code k d) i) a = eattrs (node d i) a"
  "has_attr a_prepared (node (prepare_code k d) k)"
proof -
  show "text_content (node (prepare_code k d) i) = text_content (node d i)"
    by (simp add: prepare_code_def Let_def mark_app_card_node)
       (simp add: text_content_def stack_rows_text)
  show "evalue (node (prepare_code k d) i) = evalue (node d i)"
    by (simp add: prepare_code_def Let_def mark_app_card_node)
  show "a \<noteq> a_mode \<Longrightarrow> a \<noteq> a_prepared \<Longrightarrow> eattrs (node (prepare_code k d) i) a = eattrs (node d i) a"
    by (simp add: prepare_code_def Let_def mark_app_card_node)
  show "has_attr a_prepared (node (prepare_code k d) k)"
    by (simp add: prepare_code_def Let_def mark_app_card_node has_attr_def)
qed

lemma prepare_frames_node:
  "text_content (node (prepare_frames k d) i) = text_content (node d i)"
  "evalue (node (prepare_frames k d) i) = evalue (node d i)"
  "a \<noteq> a_mode \<Longrightarrow> a \<noteq> a_prepared \<Longrightarrow> eattrs (node (prepare_frames k d) i) a = eattrs (node d i) a"
  "has_attr a_prepared (node (prepare_frames k d) k)"
  by (simp_all add: prepare_frames_def Let_def mark_app_card_node has_attr_def)

lemma localize_time_node:
  "i \<noteq> k \<Longrightarrow> node (localize_time h k d) i = node d i"
  "evalue (node (localize_time h k d) i) = evalue (node d i)"
  "element_date h (node d k) \<noteq> None \<Longrightarrow> has_attr a_localized (node (localize_time h k d) k)"
  "element_date h (node d k) = None \<Longrightarrow> localize_time h k d = d"
  by (auto simp: localize_time_def has_attr_def split: option.splits)

lemma format_element_node:
  "i \<noteq> k \<Longrightarrow> node (format_element h k d) i = node d i"
  "evalue (node (format_element h k d) i) = evalue (node d i)"
  "a \<noteq> a_formatted \<Longrightarrow> eattrs (node (format_element h k d) i) a = eattrs (node d i) a"
  "json_parse (num_of h) (text_content (node d k)) \<noteq> None \<Longrightarrow> has_attr a_formatted (node (format_element h k d) k)"
  "json_parse (num_of h) (text_content (node d k)) = None \<Longrightarrow> format_element h k d = d"
  by (auto simp: format_element_def has_attr_def split: option.splits)

lemma set_select_node:
  "text_content (node (set_select h k d) i) = text_content (node d i)"
  "eattrs (node (set_select h k d) i) = eattrs (node d i)"
  by (auto simp: set_select_def text_content_def split: option.splits)

lemma start_editor_node:
  "text_content (node (start_editor h k d) i) = text_content (node d i)"
  "evalue (node (start_editor h k d) i) = evalue (node d i)"
  "a \<noteq> a_prepared \<Longrightarrow> eattrs (node (start_editor h k d) i) a = eattrs (node d i) a"
  "easymde h \<Longrightarrow> has_attr a_prepared (node (start_editor h k d) k)"
  "\<not> easymde h \<Longrightarrow> start_editor h k d = d"
  by (auto simp: start_editor_def Let_def has_attr_def)

lemmas node_simps = prepare_code_node prepare_frames_node localize_time_node format_element_node
  set_select_node start_editor_node

lemma element_date_cong:
  "eattrs e a_unix = eattrs e' a_unix \<Longrightarrow> eattrs e a_datetime = eattrs e' a_datetime \<Longrightarrow>
   element_date h e = element_date h e'"
  by (simp add: element_date_def split: option.split)

text \<open>What keeps a step from doing anything survives every other step.\<close>

lemma date_stuck:
  assumes "element_date h (node d i) = None"
  shows "element_date h (node (task_step h t d) i) = None"
proof (cases "t = (KTime, i)")
  case True
  then show ?thesis using assms by (simp add: node_simps)
next
  case False
  have "element_date h (node (task_step h t d) i) = element_date h (node d i)"
    using False by (cases t; cases "fst t")
      (auto intro!: element_date_cong simp: node_simps)
  then show ?thesis using assms by simp
qed

lemma json_stuck:
  assumes "is_json_code d i" "task_fits d t" "json_parse (num_of h) (text_content (node d i)) = None"
  shows "json_parse (num_of h) (text_content (node (task_step h t d) i)) = None"
proof (cases "t = (KJson, i)")
  case True
  then show ?thesis using assms by (simp add: node_simps)
next
  case False
  have "t \<noteq> (KTime, i)" using assms(1,2) by (auto simp: shape_defs)
  with False have "text_content (node (task_step h t d) i) = text_content (node d i)"
    by (cases t; cases "fst t") (auto simp: node_simps)
  then show ?thesis using assms by simp
qed

lemma update_id: "h (node d i) = node d i \<Longrightarrow> update i h d = d"
  by (simp add: update_def fun_upd_idem)

lemma evalue_update_iff: "(e::elem)\<lparr>evalue := p\<rparr> = e \<longleftrightarrow> evalue e = p"
  by (cases e) auto

lemma set_select_fix:
  "set_select h i d = d \<longleftrightarrow> (theme_get h = None \<or> theme_get h = Some (evalue (node d i)))"
proof (cases "theme_get h")
  case (Some p)
  have "update i (\<lambda>e. e\<lparr>evalue := p\<rparr>) d = d \<longleftrightarrow> evalue (node d i) = p"
  proof
    assume "update i (\<lambda>e. e\<lparr>evalue := p\<rparr>) d = d"
    from arg_cong [OF this, of "\<lambda>d. evalue (node d i)"] show "evalue (node d i) = p" by simp
  next
    assume "evalue (node d i) = p"
    then show "update i (\<lambda>e. e\<lparr>evalue := p\<rparr>) d = d"
      by (intro update_id) (simp add: evalue_update_iff)
  qed
  then show ?thesis using Some by (auto simp: set_select_def)
qed (simp add: set_select_def)

lemma value_stuck:
  "set_select h i d = d \<Longrightarrow> set_select h i (task_step h t d) = task_step h t d"
  unfolding set_select_fix
  by (cases t; cases "fst t") (auto simp: node_simps set_select_def split: if_splits)

subsection \<open>The contract holds\<close>

lemma task_settled:
  assumes "task_sel (task_step h t d) t"
  shows "task_step h t (task_step h t d) = task_step h t d"
proof (cases t)
  case (Pair k i)
  show ?thesis
  proof (cases k)
    case KCode
    then show ?thesis using assms prepare_code_node(4) [of i d] by (simp add: Pair sel_defs)
  next
    case KFrames
    then show ?thesis using assms prepare_frames_node(4) [of i d] by (simp add: Pair sel_defs)
  next
    case KTime
    then show ?thesis using assms localize_time_node(3,4) [of h d i]
      by (cases "element_date h (node d i)") (auto simp: Pair sel_defs)
  next
    case KJson
    then show ?thesis using assms format_element_node(4,5) [of h d i]
      by (cases "json_parse (num_of h) (text_content (node d i))") (auto simp: Pair sel_defs)
  next
    case KSelect
    have "theme_get h = None \<or> theme_get h = Some (evalue (node (set_select h i d) i))"
      by (cases "theme_get h") (auto simp: set_select_def)
    then show ?thesis by (simp add: Pair KSelect set_select_fix)
  next
    case KEditor
    then show ?thesis using assms start_editor_node(4,5) [of h i d]
      by (cases "easymde h") (auto simp: Pair sel_defs)
  qed
qed

lemma task_stuck:
  assumes "task_fits d u" "task_sel d t" "task_step h t d = d"
  shows "task_step h t (task_step h u d) = task_step h u d"
proof (cases t)
  case (Pair k i)
  show ?thesis
  proof (cases k)
    case KCode
    then show ?thesis using assms(2,3) prepare_code_node(4) [of i d] by (simp add: Pair sel_defs)
  next
    case KFrames
    then show ?thesis using assms(2,3) prepare_frames_node(4) [of i d] by (simp add: Pair sel_defs)
  next
    case KTime
    then have "element_date h (node d i) = None"
      using assms(2,3) localize_time_node(3) [of h d i]
      by (cases "element_date h (node d i)") (auto simp: Pair sel_defs)
    from date_stuck [OF this] show ?thesis by (simp add: Pair KTime localize_time_node)
  next
    case KJson
    then have "json_parse (num_of h) (text_content (node d i)) = None"
      using assms(2,3) format_element_node(4) [of h d i]
      by (cases "json_parse (num_of h) (text_content (node d i))") (auto simp: Pair sel_defs)
    moreover have "is_json_code d i" using assms(2) KJson by (simp add: Pair sel_defs)
    ultimately have "json_parse (num_of h) (text_content (node (task_step h u d) i)) = None"
      using json_stuck assms(1) by blast
    then show ?thesis by (simp add: Pair KJson format_element_node)
  next
    case KSelect
    then show ?thesis using assms(3) value_stuck by (simp add: Pair)
  next
    case KEditor
    then have "\<not> easymde h"
      using assms(2,3) start_editor_node(4) [of h i d] by (auto simp: Pair sel_defs)
    then show ?thesis by (simp add: Pair KEditor start_editor_node)
  qed
qed

interpretation enhancement: once_tasks "task_items root" task_fits task_sel "task_step h" for root h
proof unfold_locales
  fix d t u k
  show "task_items root k (task_step h t d) = task_items root k d"
    by (simp add: task_items_def grows_scope [OF grows_task])
  show "task_sel d t \<Longrightarrow> task_fits d t"
    by (cases t; cases "fst t") (auto simp: sel_defs)
  show "task_fits d u \<Longrightarrow> task_fits (task_step h t d) u"
    by (simp add: grows_fits [OF grows_task])
  show "\<not> task_sel d u \<Longrightarrow> \<not> task_sel (task_step h t d) u"
    by (rule grows_sel [OF grows_task])
  show "task_sel (task_step h t d) t \<Longrightarrow> task_step h t (task_step h t d) = task_step h t d"
    by (rule task_settled)
  show "task_fits d u \<Longrightarrow> task_sel d t \<Longrightarrow> task_step h t d = d \<Longrightarrow>
      task_step h t (task_step h u d) = task_step h u d"
    by (rule task_stuck)
qed

lemma fold_pairs: "fold (task_step h) (map (Pair k) xs) = fold (\<lambda>i. task_step h (k, i)) xs"
  by (rule ext) (simp add: fold_map comp_def)

lemma pass_query:
  "run_pass task_sel (task_step h) (task_items root k) d =
     fold (\<lambda>i. task_step h (k, i)) (query_all d root (\<lambda>d i. task_sel d (k, i))) d"
  by (simp add: run_pass_def task_items_def query_all_def filter_map comp_def fold_pairs)

lemma fold_idle: "(\<And>i. step i = id) \<Longrightarrow> fold step xs d = d"
  by (induction xs) auto

lemma enhance_passes:
  "enhance h root d = fold (\<lambda>k. run_pass task_sel (task_step h) (task_items root k))
     [KCode, KFrames, KTime, KJson, KSelect, KEditor] d"
proof -
  have "theme_get h = None \<Longrightarrow> set_select h i = id" for i by (auto simp: set_select_def)
  moreover have "\<not> easymde h \<Longrightarrow> start_editor h i = id" for i by (auto simp: start_editor_node)
  ultimately show ?thesis
    by (simp add: enhance_def prepare_stack_traces_def localize_times_def format_json_def
        sync_theme_controls_def setup_markdown_editors_def pass_query fold_idle Let_def)
qed

subsection \<open>Steps on one element\<close>

definition format_elem :: "('n, 'd) host \<Rightarrow> elem \<Rightarrow> elem" where
  "format_elem h e =
     (case json_parse (num_of h) (text_content e) of
        None \<Rightarrow> e
      | Some v \<Rightarrow> set_attr a_formatted js_true (set_text (stringify (show_num h) [32, 32] v) e))"

definition localize_elem :: "('n, 'd) host \<Rightarrow> elem \<Rightarrow> elem" where
  "localize_elem h e =
     (case element_date h e of
        None \<Rightarrow> e
      | Some t \<Rightarrow> set_attr a_localized js_true (set_attr a_title (date_iso h t)
          (set_attr a_datetime (date_iso h t) (set_text (date_format h t) e))))"

lemma format_element_update: "format_element h i d = update i (format_elem h) d"
proof (cases "json_parse (num_of h) (text_content (node d i))")
  case None
  then have "update i (format_elem h) d = d" by (intro update_id) (simp add: format_elem_def)
  with None show ?thesis by (simp add: format_element_def)
qed (simp add: format_element_def format_elem_def update_def)

lemma localize_time_update: "localize_time h i d = update i (localize_elem h) d"
proof (cases "element_date h (node d i)")
  case None
  then have "update i (localize_elem h) d = d" by (intro update_id) (simp add: localize_elem_def)
  with None show ?thesis by (simp add: localize_time_def)
qed (simp add: localize_time_def localize_elem_def update_def)

lemma fold_update:
  "distinct xs \<Longrightarrow> node (fold (\<lambda>i. update i f) xs d) i = (if i \<in> set xs then f (node d i) else node d i)"
  by (induction xs arbitrary: d) auto

lemma query_distinct: "distinct (order d) \<Longrightarrow> distinct (query_all d root sel)"
  by (simp add: query_all_def scope_def)

lemma query_scope: "i \<in> set (query_all d root sel) \<longleftrightarrow> i \<in> set (scope root d) \<and> sel d i"
  by (auto simp: query_all_def)

lemma prepare_code_content:
  "econtent (node (prepare_code i d) i) = stack_rows (split_on 10 (text_content (node d i)))"
  "j \<noteq> i \<Longrightarrow> econtent (node (prepare_code i d) j) = econtent (node d j)"
  by (simp_all add: prepare_code_def Let_def mark_app_card_node)

lemma fold_prepare_code:
  "econtent (node (fold prepare_code xs d) i) =
     (if i \<in> set xs then stack_rows (split_on 10 (text_content (node d i))) else econtent (node d i))"
  by (induction xs arbitrary: d) (auto simp: prepare_code_content prepare_code_node)

lemma fold_frames_content: "econtent (node (fold prepare_frames xs d) i) = econtent (node d i)"
proof (induction xs arbitrary: d)
  case (Cons x xs)
  have "econtent (node (prepare_frames x d) i) = econtent (node d i)"
    by (simp add: prepare_frames_def Let_def mark_app_card_node)
  with Cons show ?case by simp
qed simp

definition card_mode :: "dom \<Rightarrow> nat \<Rightarrow> ustr option" where
  "card_mode d c = eattrs (node d c) a_mode"

lemma mark_app_card_mode:
  "closest d i (has_class (lit ''stack-card'')) = Some c \<Longrightarrow> card_mode (mark_app_card i d) c = Some (lit ''app'')"
  "card_mode d c = Some (lit ''app'') \<Longrightarrow> card_mode (mark_app_card i d) c = Some (lit ''app'')"
  by (auto simp: mark_app_card_def card_mode_def split: option.split)

lemma update_card_mode [simp]:
  "card_mode (update i (set_attr a_prepared v) d) c = card_mode d c"
  "card_mode (update i (\<lambda>e. set_attr a_prepared v (e\<lparr>econtent := x\<rparr>)) d) c = card_mode d c"
  by (simp_all add: card_mode_def)

lemma app_mode_kept:
  "card_mode d c = Some (lit ''app'') \<Longrightarrow> card_mode (prepare_code i d) c = Some (lit ''app'')"
  "card_mode d c = Some (lit ''app'') \<Longrightarrow> card_mode (prepare_frames i d) c = Some (lit ''app'')"
  by (auto simp: prepare_code_def prepare_frames_def Let_def intro: mark_app_card_mode(2))

lemma fold_app_mode_kept:
  "(\<And>i d. card_mode d c = m \<Longrightarrow> card_mode (step i d) c = m) \<Longrightarrow>
   card_mode d c = m \<Longrightarrow> card_mode (fold step xs d) c = m"
  by (induction xs arbitrary: d) auto

lemma prepare_code_mode:
  assumes "list_ex app_line (split_on 10 (text_content (node d i)))"
    and "closest d i (has_class (lit ''stack-card'')) = Some c"
  shows "card_mode (prepare_code i d) c = Some (lit ''app'')"
proof -
  let ?d = "update i (\<lambda>e. set_attr a_prepared js_true
    (e\<lparr>econtent := stack_rows (split_on 10 (text_content (node d i)))\<rparr>)) d"
  have "grows d ?d" by (rule grows_update) auto
  then have "closest ?d i (has_class (lit ''stack-card'')) = Some c"
    using assms(2) by (simp add: grows_closest)
  then show ?thesis using assms(1) by (simp add: prepare_code_def Let_def mark_app_card_mode)
qed

lemma fold_code_mode:
  assumes "i \<in> set xs" and "list_ex app_line (split_on 10 (text_content (node d i)))"
    and "closest d i (has_class (lit ''stack-card'')) = Some c"
  shows "card_mode (fold prepare_code xs d) c = Some (lit ''app'')"
  using assms
proof (induction xs arbitrary: d)
  case (Cons x xs)
  show ?case
  proof (cases "x = i")
    case True
    have "card_mode (prepare_code i d) c = Some (lit ''app'')"
      by (rule prepare_code_mode [OF Cons.prems(2,3)])
    then have "card_mode (fold prepare_code xs (prepare_code i d)) c = Some (lit ''app'')"
      by (rule fold_app_mode_kept [rotated]) (rule app_mode_kept(1))
    with True show ?thesis by simp
  next
    case False
    then show ?thesis using Cons
      by (simp add: prepare_code_node grows_closest [OF grows_prepare_code])
  qed
qed simp

subsection \<open>Frames of the passes\<close>

lemma fold_text:
  "(\<And>x d. text_content (node (step x d) i) = text_content (node d i)) \<Longrightarrow>
   text_content (node (fold step xs d) i) = text_content (node d i)"
  by (induction xs arbitrary: d) auto

lemma closest_ancestor: "closest d i P = Some c \<Longrightarrow> P (node d c) \<and> (c = i \<or> c \<in> set (ancestors d i))"
  by (auto simp: closest_def find_Some_iff nth_Cons' split: if_splits)

lemma mark_other_node:
  "\<not> has_class (lit ''stack-card'') (node d j) \<Longrightarrow> node (mark_app_card i d) j = node d j"
  using closest_ancestor [of d i "has_class (lit ''stack-card'')"]
  by (auto simp: mark_app_card_def split: option.split)

lemma task_other_node:
  assumes "j \<noteq> snd t" and "\<not> has_class (lit ''stack-card'') (node d j)"
  shows "node (task_step h t d) j = node d j"
proof (cases t)
  case (Pair k i)
  then have "j \<noteq> i" using assms(1) by simp
  have m: "node (mark_app_card i (update i g d)) j = node d j" for g
    using mark_other_node [of "update i g d" j i] assms(2) \<open>j \<noteq> i\<close> by simp
  show ?thesis using \<open>j \<noteq> i\<close>
    by (cases k) (simp_all add: Pair prepare_code_def prepare_frames_def Let_def m
        localize_time_node format_element_node set_select_def start_editor_def split: option.split)
qed

lemma fold_other_node:
  assumes "\<forall>t \<in> set ts. snd t \<noteq> j" and "\<not> has_class (lit ''stack-card'') (node d j)"
  shows "node (fold (task_step h) ts d) j = node d j"
  using assms
proof (induction ts arbitrary: d)
  case (Cons t ts)
  then show ?case using task_other_node [of j t d h] by simp
qed simp

lemma pass_other_node:
  assumes "j \<notin> set (scope root d)" and "\<not> has_class (lit ''stack-card'') (node d j)"
  shows "node (run_pass task_sel (task_step h) (task_items root k) d) j = node d j \<and>
    grows d (run_pass task_sel (task_step h) (task_items root k) d)"
  unfolding run_pass_def
proof
  show "node (fold (task_step h) (filter (task_sel d) (task_items root k d)) d) j = node d j"
    by (rule fold_other_node) (use assms in \<open>auto simp: task_items_def\<close>)
  show "grows d (fold (task_step h) (filter (task_sel d) (task_items root k d)) d)"
    by (rule grows_fold) (rule grows_task)
qed

lemma passes_other_node:
  assumes "j \<notin> set (scope root d)" and "\<not> has_class (lit ''stack-card'') (node d j)"
  shows "node (fold (\<lambda>k. run_pass task_sel (task_step h) (task_items root k)) ks d) j = node d j"
  using assms
proof (induction ks arbitrary: d)
  case (Cons k ks)
  let ?e = "run_pass task_sel (task_step h) (task_items root k) d"
  have e: "node ?e j = node d j" "scope root ?e = scope root d"
    using pass_other_node [OF Cons.prems, of h k] grows_scope by blast+
  show ?case using Cons.IH [of ?e] Cons.prems e by simp
qed simp

subsection \<open>Properties\<close>

text \<open>C20: enhancing a part of the page twice is enhancing it once: the marks the passes set keep
  every later pass, also of another kind, from working on an element again, and what could
  not be enhanced (a malformed payload, an invalid date) stays as it was. A fragment that is
  swapped in can therefore be enhanced together with what already was.\<close>
lemma enhance_idempotent: "enhance h root (enhance h root d) = enhance h root d"
  unfolding enhance_passes by (rule enhancement.passes_idem)

text \<open>Enhancing below a root touches nothing outside of it except the stack cards its traces
  stand in.\<close>
lemma enhance_local:
  assumes "j \<notin> set (scope root d)" and "\<not> has_class (lit ''stack-card'') (node d j)"
  shows "node (enhance h root d) j = node d j"
  unfolding enhance_passes by (rule passes_other_node [OF assms])

text \<open>Preparing stack traces never changes the text of any element; each trace that was not
  prepared becomes one row per line, its application lines marked, and the stack card around
  a trace with an application line is switched to the application view.\<close>
lemma prepare_stack_traces_rows:
  "text_content (node (prepare_stack_traces root d) j) = text_content (node d j) \<and>
   (i \<in> set (query_all d root sel_code) \<longrightarrow>
     econtent (node (prepare_stack_traces root d) i) = stack_rows (split_on 10 (text_content (node d i))) \<and>
     (list_ex app_line (split_on 10 (text_content (node d i))) \<longrightarrow>
      (\<forall>c. closest d i (has_class (lit ''stack-card'')) = Some c \<longrightarrow>
        card_mode (prepare_stack_traces root d) c = Some (lit ''app''))))"
proof -
  have "text_content (node (fold prepare_code xs d) j) = text_content (node d j)"
    "text_content (node (fold prepare_frames xs d) j) = text_content (node d j)" for xs d
    by (rule fold_text, simp add: prepare_code_node prepare_frames_node)+
  moreover have "econtent (node (prepare_stack_traces root d) i) = stack_rows (split_on 10 (text_content (node d i)))"
    if "i \<in> set (query_all d root sel_code)"
    using that by (simp add: prepare_stack_traces_def Let_def fold_frames_content fold_prepare_code)
  moreover have "card_mode (prepare_stack_traces root d) c = Some (lit ''app'')"
    if "i \<in> set (query_all d root sel_code)" "list_ex app_line (split_on 10 (text_content (node d i)))"
      "closest d i (has_class (lit ''stack-card'')) = Some c" for c
  proof -
    have "card_mode (fold prepare_code (query_all d root sel_code) d) c = Some (lit ''app'')"
      by (rule fold_code_mode [OF that])
    then show ?thesis unfolding prepare_stack_traces_def Let_def
      by (rule fold_app_mode_kept [rotated]) (rule app_mode_kept(2))
  qed
  ultimately show ?thesis by (simp add: prepare_stack_traces_def Let_def)
qed

text \<open>After \<open>formatJson\<close> a payload that is JSON shows its text with an indentation of two and
  is marked; any other payload, and every other element, is exactly as received.\<close>
lemma format_json_elements:
  assumes "distinct (order d)"
  shows "node (format_json h root d) i =
    (if i \<in> set (scope root d) \<and> sel_json d i then format_elem h (node d i) else node d i)"
proof -
  have e: "format_element h = (\<lambda>i. update i (format_elem h))"
    by (rule ext)+ (rule format_element_update)
  show ?thesis
    using fold_update [OF query_distinct [OF assms, of root sel_json], of "format_elem h" d i]
    by (simp only: format_json_def e query_scope)
qed

text \<open>After \<open>localizeTimes\<close> a time element with a valid date shows the localised text and
  carries the ISO date as its \<open>datetime\<close> and title; one whose date is invalid, and every other
  element, is unchanged.\<close>
lemma localize_times_elements:
  assumes "distinct (order d)"
  shows "node (localize_times h root d) i =
    (if i \<in> set (scope root d) \<and> sel_time d i then localize_elem h (node d i) else node d i)"
proof -
  have e: "localize_time h = (\<lambda>i. update i (localize_elem h))"
    by (rule ext)+ (rule localize_time_update)
  show ?thesis
    using fold_update [OF query_distinct [OF assms, of root sel_time], of "localize_elem h" d i]
    by (simp only: localize_times_def e query_scope)
qed

subsection \<open>A page\<close>

text \<open>A stack card (0) with a trace (1) and its code (2), a payload (3), a time (4), a paragraph (5).\<close>

definition sample_host :: "(int, nat) host" where
  "sample_host = \<lparr>num_of = int_of, show_num = show_int, date_of_unix = (\<lambda>s. Some (index_val s)),
     date_of_text = (\<lambda>_. None), date_format = dec, date_iso = dec, theme_get = Some (lit ''dark''),
     easymde = True, editor_starts = (\<lambda>_. True)\<rparr>"

fun sample_node :: "nat \<Rightarrow> elem" where
  "sample_node i =
    (if i = 0 then \<lparr>etag = lit ''div'', eclasses = [lit ''stack-card''], eattrs = Map.empty, econtent = [], evalue = []\<rparr>
     else if i = 1 then \<lparr>etag = lit ''pre'', eclasses = [lit ''stack-trace''], eattrs = Map.empty, econtent = [], evalue = []\<rparr>
     else if i = 2 then \<lparr>etag = lit ''code'', eclasses = [], eattrs = Map.empty,
       econtent = [Plain (lit ''main src/a.rs:1'')], evalue = []\<rparr>
     else if i = 3 then \<lparr>etag = lit ''code'', eclasses = [lit ''js-json''], eattrs = Map.empty,
       econtent = [Plain (lit ''[1,'')], evalue = []\<rparr>
     else if i = 4 then \<lparr>etag = lit ''time'', eclasses = [lit ''js-local-time''],
       eattrs = [a_unix \<mapsto> lit ''60''], econtent = [Plain (lit ''-'')], evalue = []\<rparr>
     else \<lparr>etag = lit ''p'', eclasses = [], eattrs = Map.empty, econtent = [], evalue = []\<rparr>)"

definition sample_dom :: dom where
  "sample_dom = \<lparr>order = [0, 1, 2, 3, 4, 5],
     ancestors = (\<lambda>i. if i = 2 then [1, 0] else if i = 1 then [0] else []),
     node = sample_node, editors = []\<rparr>"

lemma sample_app_lines: "list_ex app_line (split_on 10 (text_content (node sample_dom 2)))"
  by code_simp

lemma prepare_stack_traces_rows_witness:
  "card_mode (prepare_stack_traces None sample_dom) 0 = Some (lit ''app'')"
proof -
  have "2 \<in> set (query_all sample_dom None sel_code)"
    by (simp add: query_all_def scope_def within_def sample_dom_def sel_code_def is_trace_code_def
        inside_def has_class_def has_attr_def)
  moreover have "closest sample_dom 2 (has_class (lit ''stack-card'')) = Some 0"
    by (simp add: closest_def sample_dom_def has_class_def)
  ultimately show ?thesis using prepare_stack_traces_rows [of None sample_dom 0 2] sample_app_lines
    by blast
qed

lemma enhance_local_witness: "node (enhance sample_host (Some 0) sample_dom) 5 = sample_node 5"
  using enhance_local [of 5 "Some 0" sample_dom sample_host]
  by (simp add: scope_def within_def sample_dom_def has_class_def)

lemma format_json_elements_witness: "node (format_json sample_host None sample_dom) 5 = sample_node 5"
  using format_json_elements [of sample_dom sample_host None 5]
  by (simp add: sample_dom_def sel_json_def is_json_code_def)

lemma localize_times_elements_witness:
  "text_content (node (localize_times sample_host None sample_dom) 4) = lit ''60''"
  using localize_times_elements [of sample_dom sample_host None 4]
  by (simp add: sample_dom_def sel_time_def is_local_time_def has_class_def has_attr_def scope_def
      within_def localize_elem_def element_date_def sample_host_def lit_def index_val_def dec.simps)

end
