(* ===== verification/Sanitize.thy ===== *)
theory Sanitize
  imports JsString
begin

text \<open>
  \<open>stripPreviewHtml\<close> of \<open>src/static/app.js\<close>, which filters the live preview of the Markdown
  editor: a parsed document loses every element of a list of tags, then every element loses
  its dangerous attributes. The HTML parser and serialiser of the browser are parameters. The
  content of a \<open>template\<close> is a fragment of its own that no query reaches.
\<close>

type_synonym attr = "ustr \<times> ustr"

datatype html =
    HText ustr
  | HComment ustr
  | HElem ustr "attr list" "html list"
  | HTemplate "attr list" "html list"

definition forbidden_tags :: "ustr list" where
  "forbidden_tags = map lit
     [''script'', ''iframe'', ''object'', ''embed'', ''style'', ''link'', ''meta'', ''base'', ''form'',
      ''input'', ''button'', ''textarea'', ''select'', ''audio'', ''video'', ''source'', ''track'',
      ''frame'', ''frameset'', ''applet'', ''svg'', ''math'']"

definition forbidden :: "html \<Rightarrow> bool" where
  "forbidden n = (case n of HElem tag as cs \<Rightarrow> tag \<in> set forbidden_tags | _ \<Rightarrow> False)"

text \<open>The first pass removes each such element from its parent, with all it contains.\<close>

fun remove_elements :: "html \<Rightarrow> html" where
  "remove_elements (HText t) = HText t"
| "remove_elements (HComment t) = HComment t"
| "remove_elements (HElem tag as cs) = HElem tag as (map remove_elements (filter (\<lambda>n. \<not> forbidden n) cs))"
| "remove_elements (HTemplate as cs) = HTemplate as cs"

subsection \<open>Attributes\<close>

definition url_bearer :: "ustr \<Rightarrow> bool" where
  "url_bearer name \<longleftrightarrow> name = lit ''href'' \<or> name = lit ''src'' \<or> name = lit ''xlink:href''"

definition squeezed :: "case_table \<Rightarrow> ustr \<Rightarrow> ustr" where
  "squeezed U value = remove_ws (to_lower U (js_trim value))"

definition dangerous :: "case_table \<Rightarrow> ustr \<Rightarrow> ustr \<Rightarrow> bool" where
  "dangerous U name value \<longleftrightarrow>
     (let n = to_lower U name; v = squeezed U value in
      index_of_is_0 n (lit ''on'') \<or> n = lit ''style'' \<or> n = lit ''id'' \<or>
      (url_bearer n \<and> (index_of_is_0 v (lit ''javascript:'') \<or> index_of_is_0 v (lit ''data:''))))"

text \<open>\<open>removeAttribute\<close> removes the attribute of that name; the loop runs over a copy of the list.\<close>

fun remove_attribute :: "ustr \<Rightarrow> attr list \<Rightarrow> attr list" where
  "remove_attribute name [] = []"
| "remove_attribute name ((m, v) # as) = (if m = name then as else (m, v) # remove_attribute name as)"

definition strip_attributes :: "case_table \<Rightarrow> attr list \<Rightarrow> attr list" where
  "strip_attributes U as =
     foldl (\<lambda>bs (name, value). if dangerous U name value then remove_attribute name bs else bs) as as"

fun strip_elements :: "case_table \<Rightarrow> html \<Rightarrow> html" where
  "strip_elements U (HText t) = HText t"
| "strip_elements U (HComment t) = HComment t"
| "strip_elements U (HElem tag as cs) = HElem tag (strip_attributes U as) (map (strip_elements U) cs)"
| "strip_elements U (HTemplate as cs) = HTemplate (strip_attributes U as) cs"

definition strip_document :: "case_table \<Rightarrow> html \<Rightarrow> html" where
  "strip_document U doc = strip_elements U (remove_elements doc)"

definition strip_preview_html ::
  "(ustr \<Rightarrow> html) \<Rightarrow> (html \<Rightarrow> ustr) \<Rightarrow> case_table \<Rightarrow> ustr \<Rightarrow> ustr" where
  "strip_preview_html parse body_html U source = body_html (strip_document U (parse source))"

subsection \<open>What the browser does with a URL\<close>

text \<open>
  The URL parser drops leading code points up to U+0020 and every tab, line feed and carriage
  return, and reads the scheme without regard to ASCII case.
\<close>

definition url_text :: "ustr \<Rightarrow> ustr" where
  "url_text v = map ascii_lower (filter (\<lambda>c. c \<noteq> 9 \<and> c \<noteq> 10 \<and> c \<noteq> 13) (dropWhile (\<lambda>c. c \<le> 32) v))"

definition runs_script :: "ustr \<Rightarrow> bool" where
  "runs_script v \<longleftrightarrow> prefix (lit ''javascript:'') (url_text v)"

text \<open>The control characters that are no white space to the script.\<close>

definition other_control :: "nat \<Rightarrow> bool" where
  "other_control c \<longleftrightarrow> c < 32 \<and> \<not> (9 \<le> c \<and> c \<le> 13)"

lemma to_lower_ascii_prefix:
  assumes "is_ascii p"
  shows "\<exists>r'. to_lower U (p @ r) = map ascii_lower p @ r'"
proof -
  have "map (lower_at U (p @ r)) [0..<length p] = map (\<lambda>c. [ascii_lower c]) p"
    by (rule nth_equalityI) (use assms in \<open>auto simp: lower_at_def is_ascii_def nth_append\<close>)
  moreover have "[0..<length (p @ r)] = [0..<length p] @ [length p..<length p + length r]"
    using upt_add_eq_append [of 0 "length p" "length r"] by simp
  ultimately have "to_lower U (p @ r) = map ascii_lower p @
      concat (map (lower_at U (p @ r)) [length p..<length p + length r])"
    by (simp only: to_lower_def map_append concat_append concat_map_singleton)
  then show ?thesis by blast
qed

lemma remove_ws_append: "remove_ws (s @ t) = remove_ws s @ remove_ws t"
  by (simp add: remove_ws_def)

lemma filter_prefix_split:
  "prefix q (filter Q s) \<Longrightarrow> q \<noteq> [] \<Longrightarrow> \<exists>p r. s = p @ r \<and> filter Q p = q \<and> last p = last q \<and> p \<noteq> []"
proof (induction s arbitrary: q)
  case (Cons c s)
  show ?case
  proof (cases "Q c")
    case False
    then have "prefix q (filter Q s)" using Cons.prems by simp
    from Cons.IH [OF this Cons.prems(2)] obtain p r
      where "s = p @ r" "filter Q p = q" "last p = last q" "p \<noteq> []" by blast
    then show ?thesis using False by (intro exI [of _ "c # p"] exI [of _ r]) auto
  next
    case True
    with Cons.prems obtain q' where q: "q = c # q'" "prefix q' (filter Q s)" by (cases q) auto
    show ?thesis
    proof (cases "q' = []")
      case True
      then show ?thesis using \<open>Q c\<close> q by (intro exI [of _ "[c]"] exI [of _ s]) auto
    next
      case False
      with Cons.IH q(2) obtain p r where "s = p @ r" "filter Q p = q'" "last p = last q'" "p \<noteq> []"
        by blast
      then show ?thesis using \<open>Q c\<close> q False by (intro exI [of _ "c # p"] exI [of _ r]) auto
    qed
  qed
qed simp

subsection \<open>What is kept\<close>

fun clean :: "case_table \<Rightarrow> html \<Rightarrow> bool" where
  "clean U (HText t) = True"
| "clean U (HComment t) = True"
| "clean U (HElem tag as cs) \<longleftrightarrow>
     list_all (\<lambda>(n, v). \<not> dangerous U n v) as \<and> list_all (\<lambda>n. \<not> forbidden n \<and> clean U n) cs"
| "clean U (HTemplate as cs) \<longleftrightarrow> list_all (\<lambda>(n, v). \<not> dangerous U n v) as"

text \<open>Attribute names are unique in every element the parser builds.\<close>

fun distinct_names :: "html \<Rightarrow> bool" where
  "distinct_names (HText t) = True"
| "distinct_names (HComment t) = True"
| "distinct_names (HElem tag as cs) \<longleftrightarrow> distinct (map fst as) \<and> list_all distinct_names cs"
| "distinct_names (HTemplate as cs) \<longleftrightarrow> distinct (map fst as)"

lemma remove_attribute_filter:
  "distinct (map fst as) \<Longrightarrow> remove_attribute n as = filter (\<lambda>a. fst a \<noteq> n) as"
proof (induction as)
  case (Cons a as)
  have "fst a \<notin> fst ` set as" using Cons.prems by simp
  then have "filter (\<lambda>b. fst b \<noteq> fst a) as = as"
    by (intro filter_True ballI) (metis image_eqI)
  with Cons show ?case by (cases a) auto
qed simp

lemma strip_attributes_filter:
  assumes "distinct (map fst as)"
  shows "strip_attributes U as = filter (\<lambda>(n, v). \<not> dangerous U n v) as"
proof -
  have "foldl (\<lambda>bs (n, v). if dangerous U n v then remove_attribute n bs else bs) bs cs =
      filter (\<lambda>a. \<not> (\<exists>v. (fst a, v) \<in> set cs \<and> dangerous U (fst a) v)) bs"
    if "distinct (map fst bs)" for bs cs
    using that
  proof (induction cs arbitrary: bs)
    case (Cons c cs)
    obtain n v where c: "c = (n, v)" by (cases c)
    show ?case
    proof (cases "dangerous U n v")
      case True
      have "distinct (map fst (filter (\<lambda>a. fst a \<noteq> n) bs))"
        using Cons.prems by (simp add: distinct_map_filter)
      from Cons.IH [OF this] show ?thesis
        using True Cons.prems by (simp add: c remove_attribute_filter) (rule filter_cong, auto)
    next
      case False
      from Cons.IH [OF Cons.prems] show ?thesis
        using False by (simp add: c) (rule filter_cong, auto)
    qed
  qed simp
  from this [OF assms, of as] have "strip_attributes U as =
      filter (\<lambda>a. \<not> (\<exists>v. (fst a, v) \<in> set as \<and> dangerous U (fst a) v)) as"
    by (simp add: strip_attributes_def)
  also have "\<dots> = filter (\<lambda>(n, v). \<not> dangerous U n v) as"
    by (rule filter_cong) (use assms in \<open>auto dest: eq_key_imp_eq_value\<close>)
  finally show ?thesis .
qed

lemma forbidden_simps [simp]:
  "forbidden (remove_elements n) = forbidden n" "forbidden (strip_elements U n) = forbidden n"
  by (cases n; simp add: forbidden_def)+

lemma remove_distinct: "distinct_names n \<Longrightarrow> distinct_names (remove_elements n)"
  by (induction n) (auto simp: list_all_iff)

lemma strip_attributes_distinct:
  "distinct (map fst as) \<Longrightarrow> distinct (map fst (strip_attributes U as))"
  by (simp add: strip_attributes_filter distinct_map_filter)

lemma strip_distinct: "distinct_names n \<Longrightarrow> distinct_names (strip_elements U n)"
  by (induction n) (auto simp: list_all_iff strip_attributes_distinct)

text \<open>No forbidden element below a node.\<close>

fun pruned :: "html \<Rightarrow> bool" where
  "pruned (HElem tag as cs) \<longleftrightarrow> list_all (\<lambda>n. \<not> forbidden n \<and> pruned n) cs"
| "pruned _ = True"

lemma pruned_remove: "pruned (remove_elements n)"
  by (induction n) (auto simp: list_all_iff)

lemma clean_strip: "pruned n \<Longrightarrow> distinct_names n \<Longrightarrow> clean U (strip_elements U n)"
  by (induction n) (auto simp: list_all_iff strip_attributes_filter)

lemma clean_fixed: "clean U n \<Longrightarrow> distinct_names n \<Longrightarrow> strip_document U n = n"
proof (induction n)
  case (HElem tag as cs)
  have "filter (\<lambda>n. \<not> forbidden n) cs = cs"
    using HElem.prems by (auto simp: list_all_iff filter_id_conv)
  moreover have "strip_attributes U as = as"
    using HElem.prems by (simp add: strip_attributes_filter list_all_iff filter_id_conv case_prod_unfold)
  moreover have "map (\<lambda>n. strip_elements U (remove_elements n)) cs = cs"
    using HElem by (intro map_idI) (auto simp: list_all_iff strip_document_def)
  ultimately show ?case by (simp add: strip_document_def comp_def)
next
  case (HTemplate as cs)
  then show ?case
    by (simp add: strip_document_def strip_attributes_filter list_all_iff filter_id_conv case_prod_unfold)
qed (simp_all add: strip_document_def)

subsection \<open>URLs\<close>

lemma drop_controls:
  assumes "\<forall>c \<in> set v. \<not> other_control c" and "x = dropWhile (\<lambda>c. c \<le> 32) v" and "x \<noteq> []" and "\<not> js_ws (hd x)"
  shows "strip_start js_ws v = x"
  using assms
proof (induction v arbitrary: x)
  case (Cons c v)
  show ?case
  proof (cases "c \<le> 32")
    case True
    then have "js_ws c" using Cons.prems(1) by (auto simp: other_control_def js_ws_def not_less)
    with True Cons show ?thesis by (simp add: strip_start_def)
  next
    case False
    with Cons.prems show ?thesis by (simp add: strip_start_def)
  qed
qed (simp add: strip_start_def)

lemma strip_end_append: "p \<noteq> [] \<Longrightarrow> \<not> P (last p) \<Longrightarrow> strip_end P (p @ r) = p @ strip_end P r"
proof -
  assume "p \<noteq> []" "\<not> P (last p)"
  then have "dropWhile P (rev p) = rev p"
    by (cases p rule: rev_cases) auto
  moreover have "dropWhile P (rev r) = []" if "\<forall>x \<in> set (rev r). P x"
    using that by (simp add: dropWhile_eq_Nil_conv)
  ultimately have "dropWhile P (rev r @ rev p) = dropWhile P (rev r) @ rev p"
    by (auto simp: dropWhile_append)
  then show ?thesis by (simp add: strip_end_def)
qed

lemma ascii_lower_range: "97 \<le> ascii_lower c \<and> ascii_lower c \<le> 122 \<or> ascii_lower c = 58 \<Longrightarrow>
    c < 128 \<and> \<not> js_ws c \<and> 32 < c"
  by (auto simp: ascii_lower_def is_upper_def js_ws_def split: if_splits)

lemma runs_script_squeezed:
  assumes "\<forall>c \<in> set v. \<not> other_control c" and "runs_script v"
  shows "prefix (lit ''javascript:'') (squeezed U v)"
proof -
  let ?Q = "\<lambda>c. c \<noteq> 9 \<and> c \<noteq> 10 \<and> c \<noteq> 13"
  let ?j = "lit ''javascript:''"
  define x where "x = dropWhile (\<lambda>c. c \<le> 32) v"
  from assms(2) obtain t where t: "map ascii_lower (filter ?Q x) = ?j @ t"
    by (auto simp: runs_script_def url_text_def x_def prefix_def)
  then obtain q u where q: "filter ?Q x = q @ u" "map ascii_lower q = ?j"
    by (auto simp: map_eq_append_conv)
  have ne: "q \<noteq> []" using q(2) by (auto simp: lit_def)
  have qr: "c < 128 \<and> \<not> js_ws c \<and> 32 < c" if "c \<in> set q" for c
  proof -
    have "ascii_lower c \<in> set ?j" using that q(2) by (metis image_eqI set_map)
    then show ?thesis by (intro ascii_lower_range) (auto simp: lit_def)
  qed
  from filter_prefix_split [of q ?Q x] q(1) ne obtain p r
    where p: "x = p @ r" "filter ?Q p = q" "last p = last q" "p \<noteq> []" by (auto simp: prefix_def)
  have pc: "c < 128 \<and> (js_ws c \<longleftrightarrow> c \<notin> set q)" if "c \<in> set p" for c
  proof (cases "?Q c")
    case True
    then have "c \<in> set q" using that p(2) by auto
    then show ?thesis using qr by blast
  next
    case False
    then have "c \<notin> set q" using p(2) by auto
    then show ?thesis using False by (auto simp: js_ws_def)
  qed
  have "hd x = hd p" using p by simp
  moreover have "32 < hd x" using p hd_dropWhile [of "\<lambda>c. c \<le> 32" v] by (simp add: x_def)
  moreover have "hd p \<in> set q"
  proof -
    have "?Q (hd p)" using calculation by auto
    then show ?thesis using p(2,4) by (cases p) auto
  qed
  ultimately have "\<not> js_ws (hd x)" using qr by auto
  then have "strip_start js_ws v = p @ r"
    using drop_controls [OF assms(1) x_def] p by simp
  then have "js_trim v = p @ strip_end js_ws r"
    using p(3,4) qr [of "last q"] ne by (simp add: js_trim_def strip_def strip_end_append)
  moreover have "is_ascii p" using pc by (simp add: is_ascii_def)
  ultimately obtain r' where "to_lower U (js_trim v) = map ascii_lower p @ r'"
    using to_lower_ascii_prefix by metis
  then have "squeezed U v = remove_ws (map ascii_lower p) @ remove_ws r'"
    by (simp add: squeezed_def remove_ws_append)
  moreover have "remove_ws (map ascii_lower p) = map ascii_lower (filter (\<lambda>c. \<not> js_ws (ascii_lower c)) p)"
    by (simp add: remove_ws_def filter_map comp_def)
  moreover have "filter (\<lambda>c. \<not> js_ws (ascii_lower c)) p = q"
  proof -
    have "js_ws (ascii_lower c) = js_ws c" for c
      by (auto simp: js_ws_def ascii_lower_def is_upper_def)
    moreover have "filter (\<lambda>c. \<not> js_ws c) p = filter ?Q p"
      by (rule filter_cong) (use pc p(2) in \<open>auto simp: js_ws_def\<close>)
    ultimately show ?thesis using p(2) by simp
  qed
  ultimately show ?thesis using q(2) by (simp add: prefix_def)
qed

lemma url_bearer_lower: "url_bearer n \<Longrightarrow> to_lower U n = n"
proof -
  assume "url_bearer n"
  then have "is_ascii n" "map ascii_lower n = n"
    by (auto simp: url_bearer_def is_ascii_def lit_def char_class_defs)
  then show ?thesis by (simp add: to_lower_ascii)
qed

subsection \<open>Properties\<close>


text \<open>Filtering is idempotent, and it changes nothing in a document that is clean already.\<close>
lemma strip_document_fixed:
  assumes "distinct_names doc"
  shows "strip_document U (strip_document U doc) = strip_document U doc \<and>
    (clean U doc \<longrightarrow> strip_document U doc = doc)"
proof -
  have "clean U (strip_document U doc)" unfolding strip_document_def
    by (rule clean_strip [OF pruned_remove remove_distinct [OF assms]])
  moreover have "distinct_names (strip_document U doc)"
    unfolding strip_document_def by (intro strip_distinct remove_distinct assms)
  ultimately show ?thesis using clean_fixed assms by blast
qed

text \<open>C18: an attribute that carries a URL and survives the filter does not run a script when it
  is followed, provided its value has no control character other than white space.\<close>
lemma kept_url_is_inert:
  assumes "url_bearer n" and "\<not> dangerous U n v" and "\<forall>c \<in> set v. \<not> other_control c"
  shows "\<not> runs_script v"
  using runs_script_squeezed [OF assms(3), of U] assms(1,2)
  by (auto simp: dangerous_def Let_def url_bearer_lower index_of_is_0_iff)

text \<open>A leading control character that is not white space (U+0001, for one) hides the scheme
  from the filter and not from the browser: the attribute is kept and runs its script.\<close>
lemma control_hides_scheme:
  assumes "other_control c"
  shows "\<not> dangerous U (lit ''href'') (c # lit ''javascript:'' @ r) \<and>
    runs_script (c # lit ''javascript:'' @ r)"
proof
  let ?v = "c # lit ''javascript:'' @ r"
  have c: "c < 32" "\<not> js_ws c" "c < 128" "ascii_lower c = c"
    using assms by (auto simp: other_control_def js_ws_def char_class_defs)
  have "js_trim ?v = c # strip_end js_ws (lit ''javascript:'' @ r)"
    using strip_end_append [of "[c]" js_ws "lit ''javascript:'' @ r"] c
    by (simp add: js_trim_def strip_def strip_start_def)
  moreover obtain r' where "to_lower U ([c] @ strip_end js_ws (lit ''javascript:'' @ r)) = [c] @ r'"
    using to_lower_ascii_prefix [of "[c]" U "strip_end js_ws (lit ''javascript:'' @ r)"] c
    by (auto simp: is_ascii_def)
  ultimately have "squeezed U ?v = c # remove_ws r'"
    using c by (simp add: squeezed_def remove_ws_def)
  moreover have "c \<noteq> 106" "c \<noteq> 100" using c by auto
  moreover have "to_lower U (lit ''href'') = lit ''href''"
    by (rule url_bearer_lower) (simp add: url_bearer_def)
  ultimately show "\<not> dangerous U (lit ''href'') ?v"
    by (simp add: dangerous_def index_of_is_0_def lit_def)
  show "runs_script ?v"
    using c by (simp add: runs_script_def url_text_def lit_def char_class_defs)
qed

text \<open>A case table for the witnesses: every unit is its own lower case.\<close>

definition plain_table :: case_table where
  "plain_table i s = [s ! i]"

definition sample_html :: html where
  "sample_html = HElem (lit ''body'') []
     [HElem (lit ''a'') [(lit ''href'', lit ''JavaScript:x''), (lit ''onclick'', lit ''y''), (lit ''title'', lit ''z'')]
        [HText (lit ''t''), HElem (lit ''script'') [] []]]"

lemma sample_html_distinct: "distinct_names sample_html"
  by (simp add: sample_html_def)


lemma strip_document_fixed_witness:
  "strip_document plain_table (strip_document plain_table sample_html) = strip_document plain_table sample_html"
  using strip_document_fixed [OF sample_html_distinct] by blast

lemma kept_url_is_inert_witness: "\<not> runs_script (lit ''/a'')"
proof (rule kept_url_is_inert [of "lit ''href''" plain_table])
  have "js_trim (lit ''/a'') = lit ''/a''"
    unfolding js_trim_def by (rule strip_id) (simp add: lit_def js_ws_def)
  moreover have "to_lower plain_table (lit ''/a'') = lit ''/a''" "to_lower plain_table (lit ''href'') = lit ''href''"
    by (simp_all add: to_lower_ascii is_ascii_def lit_def char_class_defs)
  moreover have "remove_ws (lit ''/a'') = lit ''/a''"
    by (simp add: remove_ws_def lit_def js_ws_def)
  ultimately show "\<not> dangerous plain_table (lit ''href'') (lit ''/a'')"
    by (simp add: dangerous_def squeezed_def index_of_is_0_def) (simp add: lit_def)
qed (simp_all add: url_bearer_def lit_def other_control_def)

lemma control_hides_scheme_witness: "runs_script (1 # lit ''javascript:'' @ lit ''alert(1)'')"
  using control_hides_scheme [of 1 plain_table "lit ''alert(1)''"] by (simp add: other_control_def)

end
