(* ===== verification/Clicks.thy ===== *)
theory Clicks
  imports Enhance
begin

text \<open>
  The document-level listeners of \<open>src/static/app.js\<close>: the click dispatcher with its promise
  chains and feedback timers, and the htmx listeners. The state is the document, the clock
  with the timers that run, the promises that are pending and the effects outside of the
  page in the order they happened.
\<close>

subsection \<open>State\<close>

datatype effect =
    HistoryBack
  | AskConfirm ustr
  | PreventDefault
  | FetchMarkdown ustr
  | WriteClipboard ustr
  | OpenWindow ustr

text \<open>A pending promise: a fetch, a clipboard write that follows one, a plain clipboard write.\<close>

datatype job = FetchJob nat ustr | WriteUrlJob nat ustr | WriteJob nat

record ui =
  doc :: dom
  clock :: nat
  timers :: "(nat \<times> nat \<times> ustr) list"
  pending :: "job list"
  effects :: "effect list"

record click_env =
  confirm_answer :: bool
  has_clipboard :: bool
  query_one :: "ustr \<Rightarrow> dom \<Rightarrow> nat option option"

definition emit :: "effect list \<Rightarrow> ui \<Rightarrow> ui" where
  "emit es s = s\<lparr>effects := effects s @ es\<rparr>"

subsection \<open>Class lists\<close>

definition add_class :: "ustr \<Rightarrow> elem \<Rightarrow> elem" where
  "add_class c e = (if has_class c e then e else e\<lparr>eclasses := eclasses e @ [c]\<rparr>)"

definition remove_class :: "ustr \<Rightarrow> elem \<Rightarrow> elem" where
  "remove_class c e = e\<lparr>eclasses := filter (\<lambda>k. k \<noteq> c) (eclasses e)\<rparr>"

definition toggle_class :: "ustr \<Rightarrow> elem \<Rightarrow> elem" where
  "toggle_class c e = (if has_class c e then remove_class c e else add_class c e)"

definition force_class :: "ustr \<Rightarrow> bool \<Rightarrow> elem \<Rightarrow> elem" where
  "force_class c b e = (if b then add_class c e else remove_class c e)"

definition find_id :: "dom \<Rightarrow> ustr \<Rightarrow> nat option" where
  "find_id d x = find (\<lambda>i. eattrs (node d i) (lit ''id'') = Some x) (order d)"

definition attr_or_empty :: "ustr \<Rightarrow> elem \<Rightarrow> ustr" where
  "attr_or_empty a e = (case eattrs e a of None \<Rightarrow> [] | Some v \<Rightarrow> v)"

definition closest_attr :: "dom \<Rightarrow> nat \<Rightarrow> ustr \<Rightarrow> nat option" where
  "closest_attr d i a = closest d i (has_attr a)"

subsection \<open>Feedback\<close>

definition show_copy_feedback :: "nat \<Rightarrow> ui \<Rightarrow> ui" where
  "show_copy_feedback b s =
     s\<lparr>timers := timers s @ [(clock s + 1600, b, text_content (node (doc s) b))],
       doc := update b (\<lambda>e. add_class (lit ''copy-success'') (set_text (lit ''Copied'') e)) (doc s)\<rparr>"

text \<open>The clock advances by a millisecond; timers that are due fire in the order they were set.\<close>

definition fire_timer :: "nat \<times> nat \<times> ustr \<Rightarrow> dom \<Rightarrow> dom" where
  "fire_timer t d = (case t of (due, b, original) \<Rightarrow>
     update b (\<lambda>e. remove_class (lit ''copy-success'') (set_text original e)) d)"

definition tick :: "ui \<Rightarrow> ui" where
  "tick s =
     (let now = Suc (clock s); due = filter (\<lambda>t. fst t \<le> now) (timers s) in
      s\<lparr>clock := now, timers := filter (\<lambda>t. \<not> fst t \<le> now) (timers s),
        doc := fold fire_timer due (doc s)\<rparr>)"

subsection \<open>The click listener\<close>

definition toggle_sidebar :: "nat \<Rightarrow> dom \<Rightarrow> dom" where
  "toggle_sidebar button d =
     (case find_id d (lit ''app-sidebar'') of
        None \<Rightarrow> update button (set_attr (lit ''aria-expanded'') (lit ''false'')) d
      | Some sidebar \<Rightarrow>
          (let d = update sidebar (toggle_class (lit ''is-open'')) d;
               opened = has_class (lit ''is-open'') (node d sidebar)
           in update button (set_attr (lit ''aria-expanded'')
                (if opened then lit ''true'' else lit ''false'')) d))"

definition stack_mode :: "nat \<Rightarrow> dom \<Rightarrow> dom" where
  "stack_mode button d =
     (let mode = (if eattrs (node d button) (lit ''data-stack-mode'') = Some (lit ''app'')
                  then lit ''app'' else lit ''all'');
          d = (case closest d button (has_class (lit ''stack-card'')) of
                 None \<Rightarrow> d
               | Some c \<Rightarrow> update c (set_attr a_mode mode) d)
      in fold (\<lambda>b. update b (force_class (lit ''is-active'') (b = button)))
           (filter (\<lambda>b. has_attr (lit ''data-stack-mode'') (node d b)) (order d)) d)"

definition copy_value :: "click_env \<Rightarrow> nat \<Rightarrow> dom \<Rightarrow> ustr option" where
  "copy_value env button d =
     (let selector = attr_or_empty (lit ''data-copy-target'') (node d button);
          copy = attr_or_empty (lit ''data-copy'') (node d button)
      in case (if selector = [] then Some None else query_one env selector d) of
           None \<Rightarrow> None
         | Some target \<Rightarrow>
             Some (if copy \<noteq> [] then copy
                   else (case target of None \<Rightarrow> [] | Some t \<Rightarrow> text_content (node d t))))"

text \<open>The buttons, after a confirmation that was not declined; a bad selector throws.\<close>

definition click_copy :: "click_env \<Rightarrow> nat \<Rightarrow> ui \<Rightarrow> ui" where
  "click_copy env target s =
     (case closest (doc s) target
         (\<lambda>e. has_attr (lit ''data-copy'') e \<or> has_attr (lit ''data-copy-target'') e) of
        None \<Rightarrow> s
      | Some button \<Rightarrow>
          if has_clipboard env then
            (case copy_value env button (doc s) of
               None \<Rightarrow> s
             | Some v \<Rightarrow> (emit [WriteClipboard v] s)\<lparr>pending := pending s @ [WriteJob button]\<rparr>)
          else s)"

definition click_buttons :: "click_env \<Rightarrow> nat \<Rightarrow> ui \<Rightarrow> ui" where
  "click_buttons env target s =
     (case closest_attr (doc s) target (lit ''data-stack-mode'') of
        Some button \<Rightarrow> s\<lparr>doc := stack_mode button (doc s)\<rparr>
      | None \<Rightarrow>
          (case closest_attr (doc s) target (lit ''data-copy-url'') of
             Some button \<Rightarrow>
               if has_clipboard env then
                 (let url = attr_or_empty (lit ''data-copy-url'') (node (doc s) button) in
                  (emit [FetchMarkdown url] s)\<lparr>pending := pending s @ [FetchJob button url]\<rparr>)
               else click_copy env target s
           | None \<Rightarrow> click_copy env target s))"

definition on_click :: "click_env \<Rightarrow> nat \<Rightarrow> ui \<Rightarrow> ui" where
  "on_click env target s =
     (case closest_attr (doc s) target (lit ''data-sidebar-toggle'') of
        Some button \<Rightarrow> s\<lparr>doc := toggle_sidebar button (doc s)\<rparr>
      | None \<Rightarrow>
          if closest_attr (doc s) target (lit ''data-history-back'') \<noteq> None then emit [HistoryBack] s
          else
            (case closest_attr (doc s) target (lit ''data-confirm'') of
               None \<Rightarrow> click_buttons env target s
             | Some c \<Rightarrow>
                 (let s = emit [AskConfirm (attr_or_empty (lit ''data-confirm'') (node (doc s) c))] s in
                  if confirm_answer env then click_buttons env target s
                  else emit [PreventDefault] s)))"

subsection \<open>Promises\<close>

text \<open>How a promise settles: the fetch fails, answers with an error or with a text; a write ends.\<close>

datatype outcome = Failed | NotOk | GotText ustr | Written

definition settle :: "nat \<Rightarrow> outcome \<Rightarrow> ui \<Rightarrow> ui" where
  "settle k out s =
     (if length (pending s) \<le> k then s
      else
        let s' = s\<lparr>pending := take k (pending s) @ drop (Suc k) (pending s)\<rparr> in
        (case pending s ! k of
           FetchJob b url \<Rightarrow>
             (case out of
                GotText t \<Rightarrow> (emit [WriteClipboard t] s')\<lparr>pending := pending s' @ [WriteUrlJob b url]\<rparr>
              | _ \<Rightarrow> emit [OpenWindow url] s')
         | WriteUrlJob b url \<Rightarrow>
             (case out of Written \<Rightarrow> show_copy_feedback b s' | _ \<Rightarrow> emit [OpenWindow url] s')
         | WriteJob b \<Rightarrow>
             (case out of Written \<Rightarrow> show_copy_feedback b s' | _ \<Rightarrow> s')))"

subsection \<open>The htmx listeners\<close>

definition csrf_token :: "dom \<Rightarrow> ustr" where
  "csrf_token d =
     (case find (\<lambda>i. etag (node d i) = lit ''meta'' \<and>
             eattrs (node d i) (lit ''name'') = Some (lit ''csrf-token'')) (order d) of
        None \<Rightarrow> []
      | Some i \<Rightarrow> attr_or_empty (lit ''content'') (node d i))"

definition config_request :: "dom \<Rightarrow> (ustr \<rightharpoonup> ustr) \<Rightarrow> (ustr \<rightharpoonup> ustr)" where
  "config_request d headers =
     (let token = csrf_token d in
      if token \<noteq> [] then headers(lit ''X-CSRF-Token'' \<mapsto> token) else headers)"

definition dom_ready :: "('n, 'd) host \<Rightarrow> dom \<Rightarrow> dom" where
  "dom_ready h d = enhance h None d"

definition after_swap :: "('n, 'd) host \<Rightarrow> nat \<Rightarrow> dom \<Rightarrow> dom" where
  "after_swap h target d = enhance h (Some target) d"

definition theme_change :: "('n, 'd) host \<Rightarrow> dom \<Rightarrow> dom" where
  "theme_change h d = sync_theme_controls h None d"

definition response_error :: "dom \<Rightarrow> dom" where
  "response_error d =
     (case find_id d (lit ''flash-region'') of
        None \<Rightarrow> d
      | Some r \<Rightarrow> update r (\<lambda>e. e\<lparr>econtent := [Row [lit ''alert'', lit ''alert-danger'']
          (lit ''The request failed. Your changes may not have been saved.'')]\<rparr>) d)"

subsection \<open>Class lists as sets\<close>

lemma class_simps [simp]:
  "has_class k (add_class c e) \<longleftrightarrow> k = c \<or> has_class k e"
  "has_class k (remove_class c e) \<longleftrightarrow> k \<noteq> c \<and> has_class k e"
  "has_class k (toggle_class c e) \<longleftrightarrow> (if k = c then \<not> has_class c e else has_class k e)"
  "has_class k (force_class c b e) \<longleftrightarrow> (if k = c then b else has_class k e)"
  "has_class k (set_text t e) \<longleftrightarrow> has_class k e"
  "has_class k (set_attr a v e) \<longleftrightarrow> has_class k e"
  by (auto simp: has_class_def add_class_def remove_class_def toggle_class_def force_class_def)

lemma class_frames [simp]:
  "etag (add_class c e) = etag e" "eattrs (add_class c e) = eattrs e"
  "econtent (add_class c e) = econtent e" "evalue (add_class c e) = evalue e"
  "etag (remove_class c e) = etag e" "eattrs (remove_class c e) = eattrs e"
  "econtent (remove_class c e) = econtent e" "evalue (remove_class c e) = evalue e"
  "eattrs (toggle_class c e) = eattrs e" "eattrs (force_class c b e) = eattrs e"
  by (simp_all add: add_class_def remove_class_def toggle_class_def force_class_def)

lemma text_content_class [simp]:
  "text_content (add_class c e) = text_content e" "text_content (remove_class c e) = text_content e"
  by (simp_all add: text_content_def)

lemma emit_simps [simp]:
  "doc (emit es s) = doc s" "pending (emit es s) = pending s" "timers (emit es s) = timers s"
  "clock (emit es s) = clock s" "effects (emit es s) = effects s @ es"
  by (simp_all add: emit_def)

subsection \<open>Stack modes\<close>

lemma fold_force:
  "node (fold (\<lambda>b. update b (force_class c (b = m))) bs d) i =
     ((force_class c (i = m)) ^^ length (filter (\<lambda>b. b = i) bs)) (node d i)"
  by (induction bs arbitrary: d) (auto simp: funpow_swap1)

lemma has_class_funpow:
  "has_class c ((force_class c b ^^ Suc n) e) = b"
  by simp

lemma stack_mode_active:
  assumes "i \<in> set (order d)" and "has_attr (lit ''data-stack-mode'') (node d i)"
  shows "has_class (lit ''is-active'') (node (stack_mode button d) i) \<longleftrightarrow> i = button"
proof -
  define e where "e = (case closest d button (has_class (lit ''stack-card'')) of None \<Rightarrow> d
    | Some c \<Rightarrow> update c (set_attr a_mode (if eattrs (node d button) (lit ''data-stack-mode'') = Some (lit ''app'')
                  then lit ''app'' else lit ''all'')) d)"
  have o: "order e = order d" by (auto simp: e_def split: option.split)
  have a: "has_attr (lit ''data-stack-mode'') (node e i)"
    using assms(2) by (auto simp: e_def has_attr_def split: option.split)
  let ?bs = "filter (\<lambda>b. has_attr (lit ''data-stack-mode'') (node e b)) (order e)"
  have i: "i \<in> set ?bs" using assms(1) a o by simp
  then obtain n where n: "length (filter (\<lambda>b. b = i) ?bs) = Suc n"
    by (metis (mono_tags, lifting) filter_empty_conv length_0_conv not0_implies_Suc)
  have "stack_mode button d = fold (\<lambda>b. update b (force_class (lit ''is-active'') (b = button))) ?bs e"
    by (simp add: stack_mode_def e_def Let_def)
  then have "node (stack_mode button d) i =
      ((force_class (lit ''is-active'') (i = button)) ^^ Suc n) (node e i)"
    by (simp only: fold_force n)
  then show ?thesis by simp
qed

lemma eattrs_funpow [simp]: "eattrs ((force_class c b ^^ n) e) = eattrs e"
  by (induction n) auto

lemma stack_mode_card:
  "closest d button (has_class (lit ''stack-card'')) = Some c \<Longrightarrow>
   eattrs (node (stack_mode button d) c) a_mode =
     Some (if eattrs (node d button) (lit ''data-stack-mode'') = Some (lit ''app'')
           then lit ''app'' else lit ''all'')"
  by (simp add: stack_mode_def Let_def fold_force)

subsection \<open>Timers\<close>

lemma sorted_partition:
  "sorted (map fst ts) \<Longrightarrow> filter (\<lambda>t. fst t \<le> x) ts @ filter (\<lambda>t. \<not> fst t \<le> x) ts = ts"
proof (induction ts)
  case (Cons t ts)
  show ?case
  proof (cases "fst t \<le> x")
    case True
    with Cons show ?thesis by simp
  next
    case False
    then have "\<forall>u \<in> set ts. \<not> fst u \<le> x" using Cons.prems by fastforce
    then have "filter (\<lambda>t. fst t \<le> x) ts = []" "filter (\<lambda>t. \<not> fst t \<le> x) ts = ts"
      by (auto simp: filter_empty_conv filter_id_conv)
    with False show ?thesis by simp
  qed
qed simp

text \<open>Once every timer is due, the document is the one they leave behind, each in its turn.\<close>

lemma ticks_fire_all:
  assumes "sorted (map fst (timers s))" and "\<forall>t \<in> set (timers s). clock s < fst t \<and> fst t \<le> clock s + n"
  shows "doc ((tick ^^ n) s) = fold fire_timer (timers s) (doc s) \<and> timers ((tick ^^ n) s) = []"
  using assms
proof (induction n arbitrary: s)
  case 0
  then have "timers s = []" by (cases "timers s") auto
  then show ?case by simp
next
  case (Suc n)
  let ?t = "tick s"
  have t: "clock ?t = Suc (clock s)" "timers ?t = filter (\<lambda>t. \<not> fst t \<le> Suc (clock s)) (timers s)"
    "doc ?t = fold fire_timer (filter (\<lambda>t. fst t \<le> Suc (clock s)) (timers s)) (doc s)"
    by (simp_all add: tick_def Let_def)
  have "sorted (map fst (timers ?t))" using Suc.prems(1) t(2) by (simp add: sorted_filter)
  moreover have "\<forall>u \<in> set (timers ?t). clock ?t < fst u \<and> fst u \<le> clock ?t + n"
    using Suc.prems(2) t(1,2) by auto
  ultimately have "doc ((tick ^^ n) ?t) = fold fire_timer (timers ?t) (doc ?t)" "timers ((tick ^^ n) ?t) = []"
    using Suc.IH by blast+
  moreover have "fold fire_timer (timers ?t) (doc ?t) =
      fold fire_timer (filter (\<lambda>t. fst t \<le> Suc (clock s)) (timers s) @
        filter (\<lambda>t. \<not> fst t \<le> Suc (clock s)) (timers s)) (doc s)"
    by (simp only: t fold_append comp_apply)
  ultimately show ?case
    using sorted_partition [OF Suc.prems(1)] by (simp add: funpow_swap1)
qed

lemma ticks_quiet:
  "\<forall>t \<in> set (timers s). clock s + n < fst t \<Longrightarrow> (tick ^^ n) s = s\<lparr>clock := clock s + n\<rparr>"
proof (induction n)
  case (Suc n)
  have "\<forall>t \<in> set (timers s). clock s + n < fst t" using Suc.prems by (auto dest: Suc_lessD)
  then have "(tick ^^ n) s = s\<lparr>clock := clock s + n\<rparr>" by (rule Suc.IH)
  moreover have "filter (\<lambda>t. fst t \<le> Suc (clock s + n)) (timers s) = []"
    "filter (\<lambda>t. \<not> fst t \<le> Suc (clock s + n)) (timers s) = timers s"
    using Suc.prems by (auto simp: filter_empty_conv filter_id_conv)
  then have "tick (s\<lparr>clock := clock s + n\<rparr>) = s\<lparr>clock := clock s + Suc n\<rparr>"
    by (simp add: tick_def Let_def \<open>filter (\<lambda>t. fst t \<le> Suc (clock s + n)) (timers s) = []\<close>)
  ultimately show ?case by simp
qed simp

definition label :: "ui \<Rightarrow> nat \<Rightarrow> ustr" where
  "label s b = text_content (node (doc s) b)"

definition copied_mark :: "ui \<Rightarrow> nat \<Rightarrow> bool" where
  "copied_mark s b \<longleftrightarrow> has_class (lit ''copy-success'') (node (doc s) b)"

lemma feedback_fields:
  "clock (show_copy_feedback b s) = clock s"
  "timers (show_copy_feedback b s) = timers s @ [(clock s + 1600, b, label s b)]"
  "label (show_copy_feedback b s) b = lit ''Copied''"
  "copied_mark (show_copy_feedback b s) b"
  by (simp_all add: show_copy_feedback_def label_def copied_mark_def)

lemma fire_timer_self [simp]:
  "text_content (node (fire_timer (t, b, x) d) b) = x"
  "has_class (lit ''copy-success'') (node (fire_timer (t, b, x) d) b) = False"
  by (simp_all add: fire_timer_def)

subsection \<open>Properties\<close>


text \<open>When the same button copies again while its feedback is shown, the label it had is lost:
  the second timer puts "Copied" back for good.\<close>
lemma double_copy_loses_label:
  assumes "timers s = []" and "k < 1600"
  shows "(let t = (tick ^^ k) (show_copy_feedback b s);
              u = (tick ^^ 1600) (show_copy_feedback b t) in
     timers u = [] \<and> label u b = lit ''Copied'' \<and> \<not> copied_mark u b)"
proof -
  let ?s = "show_copy_feedback b s"
  let ?t = "?s\<lparr>clock := clock s + k\<rparr>"
  let ?u = "show_copy_feedback b ?t"
  have t: "(tick ^^ k) ?s = ?t"
    using ticks_quiet [of ?s k] assms by (simp add: feedback_fields)
  have u: "timers ?u = [(clock s + 1600, b, label s b), (clock s + k + 1600, b, lit ''Copied'')]"
    using assms(1) feedback_fields(3) [of b s] by (simp add: feedback_fields(2)) (simp add: label_def)
  have c: "clock ?u = clock s + k" by (simp add: feedback_fields)
  have "doc ((tick ^^ 1600) ?u) = fold fire_timer (timers ?u) (doc ?u) \<and> timers ((tick ^^ 1600) ?u) = []"
    by (rule ticks_fire_all) (use assms u c in auto)
  then show ?thesis by (simp add: t u Let_def) (simp add: label_def copied_mark_def)
qed

text \<open>A click whose confirmation is declined asks, prevents the default action and does
  nothing else: no fetch, no clipboard write, no change of the page. A sidebar or back button
  takes precedence and never asks.\<close>
lemma declined_click:
  assumes "closest_attr (doc s) target (lit ''data-confirm'') = Some c" and "\<not> confirm_answer env"
    and "closest_attr (doc s) target (lit ''data-sidebar-toggle'') = None"
    and "closest_attr (doc s) target (lit ''data-history-back'') = None"
  shows "on_click env target s = s\<lparr>effects := effects s @
    [AskConfirm (attr_or_empty (lit ''data-confirm'') (node (doc s) c)), PreventDefault]\<rparr>"
  using assms by (simp add: on_click_def emit_def Let_def)

text \<open>Whatever is clicked, the default action is prevented at most once and only after a
  declined confirmation, and a click causes at most one fetch, clipboard write or step back.\<close>
lemma click_effects:
  "\<exists>asked done. effects (on_click env target s) = effects s @ asked @ done \<and> length done \<le> 1 \<and>
     (asked = [] \<or> (\<exists>m. asked = [AskConfirm m])) \<and>
     (PreventDefault \<in> set done \<longrightarrow> asked \<noteq> [] \<and> confirm_answer env = False)"
proof -
  have copy: "\<exists>done. effects (click_copy env target u) = effects u @ done \<and> length done \<le> 1 \<and>
      PreventDefault \<notin> set done" for u
    by (auto simp: click_copy_def split: option.split)
  have buttons: "\<exists>done. effects (click_buttons env target u) = effects u @ done \<and> length done \<le> 1 \<and>
      PreventDefault \<notin> set done" for u
    using copy [of u] by (auto simp: click_buttons_def Let_def split: option.split)
  show ?thesis
  proof (cases "closest_attr (doc s) target (lit ''data-sidebar-toggle'') = None \<and>
      closest_attr (doc s) target (lit ''data-history-back'') = None")
    case False
    then show ?thesis
      by (intro exI [of _ "[]"] exI [of _ "if closest_attr (doc s) target (lit ''data-sidebar-toggle'') = None
          then [HistoryBack] else []"])
        (auto simp: on_click_def split: option.split)
  next
    case True
    show ?thesis
    proof (cases "closest_attr (doc s) target (lit ''data-confirm'')")
      case None
      with True buttons [of s] show ?thesis
        by - (rule exI [of _ "[]"], auto simp: on_click_def)
    next
      case (Some c)
      let ?m = "attr_or_empty (lit ''data-confirm'') (node (doc s) c)"
      show ?thesis
      proof (cases "confirm_answer env")
        case False
        with True Some show ?thesis
          by (intro exI [of _ "[AskConfirm ?m]"] exI [of _ "[PreventDefault]"])
            (simp add: on_click_def Let_def)
      next
        case yes: True
        with True Some buttons [of "emit [AskConfirm ?m] s"] show ?thesis
          by - (rule exI [of _ "[AskConfirm ?m]"], auto simp: on_click_def Let_def)
      qed
    qed
  qed
qed

text \<open>After a click on a stack mode button exactly that button is active, on the whole page,
  and the card around it has the button's mode.\<close>
lemma stack_mode_selects:
  assumes "i \<in> set (order d)" and "has_attr (lit ''data-stack-mode'') (node d i)"
  shows "(has_class (lit ''is-active'') (node (stack_mode button d) i) \<longleftrightarrow> i = button) \<and>
    (\<forall>c. closest d button (has_class (lit ''stack-card'')) = Some c \<longrightarrow>
      eattrs (node (stack_mode button d) c) a_mode =
        Some (if eattrs (node d button) (lit ''data-stack-mode'') = Some (lit ''app'')
              then lit ''app'' else lit ''all''))"
  using stack_mode_active [OF assms] stack_mode_card by blast

text \<open>Toggling the sidebar announces its state: \<open>aria-expanded\<close> says whether it is open now,
  and a second click closes or opens it again.\<close>
lemma sidebar_announced:
  assumes "find_id d (lit ''app-sidebar'') = Some b"
  shows "eattrs (node (toggle_sidebar button d) button) (lit ''aria-expanded'') =
      Some (if has_class (lit ''is-open'') (node d b) then lit ''false'' else lit ''true'') \<and>
    has_class (lit ''is-open'') (node (toggle_sidebar button d) b) = (\<not> has_class (lit ''is-open'') (node d b))"
  using assms by (auto simp: toggle_sidebar_def Let_def)

text \<open>A copy from a URL always ends: with the fetched text on the clipboard and feedback, or
  with the document opened in a window, whichever way the fetch and the write turn out.\<close>
lemma copy_url_ends:
  assumes "pending s = [FetchJob b url]"
  shows "(let t = settle 0 out s; u = settle 0 out' t in
     pending u = [] \<and>
     (case out of
        GotText x \<Rightarrow>
          (if out' = Written
           then effects u = effects s @ [WriteClipboard x] \<and> label u b = lit ''Copied''
           else effects u = effects s @ [WriteClipboard x, OpenWindow url])
      | _ \<Rightarrow> effects u = effects s @ [OpenWindow url]))"
  using assms
  by (cases out; cases out') (simp_all add: settle_def Let_def emit_def show_copy_feedback_def label_def)

text \<open>A request carries the token of the page whenever the page has one, and no other header
  is added, changed or dropped.\<close>
lemma csrf_header:
  "config_request d headers (lit ''X-CSRF-Token'') =
     (if csrf_token d = [] then headers (lit ''X-CSRF-Token'') else Some (csrf_token d)) \<and>
   config_request d headers |` (- {lit ''X-CSRF-Token''}) = headers |` (- {lit ''X-CSRF-Token''})"
  by (auto simp: config_request_def Let_def restrict_map_def)

subsection \<open>A page with buttons\<close>

text \<open>A delete link (0) with a confirmation, a stack mode button (1), a copy button (2), the
  sidebar (3).\<close>

fun button_node :: "nat \<Rightarrow> elem" where
  "button_node i =
     \<lparr>etag = lit ''button'', eclasses = [],
      eattrs = (if i = 0 then [lit ''data-confirm'' \<mapsto> lit ''Delete?'']
        else if i = 1 then [lit ''data-stack-mode'' \<mapsto> lit ''app'']
        else if i = 2 then [lit ''data-copy'' \<mapsto> lit ''key'']
        else [lit ''id'' \<mapsto> lit ''app-sidebar'']),
      econtent = [Plain (lit ''Label'')], evalue = []\<rparr>"

definition button_page :: ui where
  "button_page = \<lparr>doc = \<lparr>order = [0, 1, 2, 3], ancestors = (\<lambda>_. []), node = button_node, editors = []\<rparr>,
     clock = 0, timers = [], pending = [], effects = []\<rparr>"

definition declining :: click_env where
  "declining = \<lparr>confirm_answer = False, has_clipboard = True, query_one = (\<lambda>_ _. Some None)\<rparr>"

lemma button_attrs:
  "closest_attr (doc button_page) i a = (if has_attr a (button_node i) then Some i else None)"
  by (simp add: closest_attr_def closest_def button_page_def)

lemma declined_click_witness:
  "effects (on_click declining 0 button_page) = [AskConfirm (lit ''Delete?''), PreventDefault]"
  using declined_click [of button_page 0 0 declining]
  by (simp add: button_attrs has_attr_def declining_def)
     (simp add: button_page_def attr_or_empty_def)

lemma click_effects_witness:
  "\<exists>asked done. effects (on_click declining 2 button_page) = asked @ done \<and> length done \<le> 1"
  using click_effects [of declining 2 button_page] by (auto simp: button_page_def)

lemma stack_mode_selects_witness:
  "has_class (lit ''is-active'') (node (stack_mode 1 (doc button_page)) 1)"
  using stack_mode_selects [of 1 "doc button_page" 1] by (simp add: button_page_def has_attr_def)

lemma sidebar_announced_witness:
  "has_class (lit ''is-open'') (node (toggle_sidebar 1 (doc button_page)) 3)"
proof -
  have f: "find_id (doc button_page) (lit ''app-sidebar'') = Some 3"
    by (simp add: find_id_def button_page_def)
  have "\<not> has_class (lit ''is-open'') (node (doc button_page) 3)"
    by (simp add: button_page_def has_class_def)
  then show ?thesis using sidebar_announced [OF f, of 1] by blast
qed

lemma copy_url_ends_witness:
  "(let s = button_page\<lparr>pending := [FetchJob 2 (lit ''/x.md'')]\<rparr> in
      effects (settle 0 Failed (settle 0 (GotText (lit ''t'')) s)) =
        [WriteClipboard (lit ''t''), OpenWindow (lit ''/x.md'')])"
  using copy_url_ends [of "button_page\<lparr>pending := [FetchJob 2 (lit ''/x.md'')]\<rparr>" 2 "lit ''/x.md''"
      "GotText (lit ''t'')" Failed]
  by (simp add: Let_def button_page_def)


lemma double_copy_loses_label_witness:
  "label ((tick ^^ 1600) (show_copy_feedback 2 ((tick ^^ 500) (show_copy_feedback 2 button_page)))) 2 = lit ''Copied''"
  using double_copy_loses_label [of button_page 500 2] by (simp add: Let_def button_page_def)

end
