(* ===== verification/NetPolicy.thy ===== *)
theory NetPolicy
  imports RustString "HOL-Library.Word"
begin

text \<open>
  \<open>src/net_policy.rs\<close>: which addresses a webhook delivery may contact. Octets and segments
  are words of their width; the reference is a list of CIDR blocks over the address as a
  number. The resolver (DNS) is a parameter.
\<close>

unbundle bit_operations_syntax

datatype ip = V4 "8 word" "8 word" "8 word" "8 word" | V6 "16 word list"

subsection \<open>The checks\<close>

definition is_allowed_v4 :: "8 word \<Rightarrow> 8 word \<Rightarrow> 8 word \<Rightarrow> 8 word \<Rightarrow> bool" where
  "is_allowed_v4 a b c d \<longleftrightarrow> \<not> (
     a = 0 \<or> a = 10 \<or> a = 127 \<or>
     (a = 100 \<and> 64 \<le> b \<and> b \<le> 127) \<or>
     (a = 169 \<and> b = 254) \<or>
     (a = 172 \<and> 16 \<le> b \<and> b \<le> 31) \<or>
     (a = 192 \<and> b = 168) \<or>
     (a = 192 \<and> b = 0 \<and> c = 0) \<or>
     (a = 192 \<and> b = 0 \<and> c = 2) \<or>
     (a = 198 \<and> (b = 18 \<or> b = 19)) \<or>
     (a = 198 \<and> b = 51 \<and> c = 100) \<or>
     (a = 203 \<and> b = 0 \<and> c = 113) \<or>
     224 \<le> a)"

text \<open>\<open>as u8\<close> keeps the low eight bits.\<close>

definition as_u8 :: "16 word \<Rightarrow> 8 word" where
  "as_u8 w = ucast w"

definition is_loopback :: "16 word list \<Rightarrow> bool" where
  "is_loopback s \<longleftrightarrow> s = [0, 0, 0, 0, 0, 0, 0, 1]"

definition is_unspecified :: "16 word list \<Rightarrow> bool" where
  "is_unspecified s \<longleftrightarrow> s = [0, 0, 0, 0, 0, 0, 0, 0]"

definition is_allowed_v6 :: "16 word list \<Rightarrow> bool" where
  "is_allowed_v6 s =
     (if is_loopback s \<or> is_unspecified s then False
      else if take 5 s = [0, 0, 0, 0, 0] \<and> s ! 5 = 0xffff then
        is_allowed_v4 (as_u8 (drop_bit 8 (s ! 6))) (as_u8 (s ! 6))
          (as_u8 (drop_bit 8 (s ! 7))) (as_u8 (s ! 7))
      else if take 6 s = [0, 0, 0, 0, 0, 0] \<and> s ! 6 = 0x64 \<and> s ! 7 = 0xff9b then False
      else \<not> (
        (s ! 0 AND 0xfe00) = 0xfc00 \<or>
        (s ! 0 AND 0xffc0) = 0xfe80 \<or>
        (s ! 0 AND 0xff00) = 0xff00 \<or>
        (s ! 0 = 0x2001 \<and> s ! 1 = 0x0db8) \<or>
        (s ! 0 AND 0xe000) \<noteq> 0x2000))"

fun is_allowed_destination :: "ip \<Rightarrow> bool" where
  "is_allowed_destination (V4 a b c d) = is_allowed_v4 a b c d"
| "is_allowed_destination (V6 s) = is_allowed_v6 s"

datatype policy_error = Resolution ustr | Blocked

definition resolve_allowed_with ::
  "(ustr \<Rightarrow> nat \<Rightarrow> ustr + ip list) \<Rightarrow> ustr \<Rightarrow> nat \<Rightarrow> policy_error + (ip \<times> nat) list" where
  "resolve_allowed_with resolve host port =
     (case resolve host port of
        Inl error \<Rightarrow> Inl (Resolution error)
      | Inr resolved \<Rightarrow>
          (let allowed = map (\<lambda>a. (a, port)) (filter is_allowed_destination resolved) in
           if allowed = [] then Inl Blocked else Inr allowed))"

subsection \<open>The reference: CIDR blocks\<close>

definition v4_value :: "8 word \<Rightarrow> 8 word \<Rightarrow> 8 word \<Rightarrow> 8 word \<Rightarrow> nat" where
  "v4_value a b c d = ((unat a * 256 + unat b) * 256 + unat c) * 256 + unat d"

text \<open>\<open>(n, l)\<close> is the block of the addresses whose first \<open>l\<close> bits are those of \<open>n\<close>.\<close>

definition in_block :: "nat \<Rightarrow> nat \<times> nat \<Rightarrow> bool" where
  "in_block v b \<longleftrightarrow> v div 2 ^ (32 - snd b) = fst b div 2 ^ (32 - snd b)"

definition quad :: "nat \<Rightarrow> nat \<Rightarrow> nat \<Rightarrow> nat \<Rightarrow> nat" where
  "quad a b c d = ((a * 256 + b) * 256 + c) * 256 + d"

text \<open>The special-purpose IPv4 blocks, as the registries write them.\<close>

definition special_blocks :: "(nat \<times> nat) list" where
  "special_blocks =
     [(quad 0 0 0 0, 8), (quad 10 0 0 0, 8), (quad 100 64 0 0, 10), (quad 127 0 0 0, 8),
      (quad 169 254 0 0, 16), (quad 172 16 0 0, 12), (quad 192 0 0 0, 24), (quad 192 0 2 0, 24),
      (quad 192 168 0 0, 16), (quad 198 18 0 0, 15), (quad 198 51 100 0, 24), (quad 203 0 113 0, 24),
      (quad 224 0 0 0, 4), (quad 240 0 0 0, 4)]"

lemma unat8: "unat (w::8 word) < 256"
  using unsigned_less [of w] by simp

lemma octet_div: "d < 256 \<Longrightarrow> (x * 256 + d) div 256 = (x::nat)"
  by simp

lemma octet_shift:
  "(x * 256 + d) div 64 = x * 4 + d div (64::nat)" "(x * 256 + d) div 16 = x * 16 + d div (16::nat)"
  "(x * 256 + d) div 2 = x * 128 + d div (2::nat)"
  by linarith+

lemma quad_div:
  assumes "b < 256" "c < 256" "d < 256"
  shows "quad a b c d div 2 ^ 8 = (a * 256 + b) * 256 + c" "quad a b c d div 2 ^ 16 = a * 256 + b"
    "quad a b c d div 2 ^ 24 = a" "quad a b c d div 2 ^ 22 = a * 4 + b div 64"
    "quad a b c d div 2 ^ 20 = a * 16 + b div 16" "quad a b c d div 2 ^ 17 = a * 128 + b div 2"
    "quad a b c d div 2 ^ 28 = a div 16"
proof -
  have e: "quad a b c d div 2 ^ 8 = (a * 256 + b) * 256 + c"
    using assms octet_div [of d "(a * 256 + b) * 256 + c"] by (simp add: quad_def)
  then show "quad a b c d div 2 ^ 8 = (a * 256 + b) * 256 + c" .
  have "quad a b c d div 2 ^ 16 = quad a b c d div 2 ^ 8 div 256"
    by (simp add: div_mult2_eq [symmetric])
  then show f: "quad a b c d div 2 ^ 16 = a * 256 + b"
    using e assms octet_div [of c "a * 256 + b"] by simp
  have "quad a b c d div 2 ^ 24 = quad a b c d div 2 ^ 16 div 256"
    by (simp add: div_mult2_eq [symmetric])
  then show g: "quad a b c d div 2 ^ 24 = a" using f assms octet_div [of b a] by simp
  have "quad a b c d div 2 ^ 22 = quad a b c d div 2 ^ 16 div 64"
    by (simp add: div_mult2_eq [symmetric])
  then show "quad a b c d div 2 ^ 22 = a * 4 + b div 64" using f octet_shift by simp
  have "quad a b c d div 2 ^ 20 = quad a b c d div 2 ^ 16 div 16"
    by (simp add: div_mult2_eq [symmetric])
  then show "quad a b c d div 2 ^ 20 = a * 16 + b div 16" using f octet_shift by simp
  have "quad a b c d div 2 ^ 17 = quad a b c d div 2 ^ 16 div 2"
    by (simp add: div_mult2_eq [symmetric])
  then show "quad a b c d div 2 ^ 17 = a * 128 + b div 2" using f octet_shift by simp
  have "quad a b c d div 2 ^ 28 = quad a b c d div 2 ^ 24 div 16"
    by (simp add: div_mult2_eq [symmetric])
  then show "quad a b c d div 2 ^ 28 = a div 16" using g by simp
qed

lemma block_at:
  "in_block v (n, 8) \<longleftrightarrow> v div 2 ^ 24 = n div 2 ^ 24"
  "in_block v (n, 16) \<longleftrightarrow> v div 2 ^ 16 = n div 2 ^ 16"
  "in_block v (n, 24) \<longleftrightarrow> v div 2 ^ 8 = n div 2 ^ 8"
  "in_block v (n, 10) \<longleftrightarrow> v div 2 ^ 22 = n div 2 ^ 22"
  "in_block v (n, 12) \<longleftrightarrow> v div 2 ^ 20 = n div 2 ^ 20"
  "in_block v (n, 15) \<longleftrightarrow> v div 2 ^ 17 = n div 2 ^ 17"
  "in_block v (n, 4) \<longleftrightarrow> v div 2 ^ 28 = n div 2 ^ 28"
  by (simp_all add: in_block_def)

lemma digit_eq:
  assumes "x < k" and "y < (k::nat)"
  shows "a * k + x = n * k + y \<longleftrightarrow> a = n \<and> x = y"
proof
  assume e: "a * k + x = n * k + y"
  have "(a * k + x) div k = a" "(n * k + y) div k = n" using assms by simp_all
  then show "a = n \<and> x = y" using e by auto
qed simp

lemma block_cases:
  assumes "b < 256" "c < 256" "d < 256"
  shows "in_block (quad a b c d) (quad n 0 0 0, 8) \<longleftrightarrow> a = n"
    "m < 256 \<Longrightarrow> in_block (quad a b c d) (quad n m 0 0, 16) \<longleftrightarrow> a = n \<and> b = m"
    "m < 256 \<Longrightarrow> k < 256 \<Longrightarrow> in_block (quad a b c d) (quad n m k 0, 24) \<longleftrightarrow> a = n \<and> b = m \<and> c = k"
    "m < 256 \<Longrightarrow> in_block (quad a b c d) (quad n m 0 0, 10) \<longleftrightarrow> a = n \<and> b div 64 = m div 64"
    "m < 256 \<Longrightarrow> in_block (quad a b c d) (quad n m 0 0, 12) \<longleftrightarrow> a = n \<and> b div 16 = m div 16"
    "m < 256 \<Longrightarrow> in_block (quad a b c d) (quad n m 0 0, 15) \<longleftrightarrow> a = n \<and> b div 2 = m div 2"
    "in_block (quad a b c d) (quad n 0 0 0, 4) \<longleftrightarrow> a div 16 = n div 16"
proof -
  note q = quad_div [OF assms, of a]
  have z: "(0::nat) < 256" by simp
  show "in_block (quad a b c d) (quad n 0 0 0, 8) \<longleftrightarrow> a = n"
    unfolding block_at q(3) quad_div(3) [OF z z z] ..
  show "in_block (quad a b c d) (quad n 0 0 0, 4) \<longleftrightarrow> a div 16 = n div 16"
    unfolding block_at q(7) quad_div(7) [OF z z z] ..
  assume m: "m < 256"
  have "a * 256 + b = n * 256 + m \<longleftrightarrow> a = n \<and> b = m" by (rule digit_eq [OF assms(1) m])
  then show e: "in_block (quad a b c d) (quad n m 0 0, 16) \<longleftrightarrow> a = n \<and> b = m"
    unfolding block_at q(2) quad_div(2) [OF m z z] .
  have "a * 4 + b div 64 = n * 4 + m div 64 \<longleftrightarrow> a = n \<and> b div 64 = m div 64"
    by (rule digit_eq) (use assms(1) m in auto)
  then show "in_block (quad a b c d) (quad n m 0 0, 10) \<longleftrightarrow> a = n \<and> b div 64 = m div 64"
    unfolding block_at q(4) quad_div(4) [OF m z z] .
  have "a * 16 + b div 16 = n * 16 + m div 16 \<longleftrightarrow> a = n \<and> b div 16 = m div 16"
    by (rule digit_eq) (use assms(1) m in auto)
  then show "in_block (quad a b c d) (quad n m 0 0, 12) \<longleftrightarrow> a = n \<and> b div 16 = m div 16"
    unfolding block_at q(5) quad_div(5) [OF m z z] .
  have "a * 128 + b div 2 = n * 128 + m div 2 \<longleftrightarrow> a = n \<and> b div 2 = m div 2"
    by (rule digit_eq) (use assms(1) m in auto)
  then show "in_block (quad a b c d) (quad n m 0 0, 15) \<longleftrightarrow> a = n \<and> b div 2 = m div 2"
    unfolding block_at q(6) quad_div(6) [OF m z z] .
  assume k: "k < 256"
  have "(a * 256 + b) * 256 + c = (n * 256 + m) * 256 + k \<longleftrightarrow> a = n \<and> b = m \<and> c = k"
    by (simp only: digit_eq [OF assms(2) k] digit_eq [OF assms(1) m] conj_assoc)
  then show "in_block (quad a b c d) (quad n m k 0, 24) \<longleftrightarrow> a = n \<and> b = m \<and> c = k"
    unfolding block_at q(1) quad_div(1) [OF m k z] .
qed

lemma div_ranges:
  "x div 64 = Suc 0 \<longleftrightarrow> 64 \<le> x \<and> x \<le> 127"
  "x div 16 = Suc 0 \<longleftrightarrow> 16 \<le> x \<and> x \<le> 31"
  "x div 2 = 9 \<longleftrightarrow> x = 18 \<or> x = (19::nat)"
  by auto

lemma div_high: "x < 256 \<Longrightarrow> x div 16 \<noteq> 14 \<and> x div 16 \<noteq> 15 \<longleftrightarrow> \<not> 224 \<le> (x::nat)"
  by auto

lemma allowed_v4_blocks:
  "is_allowed_v4 a b c d \<longleftrightarrow> list_all (\<lambda>blk. \<not> in_block (v4_value a b c d) blk) special_blocks"
proof -
  note bd = unat8 [of b] unat8 [of c] unat8 [of d]
  have v: "v4_value a b c d = quad (unat a) (unat b) (unat c) (unat d)"
    by (simp add: v4_value_def quad_def)
  show ?thesis
    unfolding is_allowed_v4_def v special_blocks_def
    by (simp add: block_cases [OF bd] word_unat_eq_iff word_le_nat_alt div_ranges
        div_high [OF unat8]) (rule iffI; elim conjE; intro conjI; assumption)
qed

subsection \<open>IPv6 prefixes\<close>

lemma seg_mask:
  "((w::16 word) AND 0xfe00) = 0xfc00 \<longleftrightarrow> unat w div 2 ^ 9 = 126"
  "(w AND 0xffc0) = 0xfe80 \<longleftrightarrow> unat w div 2 ^ 6 = 1018"
  "(w AND 0xff00) = 0xff00 \<longleftrightarrow> unat w div 2 ^ 8 = 255"
  "(w AND 0xe000) = 0x2000 \<longleftrightarrow> unat w div 2 ^ 13 = 1"
proof -
  have m: "(w AND NOT (mask n)) = push_bit n k \<longleftrightarrow> unat w div 2 ^ n = unat k"
    if n: "n < 16" "unat k < 2 ^ (16 - n)" for n and k :: "16 word"
  proof -
    have pw: "(2::nat) ^ (16 - n) * 2 ^ n = 2 ^ 16" using n(1) by (simp flip: power_add)
    have u: "unat (push_bit n x) = unat x * 2 ^ n" if "unat x < 2 ^ (16 - n)" for x :: "16 word"
    proof -
      have "unat x * 2 ^ n < 2 ^ (16 - n) * 2 ^ n" using that by simp
      then have "unat x * 2 ^ n < 2 ^ 16" by (simp only: pw)
      then show ?thesis unfolding unsigned_push_bit_eq by (simp add: push_bit_eq_mult take_bit_eq_mod)
    qed
    have d: "unat (drop_bit n w) = unat w div 2 ^ n"
      by (subst unat_drop_bit_eq) (rule drop_bit_eq_div)
    have "unat w < 2 ^ 16" using unsigned_less [of w] by simp
    then have "unat w < 2 ^ n * 2 ^ (16 - n)" using pw by (simp add: mult.commute)
    then have l: "unat (drop_bit n w) < 2 ^ (16 - n)" using d by (simp add: less_mult_imp_div_less mult.commute)
    have "w AND NOT (mask n) = push_bit n (drop_bit n w)"
      by (rule bit_word_eqI) (auto simp: bit_simps)
    then have "(w AND NOT (mask n)) = push_bit n k \<longleftrightarrow> unat (drop_bit n w) * 2 ^ n = unat k * 2 ^ n"
      by (simp add: word_unat_eq_iff u l n)
    then show ?thesis by (simp add: d)
  qed
  have c: "NOT (mask 9) = (0xfe00 :: 16 word)" "NOT (mask 6) = (0xffc0 :: 16 word)"
    "NOT (mask 8) = (0xff00 :: 16 word)" "NOT (mask 13) = (0xe000 :: 16 word)"
    by (simp_all add: mask_numeral)
  show "(w AND 0xfe00) = 0xfc00 \<longleftrightarrow> unat w div 2 ^ 9 = 126" using m [of 9 126, unfolded c] by simp
  show "(w AND 0xffc0) = 0xfe80 \<longleftrightarrow> unat w div 2 ^ 6 = 1018" using m [of 6 1018, unfolded c] by simp
  show "(w AND 0xff00) = 0xff00 \<longleftrightarrow> unat w div 2 ^ 8 = 255" using m [of 8 255, unfolded c] by simp
  show "(w AND 0xe000) = 0x2000 \<longleftrightarrow> unat w div 2 ^ 13 = 1" using m [of 13 1, unfolded c] by simp
qed

text \<open>Global unicast is the one prefix the last condition leaves; the others lie outside of it.\<close>

definition v4_mapped :: "16 word list \<Rightarrow> bool" where
  "v4_mapped s \<longleftrightarrow> take 5 s = [0, 0, 0, 0, 0] \<and> s ! 5 = 0xffff"

definition global_unicast :: "16 word \<Rightarrow> bool" where
  "global_unicast w \<longleftrightarrow> unat w div 2 ^ 13 = 1"

lemma global_unicast_excludes:
  assumes "global_unicast w"
  shows "unat w div 2 ^ 9 \<noteq> 126 \<and> unat w div 2 ^ 6 \<noteq> 1018 \<and> unat w div 2 ^ 8 \<noteq> 255 \<and> w \<noteq> 0"
proof -
  have "unat w < 16384" using assms by (auto simp: global_unicast_def)
  moreover have "8192 \<le> unat w" using assms by (auto simp: global_unicast_def)
  ultimately show ?thesis by auto
qed

lemma allowed_v6_iff:
  assumes "length s = 8"
  shows "is_allowed_v6 s \<longleftrightarrow>
    (if v4_mapped s
     then is_allowed_v4 (as_u8 (drop_bit 8 (s ! 6))) (as_u8 (s ! 6)) (as_u8 (drop_bit 8 (s ! 7))) (as_u8 (s ! 7))
     else global_unicast (s ! 0) \<and> \<not> (s ! 0 = 0x2001 \<and> s ! 1 = 0x0db8))"
proof -
  have z: "s ! 0 = 0" if "take 5 s = [0, 0, 0, 0, 0] \<or> take 6 s = [0, 0, 0, 0, 0, 0] \<or> is_loopback s \<or> is_unspecified s"
    using that assms by (cases s) (auto simp: is_loopback_def is_unspecified_def)
  have ng: "\<not> global_unicast 0" by (simp add: global_unicast_def)
  show ?thesis
  proof (cases "v4_mapped s")
    case True
    then have "\<not> is_loopback s" "\<not> is_unspecified s"
      by (auto simp: v4_mapped_def is_loopback_def is_unspecified_def)
    then show ?thesis using True by (simp add: is_allowed_v6_def v4_mapped_def)
  next
    case False
    show ?thesis
    proof (cases "s ! 0 = 0")
      case True
      have f: "(take 5 s = [0, 0, 0, 0, 0] \<and> s ! 5 = 0xffff) = False"
        using False by (simp add: v4_mapped_def)
      show ?thesis unfolding is_allowed_v6_def f using True False ng by simp
    next
      case nz: False
      then have "\<not> is_loopback s" "\<not> is_unspecified s" "take 5 s \<noteq> [0, 0, 0, 0, 0]"
        "take 6 s \<noteq> [0, 0, 0, 0, 0, 0]" using z by blast+
      then have "is_allowed_v6 s \<longleftrightarrow> \<not> (
        (s ! 0 AND 0xfe00) = 0xfc00 \<or> (s ! 0 AND 0xffc0) = 0xfe80 \<or> (s ! 0 AND 0xff00) = 0xff00 \<or>
        (s ! 0 = 0x2001 \<and> s ! 1 = 0x0db8) \<or> (s ! 0 AND 0xe000) \<noteq> 0x2000)"
        by (simp only: is_allowed_v6_def if_False simp_thms)
      also have "\<dots> \<longleftrightarrow> global_unicast (s ! 0) \<and> \<not> (s ! 0 = 0x2001 \<and> s ! 1 = 0x0db8)"
        unfolding seg_mask using global_unicast_excludes by (auto simp: global_unicast_def)
      finally show ?thesis using False by simp
    qed
  qed
qed

subsection \<open>Properties\<close>


text \<open>An IPv6 destination is allowed exactly when it is a mapped IPv4 address whose IPv4
  address is allowed, or lies in 2000::/3 outside of the documentation prefix 2001:db8::/32. The
  NAT64 prefix 64:ff9b::/96 is refused by that last rule alone: the condition written for it
  tests \<open>::64:ff9b\<close>, and no address is refused because of it.\<close>
lemma v6_policy_exact:
  assumes "length s = 8"
  shows "(is_allowed_destination (V6 s) \<longleftrightarrow>
      (if v4_mapped s
       then is_allowed_v4 (as_u8 (drop_bit 8 (s ! 6))) (as_u8 (s ! 6)) (as_u8 (drop_bit 8 (s ! 7))) (as_u8 (s ! 7))
       else global_unicast (s ! 0) \<and> \<not> (s ! 0 = 0x2001 \<and> s ! 1 = 0x0db8))) \<and>
    (s ! 0 = 0x64 \<and> s ! 1 = 0xff9b \<longrightarrow>
      \<not> is_allowed_destination (V6 s) \<and> \<not> (take 6 s = [0, 0, 0, 0, 0, 0] \<and> s ! 6 = 0x64 \<and> s ! 7 = 0xff9b))"
proof -
  have "\<not> is_allowed_v6 s \<and> take 6 s \<noteq> [0, 0, 0, 0, 0, 0]" if h: "s ! 0 = 0x64"
  proof -
    have "\<not> v4_mapped s" "take 6 s \<noteq> [0, 0, 0, 0, 0, 0]"
      using h by (cases s; auto simp: v4_mapped_def)+
    moreover have "\<not> global_unicast (0x64 :: 16 word)" by (simp add: global_unicast_def)
    ultimately show ?thesis using allowed_v6_iff [OF assms] h by simp
  qed
  then show ?thesis using allowed_v6_iff [OF assms] by simp
qed

lemma v6_policy_exact_witness:
  "\<not> is_allowed_destination (V6 [0x64, 0xff9b, 0, 0, 0, 0, 0x0808, 0x0808]) \<and>
   is_allowed_destination (V6 [0x2606, 0x4700, 0, 0, 0, 0, 0, 1])"
proof -
  let ?nat64 = "[0x64, 0xff9b, 0, 0, 0, 0, 0x0808, 0x0808] :: 16 word list"
  have l: "length ?nat64 = 8" by simp
  from conjunct2 [OF v6_policy_exact [OF l]] have "\<not> is_allowed_destination (V6 ?nat64)" by simp
  moreover have "is_allowed_destination (V6 [0x2606, 0x4700, 0, 0, 0, 0, 0, 1])"
    using v6_policy_exact [of "[0x2606, 0x4700, 0, 0, 0, 0, 0, 1]"]
    by (simp add: v4_mapped_def global_unicast_def)
  ultimately show ?thesis by blast
qed

text \<open>Every address a delivery may connect to came from the resolver, is allowed and carries
  the requested port; the addresses keep their order, and it is an error exactly when there
  are none.\<close>
lemma resolve_allowed_exact:
  "resolve_allowed_with resolve host port =
     (case resolve host port of
        Inl error \<Rightarrow> Inl (Resolution error)
      | Inr ips \<Rightarrow>
          if list_all (\<lambda>a. \<not> is_allowed_destination a) ips then Inl Blocked
          else Inr (map (\<lambda>a. (a, port)) (filter is_allowed_destination ips)))"
  by (auto simp: resolve_allowed_with_def Let_def filter_empty_conv list_all_iff split: sum.split)

end
