(* ===== verification/Tags.thy ===== *)
theory Tags
  imports RustString
begin

text \<open>
  \<open>src/tags.rs\<close>: validation and normalisation of issue tags. Error messages are the texts the
  functions build; a \<open>BTreeMap\<close> is its list of pairs in key order.
\<close>

definition max_tags :: nat where "max_tags = 50"
definition max_tag_len :: nat where "max_tag_len = 64"

definition validate_tag :: "ustr \<Rightarrow> ustr + ustr" where
  "validate_tag raw =
     (let tag = rs_trim raw in
      if tag = [] then Inl (lit ''must not be empty'')
      else if max_tag_len < length tag
        then Inl (lit ''must contain at most '' @ dec max_tag_len @ lit '' characters'')
      else if list_ex (\<lambda>c. rs_ws c \<or> c = 44) tag then Inl (lit ''must not contain whitespace or commas'')
      else Inr tag)"

text \<open>The loop: tags collected so far and the set of tags seen.\<close>

fun normalize_loop :: "ustr list \<Rightarrow> ustr set \<Rightarrow> ustr list \<Rightarrow> ustr + ustr list" where
  "normalize_loop tags seen [] = Inr tags"
| "normalize_loop tags seen (v # vs) =
     (if rs_trim v = [] then normalize_loop tags seen vs
      else (case validate_tag v of
              Inl error \<Rightarrow> Inl (lit ''tag '' @ error)
            | Inr tag \<Rightarrow>
                if tag \<in> seen then normalize_loop tags seen vs
                else normalize_loop (tags @ [tag]) (insert tag seen) vs))"

definition normalize_tags :: "ustr list \<Rightarrow> ustr + ustr list" where
  "normalize_tags raw =
     (case normalize_loop [] {} raw of
        Inl e \<Rightarrow> Inl e
      | Inr tags \<Rightarrow>
          if max_tags < length tags
          then Inl (lit ''must contain at most '' @ dec max_tags @ lit '' tags'')
          else Inr tags)"

definition normalize_comma_separated :: "ustr \<Rightarrow> ustr + ustr list" where
  "normalize_comma_separated input = normalize_tags (split_on 44 input)"

definition labels_from_event_tags :: "(ustr \<times> ustr) list \<Rightarrow> ustr list" where
  "labels_from_event_tags event_tags =
     List.map_filter (\<lambda>(key, value).
       case validate_tag (if value = [] then key else key @ [58] @ value) of
         Inl _ \<Rightarrow> None | Inr tag \<Rightarrow> Some tag) event_tags"

subsection \<open>Valid tags\<close>

definition valid_tag :: "ustr \<Rightarrow> bool" where
  "valid_tag t \<longleftrightarrow> t \<noteq> [] \<and> length t \<le> max_tag_len \<and> list_all (\<lambda>c. \<not> rs_ws c \<and> c \<noteq> 44) t"

lemma valid_trim: "valid_tag t \<Longrightarrow> rs_trim t = t"
  unfolding rs_trim_def
  by (rule strip_id) (auto simp: valid_tag_def list_all_iff)

lemma validate_tag_Inr: "validate_tag raw = Inr t \<longleftrightarrow> t = rs_trim raw \<and> valid_tag t"
  by (auto simp: validate_tag_def valid_tag_def Let_def list_all_iff list_ex_iff)

lemma validate_tag_valid: "valid_tag t \<Longrightarrow> validate_tag t = Inr t"
  by (simp add: validate_tag_Inr valid_trim)

text \<open>First occurrences, in order.\<close>

definition firsts :: "'a list \<Rightarrow> 'a list" where
  "firsts xs = rev (remdups (rev xs))"

lemma firsts_snoc: "firsts (xs @ [x]) = (if x \<in> set xs then firsts xs else firsts xs @ [x])"
  by (simp add: firsts_def)

lemma firsts_simps [simp]: "firsts [] = []" "set (firsts xs) = set xs" "distinct (firsts xs)"
  by (simp_all add: firsts_def)

lemma firsts_distinct: "distinct xs \<Longrightarrow> firsts xs = xs"
  by (simp add: firsts_def distinct_remdups_id)

definition kept :: "ustr list \<Rightarrow> ustr list" where
  "kept raw = filter (\<lambda>t. t \<noteq> []) (map rs_trim raw)"

lemma kept_simps [simp]:
  "kept [] = []" "kept (v # vs) = (if rs_trim v = [] then kept vs else rs_trim v # kept vs)"
  by (simp_all add: kept_def)

lemma normalize_loop_ok:
  "list_all valid_tag (kept raw) \<Longrightarrow> tags = firsts xs \<Longrightarrow> seen = set xs \<Longrightarrow>
   normalize_loop tags seen raw = Inr (firsts (xs @ kept raw))"
proof (induction tags seen raw arbitrary: xs rule: normalize_loop.induct)
  case (2 tags seen v vs)
  show ?case
  proof (cases "rs_trim v = []")
    case True
    then show ?thesis using 2 by simp
  next
    case False
    then have v: "validate_tag v = Inr (rs_trim v)" using 2(4) by (simp add: validate_tag_Inr)
    show ?thesis
    proof (cases "rs_trim v \<in> seen")
      case True
      then have "firsts (xs @ [rs_trim v]) = tags" "set (xs @ [rs_trim v]) = seen"
        using 2(5,6) by (auto simp: firsts_snoc)
      with 2(2) [OF False v True, of "xs @ [rs_trim v]"] False v True 2(4) show ?thesis by simp
    next
      case new: False
      then have "firsts (xs @ [rs_trim v]) = tags @ [rs_trim v]" "set (xs @ [rs_trim v]) = insert (rs_trim v) seen"
        using 2(5,6) by (auto simp: firsts_snoc)
      with 2(3) [OF False v new, of "xs @ [rs_trim v]"] False v new 2(4) show ?thesis by simp
    qed
  qed
qed simp

lemma normalize_loop_Inr:
  "normalize_loop tags seen raw = Inr r \<Longrightarrow> list_all valid_tag (kept raw)"
proof (induction tags seen raw rule: normalize_loop.induct)
  case (2 tags seen v vs)
  show ?case
  proof (cases "rs_trim v = []")
    case True
    then show ?thesis using 2 by simp
  next
    case False
    with 2(4) obtain t where t: "validate_tag v = Inr t" by (auto split: sum.splits)
    then have "valid_tag (rs_trim v)" by (auto simp: validate_tag_Inr)
    moreover have "list_all valid_tag (kept vs)"
      using 2(2) [OF False t] 2(3) [OF False t] 2(4) False t by (auto split: if_splits)
    ultimately show ?thesis using False by simp
  qed
qed simp

subsection \<open>Properties\<close>

text \<open>Normalisation succeeds exactly when every entry that is not blank is a valid tag and at
  most fifty different ones remain, and then returns the first occurrences of the trimmed
  tags, in order.\<close>
lemma normalize_tags_exact:
  "normalize_tags raw = Inr tags \<longleftrightarrow>
     list_all valid_tag (kept raw) \<and> tags = firsts (kept raw) \<and> length tags \<le> 50"
proof -
  have "list_all valid_tag (kept raw) \<Longrightarrow> normalize_loop [] {} raw = Inr (firsts (kept raw))"
    using normalize_loop_ok [of raw "[]" "[]" "{}"] by simp
  moreover have "normalize_loop [] {} raw = Inr r \<Longrightarrow> list_all valid_tag (kept raw)" for r
    by (rule normalize_loop_Inr)
  ultimately show ?thesis
    by (cases "normalize_loop [] {} raw") (auto simp: normalize_tags_def max_tags_def)
qed

lemma normalized:
  assumes "normalize_tags raw = Inr tags"
  shows "list_all valid_tag tags" and "distinct tags" and "length tags \<le> max_tags"
  using assms normalize_loop_ok [of raw "[]" "[]" "{}"] normalize_loop_Inr [of "[]" "{}" raw]
  by (cases "normalize_loop [] {} raw"; force simp: normalize_tags_def list_all_iff split: if_splits)+

text \<open>The operator's comma-separated field round-trips: joining normalised tags with commas
  and parsing the text again gives the same tags.\<close>
lemma tags_roundtrip:
  assumes "normalize_tags raw = Inr tags"
  shows "normalize_comma_separated (join [44] tags) = Inr tags"
proof -
  note v = normalized(1) [OF assms] and d = normalized(2) [OF assms] and l = normalized(3) [OF assms]
  have "\<forall>t \<in> set tags. 44 \<notin> set t" using v by (auto simp: valid_tag_def list_all_iff)
  then have "split_on 44 (join [44] tags) = (if tags = [] then [[]] else tags)" by (simp add: split_on_join)
  moreover have "kept tags = tags"
    using v by (induction tags) (auto simp: valid_trim valid_tag_def)
  moreover have "kept [[]] = []" by (simp add: rs_trim_def strip_def strip_start_def strip_end_def)
  ultimately have k: "kept (split_on 44 (join [44] tags)) = tags" by auto
  then have "normalize_loop [] {} (split_on 44 (join [44] tags)) = Inr tags"
    using normalize_loop_ok [of "split_on 44 (join [44] tags)" "[]" "[]" "{}"] v d
    by (simp add: firsts_distinct)
  then show ?thesis using l by (simp add: normalize_comma_separated_def normalize_tags_def)
qed

lemma tags_roundtrip_witness:
  "normalize_comma_separated (join [44] [lit ''ui'', lit ''crash'']) = Inr [lit ''ui'', lit ''crash'']"
proof (rule tags_roundtrip)
  have v: "valid_tag (lit ''ui'')" "valid_tag (lit ''crash'')"
    by (simp_all add: valid_tag_def lit_def rs_ws_def max_tag_len_def)
  moreover have "lit ''ui'' \<noteq> []" "lit ''crash'' \<noteq> []" by (simp_all add: lit_def)
  ultimately show "normalize_tags [lit ''ui'', lit ''crash'', lit ''ui''] = Inr [lit ''ui'', lit ''crash'']"
    by (simp add: normalize_tags_def validate_tag_valid valid_trim max_tags_def)
qed

text \<open>Labels derived from an event are always valid tags: a malformed event tag is left out
  and never rejects the event.\<close>
lemma labels_valid: "list_all valid_tag (labels_from_event_tags event_tags)"
  by (auto simp: labels_from_event_tags_def List.map_filter_def list_all_iff validate_tag_Inr
      split: sum.splits if_splits)

end
