(* ===== verification/Throttle.thy ===== *)
theory Throttle
  imports Forms
begin

text \<open>
  Login (\<open>login\<close> in \<open>src/handlers.rs\<close>) with the throttle of \<open>src/auth.rs\<close>: the table
  \<open>login_throttle\<close> as a map from the hashed identity, the three statements on it, and the
  handler up to the session it creates. SHA-256 and password verification are parameters; one
  attempt reads one clock.
\<close>

record throttle_row =
  failures :: int
  locked_until :: "int option"

type_synonym throttle = "ustr \<rightharpoonup> throttle_row"

definition login_failure_limit :: int where "login_failure_limit = 5"
definition login_lock_seconds :: int where "login_lock_seconds = 900"

definition login_identity :: "(ustr \<Rightarrow> ustr) \<Rightarrow> ustr \<Rightarrow> ustr" where
  "login_identity hash email = hash (map ascii_lower (rs_trim email))"

definition row_locked :: "int \<Rightarrow> throttle_row option \<Rightarrow> bool" where
  "row_locked now row =
     (case row of
        None \<Rightarrow> False
      | Some r \<Rightarrow> (case locked_until r of None \<Rightarrow> False | Some until \<Rightarrow> now < until))"

definition login_locked :: "(ustr \<Rightarrow> ustr) \<Rightarrow> int \<Rightarrow> throttle \<Rightarrow> ustr \<Rightarrow> bool" where
  "login_locked hash now t email = row_locked now (t (login_identity hash email))"

text \<open>The upsert: the three cases of each \<open>CASE\<close> expression on the row before the update.\<close>

definition failed_row :: "int \<Rightarrow> throttle_row option \<Rightarrow> throttle_row" where
  "failed_row now row =
     (case row of
        None \<Rightarrow> \<lparr>failures = 1, locked_until = None\<rparr>
      | Some r \<Rightarrow>
          (case locked_until r of
             Some until \<Rightarrow>
               if now < until then r
               else \<lparr>failures = 1, locked_until = None\<rparr>
           | None \<Rightarrow>
               \<lparr>failures = failures r + 1,
                locked_until =
                  (if login_failure_limit \<le> failures r + 1 then Some (now + login_lock_seconds)
                   else None)\<rparr>))"

definition login_failure :: "(ustr \<Rightarrow> ustr) \<Rightarrow> int \<Rightarrow> throttle \<Rightarrow> ustr \<Rightarrow> throttle" where
  "login_failure hash now t email =
     (let i = login_identity hash email in t(i \<mapsto> failed_row now (t i)))"

definition login_success :: "(ustr \<Rightarrow> ustr) \<Rightarrow> throttle \<Rightarrow> ustr \<Rightarrow> throttle" where
  "login_success hash t email = t(login_identity hash email := None)"

subsection \<open>The handler\<close>

record login_form =
  lf_csrf :: ustr
  lf_email :: ustr
  lf_password :: ustr

record user_row =
  u_id :: int
  u_email :: ustr
  u_hash :: ustr

text \<open>\<open>COLLATE NOCASE\<close> compares without regard to ASCII case.\<close>

definition find_user :: "user_row list \<Rightarrow> ustr \<Rightarrow> user_row option" where
  "find_user users email =
     find (\<lambda>u. map ascii_lower (u_email u) = map ascii_lower email) users"

definition login ::
  "(ustr \<Rightarrow> ustr) \<Rightarrow> (ustr \<Rightarrow> ustr \<Rightarrow> bool) \<Rightarrow> user_row list \<Rightarrow> int \<Rightarrow> ustr option \<Rightarrow> login_form \<Rightarrow> throttle
     \<Rightarrow> throttle \<times> int app_result" where
  "login hash verify users now cookie form t =
     (let cookie_token = (case cookie of None \<Rightarrow> [] | Some c \<Rightarrow> c) in
      if \<not> secure_eq cookie_token (lf_csrf form) \<or> cookie_token = [] then (t, Inl Forbidden)
      else if login_locked hash now t (lf_email form) then (t, Inl Unauthorized)
      else (case find_user users (rs_trim (lf_email form)) of
              None \<Rightarrow> (login_failure hash now t (lf_email form), Inl Unauthorized)
            | Some u \<Rightarrow>
                if \<not> verify (lf_password form) (u_hash u)
                then (login_failure hash now t (lf_email form), Inl Unauthorized)
                else (login_success hash t (lf_email form), Inr (u_id u))))"

subsection \<open>Runs of wrong guesses\<close>

text \<open>
  A request reaches a password check when its CSRF pair matches and its identity is not locked.
  \<open>guess_times\<close> collects the times of the requests of one identity that do, along a run of the
  handler over requests of any identities.
\<close>

definition csrf_ok :: "ustr option \<Rightarrow> login_form \<Rightarrow> bool" where
  "csrf_ok cookie form =
     (case cookie of None \<Rightarrow> False | Some c \<Rightarrow> c \<noteq> [] \<and> c = lf_csrf form)"

definition guesses :: "(ustr \<Rightarrow> ustr) \<Rightarrow> ustr option \<Rightarrow> ustr \<Rightarrow> int \<Rightarrow> login_form \<Rightarrow> throttle \<Rightarrow> bool" where
  "guesses hash cookie i now form t =
     (login_identity hash (lf_email form) = i \<and> csrf_ok cookie form
        \<and> \<not> login_locked hash now t (lf_email form))"

fun guess_times ::
  "(ustr \<Rightarrow> ustr) \<Rightarrow> (ustr \<Rightarrow> ustr \<Rightarrow> bool) \<Rightarrow> user_row list \<Rightarrow> ustr \<Rightarrow> throttle
     \<Rightarrow> (int \<times> ustr option \<times> login_form) list \<Rightarrow> int list" where
  "guess_times hash verify users i t [] = []"
| "guess_times hash verify users i t ((now, cookie, form) # rs) =
     (if guesses hash cookie i now form t then [now] else [])
       @ guess_times hash verify users i (fst (login hash verify users now cookie form t)) rs"

text \<open>No request of the run has the password of the account its address finds.\<close>

definition wrong_guess :: "(ustr \<Rightarrow> ustr \<Rightarrow> bool) \<Rightarrow> user_row list \<Rightarrow> login_form \<Rightarrow> bool" where
  "wrong_guess verify users form =
     (case find_user users (rs_trim (lf_email form)) of
        None \<Rightarrow> True
      | Some u \<Rightarrow> \<not> verify (lf_password form) (u_hash u))"

text \<open>The row is a function of the checked attempts: the fifth of each round sets the lock.\<close>

definition row_of :: "int list \<Rightarrow> throttle_row option" where
  "row_of es =
     (if es = [] then None
      else Some \<lparr>failures = int ((length es - 1) mod 5) + 1,
                 locked_until = (if length es mod 5 = 0 then Some (last es + 900) else None)\<rparr>)"

lemma failed_row_of:
  assumes "\<not> row_locked now (row_of es)"
  shows "Some (failed_row now (row_of es)) = row_of (es @ [now])"
proof (cases "es = []")
  case True
  then show ?thesis by (simp add: failed_row_def row_of_def)
next
  case False
  then obtain n where n: "length es = Suc n" by (cases es) auto
  show ?thesis
  proof (cases "Suc n mod 5 = 0")
    case True
    then have "n mod 5 = 4" "Suc (Suc n) mod 5 = 1" by presburger+
    moreover have "last es + 900 \<le> now" using assms False n True by (simp add: row_of_def row_locked_def)
    ultimately show ?thesis using False n True
      by (simp add: failed_row_def row_of_def)
  next
    case nz: False
    have "n mod 5 + 1 < 5" using nz by presburger
    then have m: "Suc n mod 5 = n mod 5 + 1" by presburger
    have "5 \<le> int (n mod 5) + 2 \<longleftrightarrow> Suc (Suc n) mod 5 = 0" using nz by presburger
    then show ?thesis using False n nz m
      by (simp add: failed_row_def row_of_def login_failure_limit_def login_lock_seconds_def)
  qed
qed

text \<open>A checked attempt that follows a full round comes 900 seconds after its last one.\<close>

definition spaced :: "int list \<Rightarrow> bool" where
  "spaced es \<longleftrightarrow> sorted es \<and> (\<forall>k. 0 < k \<and> k < length es \<and> k mod 5 = 0 \<longrightarrow> es ! (k - 1) + 900 \<le> es ! k)"

lemma spaced_snoc:
  assumes "spaced es" "\<forall>e \<in> set es. e \<le> t"
    and "0 < length es \<Longrightarrow> length es mod 5 = 0 \<Longrightarrow> es ! (length es - 1) + 900 \<le> t"
  shows "spaced (es @ [t])"
proof -
  have gap: "(es @ [t]) ! (k - 1) + 900 \<le> (es @ [t]) ! k" if "0 < k" "k < length (es @ [t])" "k mod 5 = 0" for k
  proof (cases "k < length es")
    case True
    then have "k - 1 < length es" by simp
    then show ?thesis using True assms(1) that by (simp only: nth_append spaced_def if_True)
  next
    case False
    then have "k = length es" using that by simp
    then show ?thesis using that assms(3) by (simp add: nth_append)
  qed
  have "sorted (es @ [t])" using assms(1,2) by (simp add: spaced_def sorted_append)
  then show ?thesis unfolding spaced_def
  proof (intro conjI allI impI)
    fix k assume "0 < k \<and> k < length (es @ [t]) \<and> k mod 5 = 0"
    then show "(es @ [t]) ! (k - 1) + 900 \<le> (es @ [t]) ! k" by (intro gap) simp_all
  qed
qed

lemma csrf_guard:
  "(\<not> secure_eq (case cookie of None \<Rightarrow> [] | Some c \<Rightarrow> c) (lf_csrf form)
      \<or> (case cookie of None \<Rightarrow> [] | Some c \<Rightarrow> c) = []) \<longleftrightarrow> \<not> csrf_ok cookie form"
  by (cases cookie) (auto simp: csrf_ok_def secure_eq_iff)

lemma login_eq:
  "login hash verify users now cookie form t =
     (if \<not> csrf_ok cookie form then (t, Inl Forbidden)
      else if login_locked hash now t (lf_email form) then (t, Inl Unauthorized)
      else case find_user users (rs_trim (lf_email form)) of
             None \<Rightarrow> (login_failure hash now t (lf_email form), Inl Unauthorized)
           | Some u \<Rightarrow>
               if \<not> verify (lf_password form) (u_hash u)
               then (login_failure hash now t (lf_email form), Inl Unauthorized)
               else (login_success hash t (lf_email form), Inr (u_id u)))"
  unfolding login_def Let_def csrf_guard by (rule refl)

lemma login_other:
  "login_identity hash (lf_email form) \<noteq> i \<Longrightarrow> fst (login hash verify users now cookie form t) i = t i"
  by (simp add: login_eq login_failure_def login_success_def Let_def split: option.split)

lemma login_wrong:
  assumes "wrong_guess verify users form" "login_identity hash (lf_email form) = i"
  shows "fst (login hash verify users now cookie form t) i =
    (if guesses hash cookie i now form t then Some (failed_row now (t i)) else t i)"
  using assms
  by (auto simp: login_eq login_failure_def wrong_guess_def guesses_def Let_def split: option.splits)

lemma guess_times_spaced:
  assumes "t i = row_of es" "spaced es" "\<forall>e \<in> set es. \<forall>r \<in> set rs. e \<le> fst r" "sorted (map fst rs)"
    and "\<forall>(now, cookie, form) \<in> set rs.
           login_identity hash (lf_email form) = i \<longrightarrow> wrong_guess verify users form"
  shows "spaced (es @ guess_times hash verify users i t rs)"
  using assms
proof (induction rs arbitrary: t es)
  case (Cons r rs)
  obtain now cookie form where r: "r = (now, cookie, form)" by (cases r)
  let ?t = "fst (login hash verify users now cookie form t)"
  show ?case
  proof (cases "guesses hash cookie i now form t")
    case True
    then have idn: "login_identity hash (lf_email form) = i" and free: "\<not> row_locked now (row_of es)"
      using Cons.prems(1) by (auto simp: guesses_def login_locked_def)
    have "wrong_guess verify users form" using Cons.prems(5) r idn by auto
    then have row: "?t i = row_of (es @ [now])"
      using login_wrong [OF _ idn, of verify users now cookie t] True Cons.prems(1) failed_row_of [OF free] by simp
    have le: "\<forall>e \<in> set es. e \<le> now" using Cons.prems(3) r by auto
    have "es ! (length es - 1) + 900 \<le> now" if "0 < length es" "length es mod 5 = 0"
      using free that by (simp add: row_of_def row_locked_def last_conv_nth)
    then have sp: "spaced (es @ [now])" by (rule spaced_snoc [OF Cons.prems(2) le])
    have "spaced ((es @ [now]) @ guess_times hash verify users i ?t rs)"
      by (rule Cons.IH, rule row, rule sp) (use Cons.prems r in auto)
    then show ?thesis using True r by simp
  next
    case False
    have row: "?t i = row_of es"
    proof (cases "login_identity hash (lf_email form) = i")
      case True
      then have "wrong_guess verify users form" using Cons.prems(5) r by auto
      then show ?thesis using login_wrong [OF _ True, of verify users now cookie t] False Cons.prems(1) by simp
    qed (simp add: login_other Cons.prems(1))
    have "spaced (es @ guess_times hash verify users i ?t rs)"
      by (rule Cons.IH, rule row) (use Cons.prems r in auto)
    then show ?thesis using False r by simp
  qed
qed simp

lemma spaced_window:
  assumes "spaced es" "j + 5 < length es"
  shows "es ! j + 900 \<le> es ! (j + 5)"
proof -
  define k where "k = j + 5 - j mod 5"
  have k: "0 < k" "k mod 5 = 0" "j \<le> k - 1" "k \<le> j + 5"
    unfolding k_def by presburger+
  then have "es ! j \<le> es ! (k - 1)" "es ! (k - 1) + 900 \<le> es ! k" "es ! k \<le> es ! (j + 5)"
    using assms by (auto simp: spaced_def intro: sorted_nth_mono)
  then show ?thesis by linarith
qed

lemma spaced_Nil [simp]: "spaced []" by (simp add: spaced_def)


definition sample_form :: login_form where
  "sample_form = \<lparr>lf_csrf = lit ''k'', lf_email = lit ''a@b'', lf_password = lit ''guess''\<rparr>"

definition sample_user :: user_row where
  "sample_user = \<lparr>u_id = 1, u_email = lit ''a@B'', u_hash = []\<rparr>"

definition sample_requests :: "(int \<times> ustr option \<times> login_form) list" where
  "sample_requests = map (\<lambda>n. (n, Some (lit ''k''), sample_form)) [0, 1, 2, 3, 4, 5, 903, 904]"

lemma sample_identity: "login_identity id (lf_email sample_form) = lit ''a@b''"
  by (simp add: login_identity_def sample_form_def lit_def strip_def strip_start_def strip_end_def rs_trim_def
    rs_ws_def char_class_defs)

lemma sample_csrf: "csrf_ok (Some (lit ''k'')) sample_form"
  by (simp add: csrf_ok_def sample_form_def lit_def)

lemma sample_guess_times:
  "guess_times id (\<lambda>_ _. False) [] (lit ''a@b'') Map.empty sample_requests = [0, 1, 2, 3, 4, 904]"
  by (simp add: sample_requests_def sample_identity sample_csrf login_eq guesses_def login_locked_def
    row_locked_def login_failure_def failed_row_def find_user_def login_failure_limit_def
    login_lock_seconds_def Let_def)


text \<open>The handler outside its failures: a wrong or missing CSRF pair is refused with nothing
  recorded, a locked identity with nothing recorded and without looking at accounts or passwords
  (the result is the same for every table and verifier), and a session is created exactly for
  the account the trimmed address finds, whose password verifies, with the throttle row cleared.
\<close>

lemma login_outcomes:
  "if \<not> csrf_ok cookie form
   then login hash verify users now cookie form t = (t, Inl Forbidden)
   else if login_locked hash now t (lf_email form)
   then login hash verify users now cookie form t = (t, Inl Unauthorized)
   else (case snd (login hash verify users now cookie form t) of
           Inl e \<Rightarrow> e = Unauthorized \<and> wrong_guess verify users form
             \<and> fst (login hash verify users now cookie form t) = login_failure hash now t (lf_email form)
         | Inr uid \<Rightarrow>
             (\<exists>u. find_user users (rs_trim (lf_email form)) = Some u \<and> u_id u = uid
                \<and> verify (lf_password form) (u_hash u))
             \<and> fst (login hash verify users now cookie form t) = login_success hash t (lf_email form))"
  by (simp add: login_eq wrong_guess_def split: option.split)

text \<open>Every spelling of an address that finds an account counts against that account: the identity
  is a function of the account, whatever the case and the white space of the address.
\<close>

lemma login_identity_of_account:
  assumes "find_user users (rs_trim email) = Some u"
  shows "login_identity hash email = hash (map ascii_lower (u_email u))"
  using assms by (auto simp: find_user_def login_identity_def find_Some_iff)

lemma login_identity_of_account_witness:
  "login_identity id (lit '' A@b '') = id (map ascii_lower (u_email sample_user))"
proof (rule login_identity_of_account)
  show "find_user [sample_user] (rs_trim (lit '' A@b '')) = Some sample_user" by code_simp
qed

end
