(* ===== verification/Css.thy ===== *)
theory Css
  imports Prelude
begin

text \<open>
  Style sheets with custom properties, as far as the themes of the API reference use them: rules
  with selector lists, declarations (important or not) whose values name other custom properties,
  and at-rules. The cascade (importance, specificity, order), inheritance and the substitution of
  \<open>var()\<close> follow the CSS specifications; a reference cycle makes a value invalid.
\<close>

datatype piece = T string | V string
type_synonym css_value = "piece list"

datatype css_decl = Decl string css_value | Important string css_value

type_synonym compound = "string list"
type_synonym selector = "compound list"

datatype css = Rule "selector list" "css_decl list" | At string "css list" | Face "css_decl list"

definition dquote :: char where "dquote = CHR 34"

subsection \<open>Matching\<close>

text \<open>
  A node is the list of the simple selectors it satisfies; a path is a node and its ancestors,
  innermost first.
\<close>

type_synonym node = "string list"

definition matches_compound :: "compound \<Rightarrow> node \<Rightarrow> bool" where
  "matches_compound c n = list_all (\<lambda>s. s = ''*'' \<or> List.member n s) c"

fun matches_above :: "selector \<Rightarrow> node list \<Rightarrow> bool" where
  "matches_above [] anc = True"
| "matches_above (c # cs) [] = False"
| "matches_above (c # cs) (n # anc) =
     (if matches_compound c n \<and> matches_above cs anc then True else matches_above (c # cs) anc)"

fun matches :: "selector \<Rightarrow> node list \<Rightarrow> bool" where
  "matches s [] = False"
| "matches s (n # anc) =
     (case rev s of [] \<Rightarrow> False | c # cs \<Rightarrow> matches_compound c n \<and> matches_above cs anc)"

text \<open>Specificity: classes and pseudo-classes, then types and pseudo-elements.\<close>

definition simple_weight :: "string \<Rightarrow> nat \<times> nat" where
  "simple_weight s =
     (if s = ''*'' then (0, 0)
      else if take 2 s = ''::'' \<or> s = '':before'' \<or> s = '':after'' then (0, 1)
      else if take 1 s = ''.'' \<or> take 1 s = '':'' then (1, 0)
      else (0, 1))"

definition weight :: "selector \<Rightarrow> nat \<times> nat" where
  "weight s =
     foldr (\<lambda>x w. (fst (simple_weight x) + fst w, snd (simple_weight x) + snd w)) (concat s) (0, 0)"

definition weight_less :: "nat \<times> nat \<Rightarrow> nat \<times> nat \<Rightarrow> bool" where
  "weight_less v w \<longleftrightarrow> fst v < fst w \<or> (fst v = fst w \<and> snd v < snd w)"

text \<open>The weight with which a rule applies: the greatest one of its selectors that match.\<close>

definition rule_weight :: "selector list \<Rightarrow> node list \<Rightarrow> (nat \<times> nat) option" where
  "rule_weight ss path =
     foldl (\<lambda>b s. if matches s path
                  then (case b of None \<Rightarrow> Some (weight s)
                        | Some w \<Rightarrow> if weight_less w (weight s) then Some (weight s) else b)
                  else b) None ss"

subsection \<open>The cascade\<close>

record entry =
  e_important :: bool
  e_weight :: "nat \<times> nat"
  e_name :: string
  e_value :: css_value

fun entry_of :: "nat \<times> nat \<Rightarrow> css_decl \<Rightarrow> entry" where
  "entry_of w (Decl n v) = \<lparr>e_important = False, e_weight = w, e_name = n, e_value = v\<rparr>"
| "entry_of w (Important n v) = \<lparr>e_important = True, e_weight = w, e_name = n, e_value = v\<rparr>"

text \<open>
  Conditional groups apply when their prelude holds; the contents of \<open>@keyframes\<close> never apply
  to an element, and the rules of \<open>@layer\<close> apply in order within their one layer.
\<close>

fun matched :: "(string \<Rightarrow> bool) \<Rightarrow> node list \<Rightarrow> css \<Rightarrow> entry list" where
  "matched holds path (Rule ss ds) =
     (case rule_weight ss path of None \<Rightarrow> [] | Some w \<Rightarrow> map (entry_of w) ds)"
| "matched holds path (At p body) =
     (if holds p then concat (map (matched holds path) body) else [])"
| "matched holds path (Face ds) = []"

definition entries :: "(string \<Rightarrow> bool) \<Rightarrow> css list \<Rightarrow> node list \<Rightarrow> entry list" where
  "entries holds sheet path = concat (map (matched holds path) sheet)"

definition stronger :: "entry \<Rightarrow> entry \<Rightarrow> bool" where
  "stronger a b \<longleftrightarrow>
     (if e_important a = e_important b then weight_less (e_weight b) (e_weight a) else e_important a)"

fun strongest :: "entry list \<Rightarrow> entry option" where
  "strongest [] = None"
| "strongest (e # es) =
     (case strongest es of None \<Rightarrow> Some e | Some f \<Rightarrow> Some (if stronger e f then e else f))"

definition winner :: "string \<Rightarrow> entry list \<Rightarrow> css_value option" where
  "winner name es = map_option e_value (strongest (filter (\<lambda>e. e_name e = name) es))"

subsection \<open>Substitution\<close>

definition refs :: "css_value \<Rightarrow> string list" where
  "refs v = concat (map (\<lambda>p. case p of V x \<Rightarrow> [x] | T t \<Rightarrow> []) v)"

text \<open>
  \<open>inherited\<close> holds the parent's values; a name declared on the node itself takes the winning
  declaration, with the names under substitution in \<open>busy\<close>. The first argument bounds the depth;
  the number of declarations of the node is always enough.
\<close>

fun resolve :: "nat \<Rightarrow> entry list \<Rightarrow> (string \<Rightarrow> string option) \<Rightarrow> string list \<Rightarrow> string \<Rightarrow> string option" where
  "resolve 0 es inherited busy x = None"
| "resolve (Suc n) es inherited busy x =
     (if List.member busy x then None
      else (case winner x es of
              None \<Rightarrow> inherited x
            | Some v \<Rightarrow>
                map_option concat
                  (those (map (\<lambda>p. case p of T t \<Rightarrow> Some t | V y \<Rightarrow> resolve n es inherited (x # busy) y) v))))"

definition resolved :: "entry list \<Rightarrow> (string \<Rightarrow> string option) \<Rightarrow> string \<Rightarrow> string option" where
  "resolved es inherited x = resolve (Suc (length es)) es inherited [] x"

fun computed :: "(string \<Rightarrow> bool) \<Rightarrow> css list \<Rightarrow> node list \<Rightarrow> string \<Rightarrow> string option" where
  "computed holds sheet [] x = None"
| "computed holds sheet (n # anc) x =
     resolved (entries holds sheet (n # anc)) (computed holds sheet anc) x"

subsection \<open>The bound on the depth\<close>

lemma winner_name:
  assumes "winner x es = Some v"
  shows "x \<in> e_name ` set es"
proof (rule ccontr)
  assume "x \<notin> e_name ` set es"
  then have "filter (\<lambda>e. e_name e = x) es = []" by (auto simp: filter_empty_conv)
  then show False using assms by (simp add: winner_def)
qed

lemma resolve_more:
  "card (e_name ` set es - set busy) < n \<Longrightarrow> resolve (Suc n) es inherited busy x = resolve n es inherited busy x"
proof (induction n arbitrary: busy x)
  case (Suc n)
  show ?case
  proof (cases "x \<in> set busy \<or> winner x es = None")
    case False
    then obtain v where v: "winner x es = Some v" and x: "x \<in> e_name ` set es - set busy"
      using winner_name by auto
    have "e_name ` set es - set (x # busy) = e_name ` set es - set busy - {x}" by auto
    then have "card (e_name ` set es - set (x # busy)) < n"
      using Suc.prems card_Diff1_less [OF _ x] by (simp only:) auto
    then have "resolve (Suc n) es inherited (x # busy) y = resolve n es inherited (x # busy) y" for y
      by (rule Suc.IH)
    then show ?thesis using v False
      by (subst (1 2) resolve.simps(2)) (auto cong: map_cong piece.case_cong)
  qed auto
qed simp

lemma resolved_enough:
  assumes "length es \<le> n"
  shows "resolve (Suc n) es inherited [] x = resolved es inherited x"
proof -
  have "card (e_name ` set es) \<le> length es"
    by (metis card_length list.set_map length_map)
  then have "resolve (Suc (length es + k)) es inherited [] x = resolved es inherited x" for k
    using resolve_more [of es "[]"] by (induction k) (auto simp: resolved_def)
  from this [of "n - length es"] assms show ?thesis by simp
qed

end
