(* ===== verification/ThemeSheets1.thy ===== *)
theory ThemeSheets1
  imports Css
begin

text \<open>
  The preset themes of the API reference (\<open>docs/scalar/scalar.standalone.js\<close>), first part: each
  constant is the style sheet its template literal holds, without comments and white space.
\<close>

definition css_alternate :: "css list" where
  "css_alternate =
   [Rule [[['':root'']]]
      [Decl ''--scalar-text-decoration'' [T ''underline''],
       Decl ''--scalar-text-decoration-hover'' [T ''underline'']],
    Rule [[[''.dark-mode'']]]
      [Decl ''--scalar-background-1'' [T ''#131313''],
       Decl ''--scalar-background-2'' [T ''#1d1d1d''],
       Decl ''--scalar-background-3'' [T ''#272727''],
       Decl ''--scalar-background-card'' [T ''#1d1d1d''],
       Decl ''--scalar-color-1'' [T ''rgba(255, 255, 255, 0.9)''],
       Decl ''--scalar-color-2'' [T ''rgba(255, 255, 255, 0.62)''],
       Decl ''--scalar-color-3'' [T ''rgba(255, 255, 255, 0.44)''],
       Decl ''--scalar-color-accent'' [V ''--scalar-color-1''],
       Decl ''--scalar-background-accent'' [V ''--scalar-background-3''],
       Decl ''--scalar-border-color'' [T ''#2a2b2a'']],
    Rule [[[''.light-mode'']], [[''.light-mode''], [''.dark-mode'']]]
      [Decl ''--scalar-background-1'' [T ''#f9f9f9''],
       Decl ''--scalar-background-2'' [T ''#f1f1f1''],
       Decl ''--scalar-background-3'' [T ''#e7e7e7''],
       Decl ''--scalar-background-card'' [T ''#fff''],
       Decl ''--scalar-color-1'' [T ''#1b1b1b''],
       Decl ''--scalar-color-2'' [T ''#757575''],
       Decl ''--scalar-color-3'' [T ''#8e8e8e''],
       Decl ''--scalar-color-accent'' [V ''--scalar-color-1''],
       Decl ''--scalar-background-accent'' [V ''--scalar-background-3''],
       Decl ''--scalar-border-color'' [T ''rgba(0, 0, 0, 0.1)'']],
    Rule [[[''.t-doc__sidebar'']]]
      [Decl ''--scalar-color-green'' [V ''--scalar-color-1''],
       Decl ''--scalar-color-red'' [V ''--scalar-color-1''],
       Decl ''--scalar-color-yellow'' [V ''--scalar-color-1''],
       Decl ''--scalar-color-blue'' [V ''--scalar-color-1''],
       Decl ''--scalar-color-orange'' [V ''--scalar-color-1''],
       Decl ''--scalar-color-purple'' [V ''--scalar-color-1''],
       Decl ''--scalar-color-query'' [V ''--scalar-color-1'']],
    Rule [[[''.light-mode''], [''.t-doc__sidebar'']], [[''.dark-mode''], [''.t-doc__sidebar'']]]
      [Decl ''--scalar-sidebar-background-1'' [V ''--scalar-background-1''],
       Decl ''--scalar-sidebar-color-1'' [V ''--scalar-color-1''],
       Decl ''--scalar-sidebar-color-2'' [V ''--scalar-color-2''],
       Decl ''--scalar-sidebar-border-color'' [V ''--scalar-border-color''],
       Decl ''--scalar-sidebar-item-hover-background'' [V ''--scalar-background-2''],
       Decl ''--scalar-sidebar-item-hover-color'' [T ''currentColor''],
       Decl ''--scalar-sidebar-item-active-background'' [V ''--scalar-background-accent''],
       Decl ''--scalar-sidebar-color-active'' [V ''--scalar-color-accent''],
       Decl ''--scalar-sidebar-search-background'' [T ''transparent''],
       Decl ''--scalar-sidebar-search-color'' [V ''--scalar-color-3''],
       Decl ''--scalar-sidebar-search-border-color'' [V ''--scalar-border-color'']],
    Rule [[[''.light-mode''], [''.dark-mode'']], [[''.light-mode'']]]
      [Decl ''--scalar-color-green'' [T ''#069061''],
       Decl ''--scalar-color-red'' [T ''#ef0006''],
       Decl ''--scalar-color-yellow'' [T ''#edbe20''],
       Decl ''--scalar-color-blue'' [T ''#0082d0''],
       Decl ''--scalar-color-orange'' [T ''#fb892c''],
       Decl ''--scalar-color-purple'' [T ''#5203d1''],
       Decl ''--scalar-color-query'' [T ''#007b80''],
       Decl ''--scalar-button-1'' [T ''rgba(0, 0, 0, 1)''],
       Decl ''--scalar-button-1-hover'' [T ''rgba(0, 0, 0, 0.8)''],
       Decl ''--scalar-button-1-color'' [T ''#fff'']],
    Rule [[[''.dark-mode'']]]
      [Decl ''--scalar-color-green'' [T ''#00b648''],
       Decl ''--scalar-color-red'' [T ''#dd2f2c''],
       Decl ''--scalar-color-yellow'' [T ''#ffc90d''],
       Decl ''--scalar-color-blue'' [T ''#4eb3ec''],
       Decl ''--scalar-color-orange'' [T ''#ff8d4d''],
       Decl ''--scalar-color-purple'' [T ''#b191f9''],
       Decl ''--scalar-color-query'' [T ''#65d4cf''],
       Decl ''--scalar-button-1'' [T ''rgba(255, 255, 255, 1)''],
       Decl ''--scalar-button-1-hover'' [T ''rgba(255, 255, 255, 0.9)''],
       Decl ''--scalar-button-1-color'' [T ''black'']],
    Rule [[[''.scalar-api-client__item'']],
       [[''.scalar-card'']],
       [[''.dark-mode''], [''.dark-mode'', ''.scalar-card'']]]
      [Decl ''--scalar-background-1'' [V ''--scalar-background-card''],
       Decl ''--scalar-background-2'' [V ''--scalar-background-1''],
       Decl ''--scalar-background-3'' [V ''--scalar-background-1'']],
    Rule [[[''.dark-mode''], [''.dark-mode'', ''.scalar-card'']]]
      [Decl ''--scalar-background-3'' [V ''--scalar-background-3'']],
    Rule [[[''.light-mode''], [''*'', ''::selection'']]]
      [Decl ''background-color'' [T ''color-mix(in srgb, '', V ''--scalar-color-blue'', T '', transparent 70%)'']],
    Rule [[[''.dark-mode''], [''*'', ''::selection'']]]
      [Decl ''background-color'' [T ''color-mix(in srgb, '', V ''--scalar-color-blue'', T '', transparent 50%)'']]]"

definition css_blue_planet_1 :: "css list" where
  "css_blue_planet_1 =
   [Rule [[['':root'']]]
      [Decl ''--scalar-text-decoration'' [T ''underline''],
       Decl ''--scalar-text-decoration-hover'' [T ''underline'']],
    Rule [[[''.light-mode'']]]
      [Decl ''--scalar-background-1'' [T ''#f0f2f5''],
       Decl ''--scalar-background-2'' [T ''#eaecf0''],
       Decl ''--scalar-background-3'' [T ''#e0e2e6''],
       Decl ''--scalar-border-color'' [T ''rgb(213 213 213)''],
       Decl ''--scalar-color-1'' [T ''rgb(9, 9, 11)''],
       Decl ''--scalar-color-2'' [T ''rgb(113, 113, 122)''],
       Decl ''--scalar-color-3'' [T ''rgba(25, 25, 28, 0.5)''],
       Decl ''--scalar-color-accent'' [V ''--scalar-color-1''],
       Decl ''--scalar-background-accent'' [T ''#8ab4f81f'']],
    Rule [[[''.light-mode''], [''.scalar-card'', ''.dark-mode'']], [[''.dark-mode'']]]
      [Decl ''--scalar-background-1'' [T ''#000e23''],
       Decl ''--scalar-background-2'' [T ''#01132e''],
       Decl ''--scalar-background-3'' [T ''#03193b''],
       Decl ''--scalar-border-color'' [T ''#2e394c''],
       Decl ''--scalar-color-1'' [T ''#fafafa''],
       Decl ''--scalar-color-2'' [T ''rgb(161, 161, 170)''],
       Decl ''--scalar-color-3'' [T ''rgba(255, 255, 255, 0.533)''],
       Decl ''--scalar-color-accent'' [V ''--scalar-color-1''],
       Decl ''--scalar-background-accent'' [T ''#8ab4f81f''],
       Decl ''--scalar-code-language-color-supersede'' [V ''--scalar-color-1'']],
    Rule [[[''.light-mode''], [''.t-doc__sidebar'']], [[''.dark-mode''], [''.t-doc__sidebar'']]]
      [Decl ''--scalar-sidebar-background-1'' [V ''--scalar-background-1''],
       Decl ''--scalar-sidebar-color-1'' [V ''--scalar-color-1''],
       Decl ''--scalar-sidebar-color-2'' [V ''--scalar-color-2''],
       Decl ''--scalar-sidebar-border-color'' [V ''--scalar-border-color''],
       Decl ''--scalar-sidebar-item-hover-background'' [V ''--scalar-background-2''],
       Decl ''--scalar-sidebar-item-hover-color'' [T ''currentColor''],
       Decl ''--scalar-sidebar-item-active-background'' [V ''--scalar-background-3''],
       Decl ''--scalar-sidebar-color-active'' [V ''--scalar-color-accent''],
       Decl ''--scalar-sidebar-search-background'' [T ''rgba(255, 255, 255, 0.1)''],
       Decl ''--scalar-sidebar-search-border-color'' [V ''--scalar-border-color''],
       Decl ''--scalar-sidebar-search-color'' [V ''--scalar-color-3''],
       Decl ''z-index'' [T ''1'']],
    Rule [[[''.light-mode''], [''.t-doc__sidebar'']]]
      [Decl ''--scalar-sidebar-search-background'' [T ''white'']],
    Rule [[[''.light-mode'']]]
      [Decl ''--scalar-color-green'' [T ''#069061''],
       Decl ''--scalar-color-red'' [T ''#ef0006''],
       Decl ''--scalar-color-yellow'' [T ''#edbe20''],
       Decl ''--scalar-color-blue'' [T ''#0082d0''],
       Decl ''--scalar-color-orange'' [T ''#fb892c''],
       Decl ''--scalar-color-purple'' [T ''#5203d1''],
       Decl ''--scalar-color-query'' [T ''#007b80''],
       Decl ''--scalar-button-1'' [T ''rgba(0, 0, 0, 1)''],
       Decl ''--scalar-button-1-hover'' [T ''rgba(0, 0, 0, 0.8)''],
       Decl ''--scalar-button-1-color'' [T ''#fff'']],
    Rule [[[''.dark-mode'']]]
      [Decl ''--scalar-color-green'' [T ''rgba(69, 255, 165, 0.823)''],
       Decl ''--scalar-color-red'' [T ''#ff8589''],
       Decl ''--scalar-color-yellow'' [T ''#ffcc4d''],
       Decl ''--scalar-color-blue'' [T ''#6bc1fe''],
       Decl ''--scalar-color-orange'' [T ''#f98943''],
       Decl ''--scalar-color-purple'' [T ''#b191f9''],
       Decl ''--scalar-color-query'' [T ''#79e2da''],
       Decl ''--scalar-button-1'' [T ''rgba(255, 255, 255, 1)''],
       Decl ''--scalar-button-1-hover'' [T ''rgba(255, 255, 255, 0.9)''],
       Decl ''--scalar-button-1-color'' [T ''black'']],
    At ''@keyframes headerbackground''
     [Rule [[[''from'']]]
        [Decl ''background'' [T ''transparent''],
         Decl ''backdrop-filter'' [T ''none'']],
      Rule [[[''to'']]]
        [Decl ''background'' [V ''--scalar-header-background-1''],
         Decl ''backdrop-filter'' [T ''blur(12px)'']]],
    Rule [[[''.light-mode''], [''.t-doc__header'']], [[''.dark-mode''], [''.t-doc__header'']]]
      [Decl ''animation'' [T ''headerbackground forwards''],
       Decl ''animation-timeline'' [T ''scroll()''],
       Decl ''animation-range'' [T ''0px 200px'']],
    Rule [[[''.dark-mode''], [''.t-doc''], [''.layout-content'']]]
      [Decl ''background'' [T ''transparent'']],
    Rule [[[''.dark-mode''], [''h2'', ''.t-editor__heading'']],
       [[''.dark-mode''], [''.t-editor__page-title''], [''h1'']],
       [[''.dark-mode''], [''h1'', ''.section-header'', '':not(::selection)'']],
       [[''.dark-mode''], [''.markdown''], [''h1'']],
       [[''.dark-mode''], [''.markdown''], [''h2'']],
       [[''.dark-mode''], [''.markdown''], [''h3'']],
       [[''.dark-mode''], [''.markdown''], [''h4'']],
       [[''.dark-mode''], [''.markdown''], [''h5'']],
       [[''.dark-mode''], [''.markdown''], [''h6'']]]
      [Decl ''-webkit-text-fill-color'' [T ''transparent''],
       Decl ''background-image'' [T ''linear-gradient(to right bottom, rgb(255, 255, 255) 30%, rgba(255, 255, 255, 0.38))''],
       Decl ''-webkit-background-clip'' [T ''text''],
       Decl ''background-clip'' [T ''text'']]]"

definition css_blue_planet_2 :: "css list" where
  "css_blue_planet_2 =
   [Rule [[[''.section-flare-item'', '':nth-of-type(1)'']]]
      [Decl ''--c1'' [T ''#ffffff''],
       Decl ''--c2'' [T ''#babfd8''],
       Decl ''--c3'' [T ''#2e8bb2''],
       Decl ''--c4'' [T ''#1a8593''],
       Decl ''--c5'' [T ''#0a143e''],
       Decl ''--c6'' [T ''#0a0f52''],
       Decl ''--c7'' [T ''#2341b8''],
       Decl ''--solid'' [V ''--c1'', T '', '', V ''--c2'', T '', '', V ''--c3'', T '', '', V ''--c4'', T '', '', V ''--c5'', T '', '', V ''--c6'', T '', '', V ''--c7''],
       Decl ''--solid-wrap'' [V ''--solid'', T '', '', V ''--c1''],
       Decl ''--trans'' [V ''--c1'', T '', transparent, '', V ''--c2'', T '', transparent, '', V ''--c3'', T '', transparent, '', V ''--c4'', T '', transparent, '', V ''--c5'', T '', transparent, '', V ''--c6'', T '', transparent, '', V ''--c7''],
       Decl ''--trans-wrap'' [V ''--trans'', T '', transparent, '', V ''--c1''],
       Decl ''background'' [T ''radial-gradient(circle, '', V ''--trans'', T ''), conic-gradient(from 180deg, '', V ''--trans-wrap'', T ''), radial-gradient(circle, '', V ''--trans'', T ''), conic-gradient('', V ''--solid-wrap'', T '')''],
       Decl ''width'' [T ''70vw''],
       Decl ''height'' [T ''700px''],
       Decl ''border-radius'' [T ''50%''],
       Decl ''filter'' [T ''blur(100px)''],
       Decl ''z-index'' [T ''0''],
       Decl ''right'' [T ''0''],
       Decl ''position'' [T ''absolute''],
       Decl ''transform'' [T ''rotate(-45deg)''],
       Decl ''top'' [T ''-300px''],
       Decl ''opacity'' [T ''0.3'']],
    Rule [[[''.section-flare-item'', '':nth-of-type(3)'']]]
      [Decl ''--star-color'' [T ''#6b9acc''],
       Decl ''--star-color2'' [T ''#446b8d''],
       Decl ''--star-color3'' [T ''#3e5879''],
       Decl ''background-image'' [T ''radial-gradient(2px 2px at 20px 30px, '', V ''--star-color2'', T '', rgba(0, 0, 0, 0)), radial-gradient(2px 2px at 40px 70px, '', V ''--star-color'', T '', rgba(0, 0, 0, 0)), radial-gradient(2px 2px at 50px 160px, '', V ''--star-color3'', T '', rgba(0, 0, 0, 0)), radial-gradient(2px 2px at 90px 40px, '', V ''--star-color'', T '', rgba(0, 0, 0, 0)), radial-gradient(2px 2px at 130px 80px, '', V ''--star-color'', T '', rgba(0, 0, 0, 0)), radial-gradient(2px 2px at 160px 120px, '', V ''--star-color3'', T '', rgba(0, 0, 0, 0))''],
       Decl ''background-repeat'' [T ''repeat''],
       Decl ''background-size'' [T ''200px 200px''],
       Decl ''width'' [T ''100%''],
       Decl ''height'' [T ''100%''],
       Decl ''mask-image'' [T ''radial-gradient(ellipse at 100% 0%, black 40%, transparent 70%)'']],
    Rule [[[''.section-flare'']]]
      [Important ''top'' [T ''-150px''],
       Decl ''height'' [T ''100vh''],
       Decl ''background'' [T ''linear-gradient(#000, '', V ''--scalar-background-1'', T '')''],
       Decl ''width'' [T ''100vw''],
       Decl ''overflow-x'' [T ''hidden'']],
    Rule [[[''.light-mode''], [''.section-flare'']]]
      [Decl ''display'' [T ''none'']],
    Rule [[[''.light-mode''], [''.scalar-card'']]]
      [Decl ''--scalar-background-1'' [T ''#fff''],
       Decl ''--scalar-background-2'' [T ''#fff''],
       Decl ''--scalar-background-3'' [T ''#fff'']],
    Rule [[[''*'', ''::selection'']]]
      [Decl ''background-color'' [T ''color-mix(in srgb, '', V ''--scalar-color-blue'', T '', transparent 60%)'']],
    At ''@media (max-width: 1000px)''
     [Rule [[[''.light-mode''], [''.t-doc__sidebar'']], [[''.dark-mode''], [''.t-doc__sidebar'']]]
        [Decl ''--scalar-sidebar-background-1'' [V ''--scalar-background-1'']],
      Rule [[[''.light-mode''], [''.t-doc__header'']], [[''.dark-mode''], [''.t-doc__header'']]]
        [Decl ''animation'' [T ''none''],
         Decl ''background'' [V ''--scalar-header-background-1''],
         Decl ''backdrop-filter'' [T ''blur(12px)'']]]]"

definition css_blue_planet :: "css list" where
  "css_blue_planet = css_blue_planet_1 @ css_blue_planet_2"

definition css_deep_space_1 :: "css list" where
  "css_deep_space_1 =
   [Rule [[['':root'']]]
      [Decl ''--scalar-text-decoration'' [T ''underline''],
       Decl ''--scalar-text-decoration-hover'' [T ''underline'']],
    Rule [[[''.light-mode'']]]
      [Decl ''--scalar-color-1'' [T ''rgb(9, 9, 11)''],
       Decl ''--scalar-color-2'' [T ''rgb(113, 113, 122)''],
       Decl ''--scalar-color-3'' [T ''rgba(25, 25, 28, 0.5)''],
       Decl ''--scalar-color-accent'' [V ''--scalar-color-1''],
       Decl ''--scalar-background-1'' [T ''#fff''],
       Decl ''--scalar-background-2'' [T ''#f4f4f5''],
       Decl ''--scalar-background-3'' [T ''#e3e3e6''],
       Decl ''--scalar-background-accent'' [T ''#8ab4f81f''],
       Decl ''--scalar-border-color'' [T ''rgb(228, 228, 231)''],
       Decl ''--scalar-code-language-color-supersede'' [V ''--scalar-color-1'']],
    Rule [[[''.dark-mode'']]]
      [Decl ''--scalar-color-1'' [T ''#fafafa''],
       Decl ''--scalar-color-2'' [T ''rgb(161, 161, 170)''],
       Decl ''--scalar-color-3'' [T ''rgba(255, 255, 255, 0.533)''],
       Decl ''--scalar-color-accent'' [V ''--scalar-color-1''],
       Decl ''--scalar-background-1'' [T ''#09090b''],
       Decl ''--scalar-background-2'' [T ''#18181b''],
       Decl ''--scalar-background-3'' [T ''#2c2c30''],
       Decl ''--scalar-background-accent'' [T ''#8ab4f81f''],
       Decl ''--scalar-border-color'' [T ''rgba(255, 255, 255, 0.16)''],
       Decl ''--scalar-code-language-color-supersede'' [V ''--scalar-color-1'']],
    Rule [[[''.light-mode''], [''.t-doc__sidebar'']], [[''.dark-mode''], [''.t-doc__sidebar'']]]
      [Decl ''--scalar-sidebar-background-1'' [V ''--scalar-background-1''],
       Decl ''--scalar-sidebar-color-1'' [V ''--scalar-color-1''],
       Decl ''--scalar-sidebar-color-2'' [V ''--scalar-color-2''],
       Decl ''--scalar-sidebar-border-color'' [V ''--scalar-border-color''],
       Decl ''--scalar-sidebar-item-hover-color'' [T ''currentColor''],
       Decl ''--scalar-sidebar-item-hover-background'' [V ''--scalar-background-2''],
       Decl ''--scalar-sidebar-item-active-background'' [V ''--scalar-background-3''],
       Decl ''--scalar-sidebar-color-active'' [V ''--scalar-color-accent''],
       Decl ''--scalar-sidebar-search-background'' [T ''transparent''],
       Decl ''--scalar-sidebar-search-border-color'' [V ''--scalar-border-color''],
       Decl ''--scalar-sidebar-search-color'' [V ''--scalar-color-3'']],
    Rule [[[''.light-mode''], [''.t-doc__sidebar'']]]
      [Decl ''--scalar-sidebar-item-active-background'' [V ''--scalar-background-2'']],
    Rule [[[''.light-mode'']]]
      [Decl ''--scalar-color-green'' [T ''#069061''],
       Decl ''--scalar-color-red'' [T ''#ef0006''],
       Decl ''--scalar-color-yellow'' [T ''#edbe20''],
       Decl ''--scalar-color-blue'' [T ''#0082d0''],
       Decl ''--scalar-color-orange'' [T ''#fb892c''],
       Decl ''--scalar-color-purple'' [T ''#5203d1''],
       Decl ''--scalar-color-query'' [T ''#007b80''],
       Decl ''--scalar-button-1'' [T ''rgba(0, 0, 0, 1)''],
       Decl ''--scalar-button-1-hover'' [T ''rgba(0, 0, 0, 0.8)''],
       Decl ''--scalar-button-1-color'' [T ''#fff'']],
    Rule [[[''.dark-mode'']]]
      [Decl ''--scalar-color-green'' [T ''rgba(69, 255, 165, 0.823)''],
       Decl ''--scalar-color-red'' [T ''#ff8589''],
       Decl ''--scalar-color-yellow'' [T ''#ffcc4d''],
       Decl ''--scalar-color-blue'' [T ''#6bc1fe''],
       Decl ''--scalar-color-orange'' [T ''#f98943''],
       Decl ''--scalar-color-purple'' [T ''#b191f9''],
       Decl ''--scalar-color-query'' [T ''#79e2da''],
       Decl ''--scalar-button-1'' [T ''rgba(255, 255, 255, 1)''],
       Decl ''--scalar-button-1-hover'' [T ''rgba(255, 255, 255, 0.9)''],
       Decl ''--scalar-button-1-color'' [T ''black'']],
    Rule [[[''.dark-mode''], [''h2'', ''.t-editor__heading'']],
       [[''.dark-mode''], [''.t-editor__page-title''], [''h1'']],
       [[''.dark-mode''], [''h1'', ''.section-header'', '':not(::selection)'']],
       [[''.dark-mode''], [''.markdown''], [''h1'']],
       [[''.dark-mode''], [''.markdown''], [''h2'']],
       [[''.dark-mode''], [''.markdown''], [''h3'']],
       [[''.dark-mode''], [''.markdown''], [''h4'']],
       [[''.dark-mode''], [''.markdown''], [''h5'']],
       [[''.dark-mode''], [''.markdown''], [''h6'']]]
      [Decl ''-webkit-text-fill-color'' [T ''transparent''],
       Decl ''background-image'' [T ''linear-gradient(to right bottom, rgb(255, 255, 255) 30%, rgba(255, 255, 255, 0.38))''],
       Decl ''-webkit-background-clip'' [T ''text''],
       Decl ''background-clip'' [T ''text'']],
    Rule [[[''.examples''], [''.scalar-card-footer'']]]
      [Decl ''--scalar-background-3'' [T ''transparent''],
       Decl ''padding-top'' [T ''0'']],
    Rule [[[''.section-flare'']]]
      [Decl ''width'' [T ''100vw''],
       Decl ''height'' [T ''550px''],
       Decl ''position'' [T ''absolute'']],
    Rule [[[''.section-flare-item'', '':nth-of-type(1)'']]]
      [Decl ''position'' [T ''absolute''],
       Decl ''width'' [T ''100vw''],
       Decl ''height'' [T ''550px''],
       Decl ''--stripesDark'' [T ''repeating-linear-gradient(100deg, #000 0%, #000 7%, transparent 10%, transparent 12%, #000 16%)''],
       Decl ''--rainbow'' [T ''repeating-linear-gradient(100deg, #fff 10%, #fff 16%, #fff 22%, #fff 30%)''],
       Decl ''background-image'' [V ''--stripesDark'', T '', '', V ''--rainbow''],
       Decl ''background-size'' [T ''300%, 200%''],
       Decl ''background-position'' [T ''50% 50%, 50% 50%''],
       Decl ''filter'' [T ''invert(100%)''],
       Decl ''-webkit-mask-image'' [T ''radial-gradient(ellipse at 100% 0%, black 40%, transparent 70%)''],
       Decl ''mask-image'' [T ''radial-gradient(ellipse at 100% 0%, black 40%, transparent 70%)''],
       Decl ''pointer-events'' [T ''none''],
       Decl ''opacity'' [T ''0.07'']],
    Rule [[[''.dark-mode''], [''.section-flare-item'', '':nth-of-type(1)'']]]
      [Decl ''background-image'' [V ''--stripesDark'', T '', '', V ''--rainbow''],
       Decl ''filter'' [T ''opacity(50%) saturate(200%)''],
       Decl ''opacity'' [T ''0.25''],
       Decl ''height'' [T ''350px'']],
    Rule [[[''.section-flare-item'', '':nth-of-type(1)'', '':after'']]]
      [Decl ''content'' [T ([dquote] @ [dquote])],
       Decl ''position'' [T ''absolute''],
       Decl ''top'' [T ''0''],
       Decl ''right'' [T ''0''],
       Decl ''bottom'' [T ''0''],
       Decl ''left'' [T ''0''],
       Decl ''background-image'' [V ''--stripesDark'', T '', '', V ''--rainbow''],
       Decl ''background-size'' [T ''200%, 100%''],
       Decl ''background-attachment'' [T ''fixed''],
       Decl ''mix-blend-mode'' [T ''difference'']],
    Rule [[[''.dark-mode''], [''.section-flare'', '':after'']]]
      [Decl ''background-image'' [V ''--stripesDark'', T '', '', V ''--rainbow'']]]"

definition css_deep_space_2 :: "css list" where
  "css_deep_space_2 =
   [Rule [[[''.section-flare-item'', '':nth-of-type(2)'']]]
      [Decl ''--star-color'' [T ''#fff''],
       Decl ''--star-color2'' [T ''#fff''],
       Decl ''--star-color3'' [T ''#fff''],
       Decl ''width'' [T ''100%''],
       Decl ''height'' [T ''100%''],
       Decl ''position'' [T ''absolute''],
       Decl ''background-image'' [T ''radial-gradient(2px 2px at 20px 30px, '', V ''--star-color2'', T '', rgba(0, 0, 0, 0)), radial-gradient(2px 2px at 40px 70px, '', V ''--star-color'', T '', rgba(0, 0, 0, 0)), radial-gradient(2px 2px at 50px 160px, '', V ''--star-color3'', T '', rgba(0, 0, 0, 0)), radial-gradient(2px 2px at 90px 40px, '', V ''--star-color'', T '', rgba(0, 0, 0, 0)), radial-gradient(2px 2px at 130px 80px, '', V ''--star-color'', T '', rgba(0, 0, 0, 0)), radial-gradient(2px 2px at 160px 120px, '', V ''--star-color3'', T '', rgba(0, 0, 0, 0))''],
       Decl ''background-repeat'' [T ''repeat''],
       Decl ''background-size'' [T ''200px 200px''],
       Decl ''mask-image'' [T ''radial-gradient(ellipse at 100% 0%, black 40%, transparent 70%)''],
       Decl ''opacity'' [T ''0.2'']],
    Rule [[[''.light-mode''], [''*'', ''::selection'']]]
      [Decl ''background-color'' [T ''color-mix(in srgb, '', V ''--scalar-color-blue'', T '', transparent 70%)'']],
    Rule [[[''.dark-mode''], [''*'', ''::selection'']]]
      [Decl ''background-color'' [T ''color-mix(in srgb, '', V ''--scalar-color-blue'', T '', transparent 50%)'']],
    Rule [[[''.light-mode''], [''.t-doc__header'']], [[''.dark-mode''], [''.t-doc__header'']]]
      [Decl ''animation'' [T ''headerbackground forwards''],
       Decl ''animation-timeline'' [T ''scroll()''],
       Decl ''animation-range'' [T ''0px 200px'']],
    At ''@keyframes headerbackground''
     [Rule [[[''from'']]]
        [Decl ''background'' [T ''transparent''],
         Decl ''backdrop-filter'' [T ''none'']],
      Rule [[[''to'']]]
        [Decl ''background'' [V ''--scalar-header-background-1''],
         Decl ''backdrop-filter'' [T ''blur(12px)'']]],
    At ''@supports (-webkit-hyphens: none)''
     [Rule [[[''.section-flare'']]]
        [Decl ''display'' [T ''none'']]],
    Rule [[[''.light-mode''], [''.t-doc''], [''.layout-content'']],
       [[''.dark-mode''], [''.t-doc''], [''.layout-content'']]]
      [Decl ''background'' [T ''transparent'']]]"

definition css_deep_space :: "css list" where
  "css_deep_space = css_deep_space_1 @ css_deep_space_2"

definition css_default :: "css list" where
  "css_default =
   [Rule [[['':root'']]]
      [Decl ''--scalar-text-decoration'' [T ''underline''],
       Decl ''--scalar-text-decoration-hover'' [T ''underline'']],
    Rule [[[''.light-mode'']]]
      [Decl ''--scalar-background-1'' [T ''#fff''],
       Decl ''--scalar-background-2'' [T ''#f6f6f6''],
       Decl ''--scalar-background-3'' [T ''#e7e7e7''],
       Decl ''--scalar-background-accent'' [T ''#8ab4f81f''],
       Decl ''--scalar-color-1'' [T ''#1b1b1b''],
       Decl ''--scalar-color-2'' [T ''#757575''],
       Decl ''--scalar-color-3'' [T ''#8e8e8e''],
       Decl ''--scalar-color-accent'' [T ''#0099ff''],
       Decl ''--scalar-border-color'' [T ''#dfdfdf'']],
    Rule [[[''.dark-mode'']]]
      [Decl ''--scalar-background-1'' [T ''#0f0f0f''],
       Decl ''--scalar-background-2'' [T ''#1a1a1a''],
       Decl ''--scalar-background-3'' [T ''#272727''],
       Decl ''--scalar-color-1'' [T ''#e7e7e7''],
       Decl ''--scalar-color-2'' [T ''#a4a4a4''],
       Decl ''--scalar-color-3'' [T ''#797979''],
       Decl ''--scalar-color-accent'' [T ''#00aeff''],
       Decl ''--scalar-background-accent'' [T ''#3ea6ff1f''],
       Decl ''--scalar-border-color'' [T ''#2d2d2d'']],
    Rule [[[''.light-mode'']], [[''.dark-mode'']]]
      [Decl ''--scalar-sidebar-background-1'' [V ''--scalar-background-1''],
       Decl ''--scalar-sidebar-color-1'' [V ''--scalar-color-1''],
       Decl ''--scalar-sidebar-color-2'' [V ''--scalar-color-2''],
       Decl ''--scalar-sidebar-border-color'' [V ''--scalar-border-color''],
       Decl ''--scalar-sidebar-item-hover-background'' [V ''--scalar-background-2''],
       Decl ''--scalar-sidebar-item-hover-color'' [V ''--scalar-sidebar-color-2''],
       Decl ''--scalar-sidebar-item-active-background'' [V ''--scalar-background-2''],
       Decl ''--scalar-sidebar-color-active'' [V ''--scalar-sidebar-color-1''],
       Decl ''--scalar-sidebar-indent-border'' [V ''--scalar-sidebar-border-color''],
       Decl ''--scalar-sidebar-indent-border-hover'' [V ''--scalar-sidebar-border-color''],
       Decl ''--scalar-sidebar-indent-border-active'' [V ''--scalar-sidebar-border-color''],
       Decl ''--scalar-sidebar-search-background'' [T ''color-mix(in srgb, '', V ''--scalar-background-2'', T '', '', V ''--scalar-background-1'', T '')''],
       Decl ''--scalar-sidebar-search-color'' [V ''--scalar-color-3''],
       Decl ''--scalar-sidebar-search-border-color'' [V ''--scalar-border-color'']],
    Rule [[[''.light-mode'']]]
      [Decl ''--scalar-color-green'' [T ''#069061''],
       Decl ''--scalar-color-red'' [T ''#ef0006''],
       Decl ''--scalar-color-yellow'' [T ''#edbe20''],
       Decl ''--scalar-color-blue'' [T ''#0082d0''],
       Decl ''--scalar-color-orange'' [T ''#ff5800''],
       Decl ''--scalar-color-purple'' [T ''#5203d1''],
       Decl ''--scalar-color-query'' [T ''#007b80''],
       Decl ''--scalar-link-color'' [V ''--scalar-color-1''],
       Decl ''--scalar-link-color-hover'' [V ''--scalar-link-color''],
       Decl ''--scalar-button-1'' [T ''rgba(0, 0, 0, 1)''],
       Decl ''--scalar-button-1-hover'' [T ''rgba(0, 0, 0, 0.8)''],
       Decl ''--scalar-button-1-color'' [T ''#fff''],
       Decl ''--scalar-tooltip-background'' [T ''color-mix(in srgb, '', V ''--scalar-background-1'', T '', transparent 10%)''],
       Decl ''--scalar-tooltip-color'' [V ''--scalar-color-1''],
       Decl ''--scalar-color-alert'' [T ''color-mix(in srgb, '', V ''--scalar-color-orange'', T '', '', V ''--scalar-color-1'', T '' 20%)''],
       Decl ''--scalar-color-danger'' [T ''color-mix(in srgb, '', V ''--scalar-color-red'', T '', '', V ''--scalar-color-1'', T '' 20%)''],
       Decl ''--scalar-background-alert'' [T ''color-mix(in srgb, '', V ''--scalar-color-orange'', T '', '', V ''--scalar-background-1'', T '' 95%)''],
       Decl ''--scalar-background-danger'' [T ''color-mix(in srgb, '', V ''--scalar-color-red'', T '', '', V ''--scalar-background-1'', T '' 95%)'']],
    Rule [[[''.dark-mode'']]]
      [Decl ''--scalar-color-green'' [T ''#00b648''],
       Decl ''--scalar-color-red'' [T ''#dc1b19''],
       Decl ''--scalar-color-yellow'' [T ''#ffc90d''],
       Decl ''--scalar-color-blue'' [T ''#4eb3ec''],
       Decl ''--scalar-color-orange'' [T ''#ff8d4d''],
       Decl ''--scalar-color-purple'' [T ''#b191f9''],
       Decl ''--scalar-color-query'' [T ''#65d4cf''],
       Decl ''--scalar-link-color'' [V ''--scalar-color-1''],
       Decl ''--scalar-link-color-hover'' [V ''--scalar-link-color''],
       Decl ''--scalar-button-1'' [T ''rgba(255, 255, 255, 1)''],
       Decl ''--scalar-button-1-hover'' [T ''rgba(255, 255, 255, 0.9)''],
       Decl ''--scalar-button-1-color'' [T ''black''],
       Decl ''--scalar-tooltip-background'' [T ''color-mix(in srgb, '', V ''--scalar-background-1'', T '', #fff 10%)''],
       Decl ''--scalar-tooltip-color'' [T ''color-mix(in srgb, #fff, transparent 5%)''],
       Decl ''--scalar-color-danger'' [T ''color-mix(in srgb, '', V ''--scalar-color-red'', T '', '', V ''--scalar-background-1'', T '' 20%)''],
       Decl ''--scalar-background-alert'' [T ''color-mix(in srgb, '', V ''--scalar-color-orange'', T '', '', V ''--scalar-background-1'', T '' 95%)''],
       Decl ''--scalar-background-danger'' [T ''color-mix(in srgb, '', V ''--scalar-color-red'', T '', '', V ''--scalar-background-1'', T '' 95%)'']],
    At ''@supports (color: color(display-p3 1 1 1))''
     [Rule [[[''.light-mode'']]]
        [Decl ''--scalar-color-accent'' [T ''color(display-p3 0 0.6 1 / 1)''],
         Decl ''--scalar-color-green'' [T ''color(display-p3 0.023529 0.564706 0.380392 / 1)''],
         Decl ''--scalar-color-red'' [T ''color(display-p3 0.937255 0 0.023529 / 1)''],
         Decl ''--scalar-color-yellow'' [T ''color(display-p3 0.929412 0.745098 0.12549 / 1)''],
         Decl ''--scalar-color-blue'' [T ''color(display-p3 0 0.509804 0.815686 / 1)''],
         Decl ''--scalar-color-orange'' [T ''color(display-p3 1 0.4 0.02)''],
         Decl ''--scalar-color-purple'' [T ''color(display-p3 0.321569 0.011765 0.819608 / 1)'']],
      Rule [[[''.dark-mode'']]]
        [Decl ''--scalar-color-accent'' [T ''color(display-p3 0.07 0.67 1)''],
         Decl ''--scalar-color-green'' [T ''color(display-p3 0 0.713725 0.282353 / 1)''],
         Decl ''--scalar-color-red'' [T ''color(display-p3 0.862745 0.105882 0.098039 / 1)''],
         Decl ''--scalar-color-yellow'' [T ''color(display-p3 1 0.788235 0.05098 / 1)''],
         Decl ''--scalar-color-blue'' [T ''color(display-p3 0.305882 0.701961 0.92549 / 1)''],
         Decl ''--scalar-color-orange'' [T ''color(display-p3 1 0.552941 0.301961 / 1)''],
         Decl ''--scalar-color-purple'' [T ''color(display-p3 0.694118 0.568627 0.976471 / 1)'']]]]"

definition css_elysia :: "css list" where
  "css_elysia =
   [Rule [[[''.light-mode'']]]
      [Decl ''--scalar-color-1'' [T ''#1b1b1b''],
       Decl ''--scalar-color-2'' [T ''#757575''],
       Decl ''--scalar-color-3'' [T ''#8e8e8e''],
       Decl ''--scalar-color-accent'' [T ''#f06292''],
       Decl ''--scalar-background-1'' [T ''#fff''],
       Decl ''--scalar-background-2'' [T ''#f6f6f6''],
       Decl ''--scalar-background-3'' [T ''#e7e7e7''],
       Decl ''--scalar-border-color'' [T ''rgba(0, 0, 0, 0.1)'']],
    Rule [[[''.dark-mode'']]]
      [Decl ''--scalar-color-1'' [T ''rgba(255, 255, 255, 0.9)''],
       Decl ''--scalar-color-2'' [T ''rgba(156, 163, 175, 1)''],
       Decl ''--scalar-color-3'' [T ''rgba(255, 255, 255, 0.44)''],
       Decl ''--scalar-color-accent'' [T ''#f06292''],
       Decl ''--scalar-background-1'' [T ''#111728''],
       Decl ''--scalar-background-2'' [T ''#1e293b''],
       Decl ''--scalar-background-3'' [T ''#334155''],
       Decl ''--scalar-background-accent'' [T ''#f062921f''],
       Decl ''--scalar-border-color'' [T ''rgba(255, 255, 255, 0.1)'']],
    Rule [[[''.light-mode''], [''.t-doc__sidebar'']], [[''.dark-mode''], [''.t-doc__sidebar'']]]
      [Decl ''--scalar-sidebar-background-1'' [V ''--scalar-background-1''],
       Decl ''--scalar-sidebar-color-1'' [V ''--scalar-color-1''],
       Decl ''--scalar-sidebar-color-2'' [V ''--scalar-color-2''],
       Decl ''--scalar-sidebar-border-color'' [V ''--scalar-border-color''],
       Decl ''--scalar-sidebar-item-hover-background'' [V ''--scalar-background-2''],
       Decl ''--scalar-sidebar-item-hover-color'' [T ''currentColor''],
       Decl ''--scalar-sidebar-item-active-background'' [T ''#f062921f''],
       Decl ''--scalar-sidebar-color-active'' [V ''--scalar-color-accent''],
       Decl ''--scalar-sidebar-search-background'' [T ''transparent''],
       Decl ''--scalar-sidebar-search-color'' [V ''--scalar-color-3''],
       Decl ''--scalar-sidebar-search-border-color'' [V ''--scalar-border-color'']],
    Rule [[[''.light-mode'']]]
      [Decl ''--scalar-button-1'' [T ''rgb(49 53 56)''],
       Decl ''--scalar-button-1-color'' [T ''#fff''],
       Decl ''--scalar-button-1-hover'' [T ''rgb(28 31 33)''],
       Decl ''--scalar-color-green'' [T ''#069061''],
       Decl ''--scalar-color-red'' [T ''#ef0006''],
       Decl ''--scalar-color-yellow'' [T ''#edbe20''],
       Decl ''--scalar-color-blue'' [T ''#0082d0''],
       Decl ''--scalar-color-orange'' [T ''#fb892c''],
       Decl ''--scalar-color-purple'' [T ''#5203d1''],
       Decl ''--scalar-color-query'' [T ''#007b80''],
       Decl ''--scalar-scrollbar-color'' [T ''rgba(0, 0, 0, 0.18)''],
       Decl ''--scalar-scrollbar-color-active'' [T ''rgba(0, 0, 0, 0.36)'']],
    Rule [[[''.dark-mode'']]]
      [Decl ''--scalar-button-1'' [T ''#f6f6f6''],
       Decl ''--scalar-button-1-color'' [T ''#000''],
       Decl ''--scalar-button-1-hover'' [T ''#e7e7e7''],
       Decl ''--scalar-color-green'' [T ''#a3ffa9''],
       Decl ''--scalar-color-red'' [T ''#ffa3a3''],
       Decl ''--scalar-color-yellow'' [T ''#fffca3''],
       Decl ''--scalar-color-blue'' [T ''#a5d6ff''],
       Decl ''--scalar-color-orange'' [T ''#e2ae83''],
       Decl ''--scalar-color-purple'' [T ''#d2a8ff''],
       Decl ''--scalar-color-query'' [T ''#a5f3df''],
       Decl ''--scalar-scrollbar-color'' [T ''rgba(255, 255, 255, 0.24)''],
       Decl ''--scalar-scrollbar-color-active'' [T ''rgba(255, 255, 255, 0.48)'']],
    Rule [[[''.section-flare'']]]
      [Decl ''width'' [T ''100%''],
       Decl ''height'' [T ''400px''],
       Decl ''position'' [T ''absolute'']],
    Rule [[[''.section-flare-item'', '':first-of-type'', '':before'']]]
      [Decl ''content'' [T ([dquote] @ [dquote])],
       Decl ''position'' [T ''absolute''],
       Decl ''top'' [T ''0''],
       Decl ''right'' [T ''0''],
       Decl ''bottom'' [T ''0''],
       Decl ''left'' [T ''0''],
       Decl ''--stripes'' [T ''repeating-linear-gradient(100deg, #fff 0%, #fff 0%, transparent 2%, transparent 12%, #fff 17%)''],
       Decl ''--stripesDark'' [T ''repeating-linear-gradient(100deg, #000 0%, #000 0%, transparent 10%, transparent 12%, #000 17%)''],
       Decl ''--rainbow'' [T ''repeating-linear-gradient(100deg, #60a5fa 10%, #e879f9 16%, #5eead4 22%, #60a5fa 30%)''],
       Decl ''contain'' [T ''strict''],
       Decl ''contain-intrinsic-size'' [T ''100vw 40vh''],
       Decl ''background-image'' [V ''--stripesDark'', T '', '', V ''--rainbow''],
       Decl ''background-size'' [T ''300%, 200%''],
       Decl ''background-position'' [T ''50% 50%, 50% 50%''],
       Decl ''filter'' [T ''opacity(20%) saturate(200%)''],
       Decl ''-webkit-mask-image'' [T ''radial-gradient(ellipse at 100% 0%, black 40%, transparent 70%)''],
       Decl ''mask-image'' [T ''radial-gradient(ellipse at 100% 0%, black 40%, transparent 70%)''],
       Decl ''pointer-events'' [T ''none'']],
    Rule [[[''.section-flare-item'', '':first-of-type'', '':after'']]]
      [Decl ''content'' [T ([dquote] @ [dquote])],
       Decl ''position'' [T ''absolute''],
       Decl ''top'' [T ''0''],
       Decl ''right'' [T ''0''],
       Decl ''bottom'' [T ''0''],
       Decl ''left'' [T ''0''],
       Decl ''background-image'' [V ''--stripes'', T '', '', V ''--rainbow''],
       Decl ''background-size'' [T ''200%, 100%''],
       Decl ''background-attachment'' [T ''fixed''],
       Decl ''mix-blend-mode'' [T ''difference''],
       Decl ''background-image'' [V ''--stripesDark'', T '', '', V ''--rainbow''],
       Decl ''pointer-events'' [T ''none'']],
    Rule [[[''.light-mode''], [''.section-flare-item'', '':first-of-type'', '':after'']],
       [[''.light-mode''], [''.section-flare-item'', '':first-of-type'', '':before'']]]
      [Decl ''background-image'' [V ''--stripes'', T '', '', V ''--rainbow''],
       Decl ''filter'' [T ''opacity(4%) saturate(200%)'']]]"

end
