(* ===== verification/ThemeSheets2.thy ===== *)
theory ThemeSheets2
  imports Css
begin

text \<open>
  The preset themes of the API reference (\<open>docs/scalar/scalar.standalone.js\<close>), second part, and the
  style sheet inlined as the fallback of \<open>getThemeStyles\<close>.
\<close>

definition css_fastify :: "css list" where
  "css_fastify =
   [Rule [[[''.light-mode'']]]
      [Decl ''color-scheme'' [T ''light''],
       Decl ''--scalar-color-1'' [T ''#1c1e21''],
       Decl ''--scalar-color-2'' [T ''#757575''],
       Decl ''--scalar-color-3'' [T ''#8e8e8e''],
       Decl ''--scalar-color-disabled'' [T ''#b4b1b1''],
       Decl ''--scalar-color-ghost'' [T ''#a7a7a7''],
       Decl ''--scalar-color-accent'' [T ''#2f8555''],
       Decl ''--scalar-background-1'' [T ''#fff''],
       Decl ''--scalar-background-2'' [T ''#f5f5f5''],
       Decl ''--scalar-background-3'' [T ''#ededed''],
       Decl ''--scalar-background-4'' [T ''rgba(0, 0, 0, 0.06)''],
       Decl ''--scalar-background-accent'' [T ''#2f85551f''],
       Decl ''--scalar-border-color'' [T ''rgba(0, 0, 0, 0.1)''],
       Decl ''--scalar-scrollbar-color'' [T ''rgba(0, 0, 0, 0.18)''],
       Decl ''--scalar-scrollbar-color-active'' [T ''rgba(0, 0, 0, 0.36)''],
       Decl ''--scalar-lifted-brightness'' [T ''1''],
       Decl ''--scalar-backdrop-brightness'' [T ''1''],
       Decl ''--scalar-shadow-1'' [T ''0 1px 3px 0 rgba(0, 0, 0, 0.11)''],
       Decl ''--scalar-shadow-2'' [T ''rgba(0, 0, 0, 0.08) 0px 13px 20px 0px, rgba(0, 0, 0, 0.08) 0px 3px 8px 0px, #eeeeed 0px 0 0 1px''],
       Decl ''--scalar-button-1'' [T ''rgb(49 53 56)''],
       Decl ''--scalar-button-1-color'' [T ''#fff''],
       Decl ''--scalar-button-1-hover'' [T ''rgb(28 31 33)''],
       Decl ''--scalar-color-green'' [T ''#007300''],
       Decl ''--scalar-color-red'' [T ''#af272b''],
       Decl ''--scalar-color-yellow'' [T ''#b38200''],
       Decl ''--scalar-color-blue'' [T ''#3b8ba5''],
       Decl ''--scalar-color-orange'' [T ''#fb892c''],
       Decl ''--scalar-color-purple'' [T ''#5203d1''],
       Decl ''--scalar-color-query'' [T ''#00766f'']],
    Rule [[[''.dark-mode'']]]
      [Decl ''color-scheme'' [T ''dark''],
       Decl ''--scalar-color-1'' [T ''rgba(255, 255, 255, 0.9)''],
       Decl ''--scalar-color-2'' [T ''rgba(255, 255, 255, 0.62)''],
       Decl ''--scalar-color-3'' [T ''rgba(255, 255, 255, 0.44)''],
       Decl ''--scalar-color-disabled'' [T ''rgba(255, 255, 255, 0.34)''],
       Decl ''--scalar-color-ghost'' [T ''rgba(255, 255, 255, 0.26)''],
       Decl ''--scalar-color-accent'' [T ''#27c2a0''],
       Decl ''--scalar-background-1'' [T ''#1b1b1d''],
       Decl ''--scalar-background-2'' [T ''#242526''],
       Decl ''--scalar-background-3'' [T ''#3b3b3b''],
       Decl ''--scalar-background-4'' [T ''rgba(255, 255, 255, 0.06)''],
       Decl ''--scalar-background-accent'' [T ''#27c2a01f''],
       Decl ''--scalar-border-color'' [T ''rgba(255, 255, 255, 0.1)''],
       Decl ''--scalar-scrollbar-color'' [T ''rgba(255, 255, 255, 0.24)''],
       Decl ''--scalar-scrollbar-color-active'' [T ''rgba(255, 255, 255, 0.48)''],
       Decl ''--scalar-lifted-brightness'' [T ''1.45''],
       Decl ''--scalar-backdrop-brightness'' [T ''0.5''],
       Decl ''--scalar-shadow-1'' [T ''0 1px 3px 0 rgb(0, 0, 0, 0.1)''],
       Decl ''--scalar-shadow-2'' [T ''rgba(15, 15, 15, 0.2) 0px 3px 6px, rgba(15, 15, 15, 0.4) 0px 9px 24px, 0 0 0 1px rgba(255, 255, 255, 0.1)''],
       Decl ''--scalar-button-1'' [T ''#f6f6f6''],
       Decl ''--scalar-button-1-color'' [T ''#000''],
       Decl ''--scalar-button-1-hover'' [T ''#e7e7e7''],
       Decl ''--scalar-color-green'' [T ''#26b226''],
       Decl ''--scalar-color-red'' [T ''#fb565b''],
       Decl ''--scalar-color-yellow'' [T ''#ffc426''],
       Decl ''--scalar-color-blue'' [T ''#6ecfef''],
       Decl ''--scalar-color-orange'' [T ''#ff8d4d''],
       Decl ''--scalar-color-purple'' [T ''#b191f9''],
       Decl ''--scalar-color-query'' [T ''#5fdbc5'']]]"

definition css_kepler_1 :: "css list" where
  "css_kepler_1 =
   [Rule [[[''.light-mode'']]]
      [Decl ''--scalar-color-1'' [T ''#1b1b1b''],
       Decl ''--scalar-color-2'' [T ''#757575''],
       Decl ''--scalar-color-3'' [T ''#8e8e8e''],
       Decl ''--scalar-color-accent'' [T ''#7070ff''],
       Decl ''--scalar-background-1'' [T ''#fff''],
       Decl ''--scalar-background-2'' [T ''#f6f6f6''],
       Decl ''--scalar-background-3'' [T ''#e7e7e7''],
       Decl ''--scalar-background-accent'' [T ''#7070ff1f''],
       Decl ''--scalar-border-color'' [T ''rgba(0, 0, 0, 0.1)''],
       Decl ''--scalar-code-language-color-supersede'' [V ''--scalar-color-3'']],
    Rule [[[''.dark-mode'']]]
      [Decl ''--scalar-color-1'' [T ''#f7f8f8''],
       Decl ''--scalar-color-2'' [T ''rgb(180, 188, 208)''],
       Decl ''--scalar-color-3'' [T ''#b4bcd099''],
       Decl ''--scalar-color-accent'' [T ''#828fff''],
       Decl ''--scalar-background-1'' [T ''#000212''],
       Decl ''--scalar-background-2'' [T ''#0d0f1e''],
       Decl ''--scalar-background-3'' [T ''#232533''],
       Decl ''--scalar-background-accent'' [T ''#8ab4f81f''],
       Decl ''--scalar-border-color'' [T ''#313245''],
       Decl ''--scalar-code-language-color-supersede'' [V ''--scalar-color-3'']],
    Rule [[[''.light-mode''], [''.t-doc__sidebar'']]]
      [Decl ''--scalar-sidebar-background-1'' [V ''--scalar-background-1''],
       Decl ''--scalar-sidebar-item-hover-color'' [T ''currentColor''],
       Decl ''--scalar-sidebar-item-hover-background'' [V ''--scalar-background-2''],
       Decl ''--scalar-sidebar-item-active-background'' [V ''--scalar-background-accent''],
       Decl ''--scalar-sidebar-border-color'' [V ''--scalar-border-color''],
       Decl ''--scalar-sidebar-color-1'' [V ''--scalar-color-1''],
       Decl ''--scalar-sidebar-color-2'' [V ''--scalar-color-2''],
       Decl ''--scalar-sidebar-color-active'' [V ''--scalar-color-accent''],
       Decl ''--scalar-sidebar-search-background'' [T ''rgba(0, 0, 0, 0.05)''],
       Decl ''--scalar-sidebar-search-border-color'' [T ''1px solid rgba(0, 0, 0, 0.05)''],
       Decl ''--scalar-sidebar-search-color'' [V ''--scalar-color-3''],
       Decl ''--scalar-background-2'' [T ''rgba(0, 0, 0, 0.03)'']],
    Rule [[[''.dark-mode''], [''.t-doc__sidebar'']]]
      [Decl ''--scalar-sidebar-background-1'' [V ''--scalar-background-1''],
       Decl ''--scalar-sidebar-item-hover-color'' [T ''currentColor''],
       Decl ''--scalar-sidebar-item-hover-background'' [V ''--scalar-background-2''],
       Decl ''--scalar-sidebar-item-active-background'' [T ''rgba(255, 255, 255, 0.1)''],
       Decl ''--scalar-sidebar-border-color'' [V ''--scalar-border-color''],
       Decl ''--scalar-sidebar-color-1'' [V ''--scalar-color-1''],
       Decl ''--scalar-sidebar-color-2'' [V ''--scalar-color-2''],
       Decl ''--scalar-sidebar-color-active'' [V ''--scalar-color-accent''],
       Decl ''--scalar-sidebar-search-background'' [T ''rgba(255, 255, 255, 0.1)''],
       Decl ''--scalar-sidebar-search-border-color'' [T ''1px solid rgba(255, 255, 255, 0.05)''],
       Decl ''--scalar-sidebar-search-color'' [V ''--scalar-color-3'']],
    Rule [[[''.light-mode'']]]
      [Decl ''--scalar-color-green'' [T ''#069061''],
       Decl ''--scalar-color-red'' [T ''#ef0006''],
       Decl ''--scalar-color-yellow'' [T ''#edbe20''],
       Decl ''--scalar-color-blue'' [T ''#0082d0''],
       Decl ''--scalar-color-orange'' [T ''#fb892c''],
       Decl ''--scalar-color-purple'' [T ''#5203d1''],
       Decl ''--scalar-color-query'' [T ''#007b80''],
       Decl ''--scalar-button-1'' [T ''rgba(0, 0, 0, 1)''],
       Decl ''--scalar-button-1-hover'' [T ''rgba(0, 0, 0, 0.8)''],
       Decl ''--scalar-button-1-color'' [T ''#fff'']],
    Rule [[[''.dark-mode'']]]
      [Decl ''--scalar-color-green'' [T ''#00b648''],
       Decl ''--scalar-color-red'' [T ''#dc1b19''],
       Decl ''--scalar-color-yellow'' [T ''#ffc90d''],
       Decl ''--scalar-color-blue'' [T ''#4eb3ec''],
       Decl ''--scalar-color-orange'' [T ''#ff8d4d''],
       Decl ''--scalar-color-purple'' [T ''#b191f9''],
       Decl ''--scalar-color-query'' [T ''#65d4cf''],
       Decl ''--scalar-button-1'' [T ''rgba(255, 255, 255, 1)''],
       Decl ''--scalar-button-1-hover'' [T ''rgba(255, 255, 255, 0.9)''],
       Decl ''--scalar-button-1-color'' [T ''black'']],
    Rule [[[''.dark-mode''], [''h2'', ''.t-editor__heading'']],
       [[''.dark-mode''], [''.t-editor__page-title''], [''h1'']],
       [[''.dark-mode''], [''h1'', ''.section-header'', '':not(::selection)'']],
       [[''.dark-mode''], [''.markdown''], [''h1'']],
       [[''.dark-mode''], [''.markdown''], [''h2'']],
       [[''.dark-mode''], [''.markdown''], [''h3'']],
       [[''.dark-mode''], [''.markdown''], [''h4'']],
       [[''.dark-mode''], [''.markdown''], [''h5'']],
       [[''.dark-mode''], [''.markdown''], [''h6'']]]
      [Decl ''-webkit-text-fill-color'' [T ''transparent''],
       Decl ''background-image'' [T ''linear-gradient(to right bottom, rgb(255, 255, 255) 30%, rgba(255, 255, 255, 0.38))''],
       Decl ''-webkit-background-clip'' [T ''text''],
       Decl ''background-clip'' [T ''text'']],
    Rule [[[''.sidebar-search'']]]
      [Decl ''backdrop-filter'' [T ''blur(12px)'']],
    At ''@keyframes headerbackground''
     [Rule [[[''from'']]]
        [Decl ''background'' [T ''transparent''],
         Decl ''backdrop-filter'' [T ''none'']],
      Rule [[[''to'']]]
        [Decl ''background'' [V ''--scalar-header-background-1''],
         Decl ''backdrop-filter'' [T ''blur(12px)'']]],
    Rule [[[''.dark-mode''], [''.scalar-card'']]]
      [Important ''background'' [T ''rgba(255, 255, 255, 0.05)'']],
    Rule [[[''.dark-mode''], [''.scalar-card''], [''*'']]]
      [Important ''--scalar-background-2'' [T ''transparent''],
       Important ''--scalar-background-1'' [T ''transparent'']],
    Rule [[[''.light-mode''], [''.dark-mode'', ''.scalar-card''], [''*'']],
       [[''.light-mode''], [''.dark-mode'', ''.scalar-card'']]]
      [Important ''--scalar-background-1'' [T ''#0d0f1e''],
       Important ''--scalar-background-2'' [T ''#0d0f1e''],
       Important ''--scalar-background-3'' [T ''#191b29'']],
    Rule [[[''.light-mode''], [''.dark-mode'', ''.scalar-card'']]]
      [Important ''background'' [T ''#191b29'']],
    Rule [[[''.badge'']]]
      [Decl ''box-shadow'' [T ''0 0 0 1px '', V ''--scalar-border-color''],
       Decl ''margin-right'' [T ''6px'']],
    Rule [[[''.table-row'', ''.required-parameter''], [''.table-row-item'', '':nth-of-type(2)'', '':after'']]]
      [Decl ''background'' [T ''transparent''],
       Decl ''box-shadow'' [T ''none'']],
    Rule [[[''.section-flare'']]]
      [Decl ''width'' [T ''100vw''],
       Decl ''background'' [T ''radial-gradient(ellipse 80% 50% at 50% -20%, rgba(120, 119, 198, 0.3), transparent)''],
       Decl ''height'' [T ''100vh'']],
    Rule [[[''.light-mode''], [''*'', ''::selection'']]]
      [Decl ''background-color'' [T ''color-mix(in srgb, '', V ''--scalar-color-accent'', T '', transparent 70%)'']]]"

definition css_kepler_2 :: "css list" where
  "css_kepler_2 =
   [Rule [[[''.dark-mode''], [''*'', ''::selection'']]]
      [Decl ''background-color'' [T ''color-mix(in srgb, '', V ''--scalar-color-accent'', T '', transparent 50%)'']],
    Rule [[[''.light-mode''], [''.t-doc''], [''.layout-content'']],
       [[''.dark-mode''], [''.t-doc''], [''.layout-content'']]]
      [Decl ''background'' [T ''transparent'']]]"

definition css_kepler :: "css list" where
  "css_kepler = css_kepler_1 @ css_kepler_2"

definition css_laserwave :: "css list" where
  "css_laserwave =
   [Rule [[[''.light-mode'']]]
      [Decl ''color-scheme'' [T ''light''],
       Decl ''--scalar-color-1'' [T ''#322b3b''],
       Decl ''--scalar-color-2'' [T ''#645676''],
       Decl ''--scalar-color-3'' [T ''#9789a9''],
       Decl ''--scalar-color-accent'' [T ''#40b4c4''],
       Decl ''--scalar-background-1'' [T ''#fff''],
       Decl ''--scalar-background-2'' [T ''#f4f2f7''],
       Decl ''--scalar-background-3'' [T ''#cfc7dc''],
       Decl ''--scalar-background-accent'' [T ''#f3fafb''],
       Decl ''--scalar-border-color'' [T ''#e4e0eb'']],
    Rule [[[''.dark-mode'']]]
      [Decl ''color-scheme'' [T ''dark''],
       Decl ''--scalar-color-1'' [T ''#fff''],
       Decl ''--scalar-color-2'' [T ''#b8b6ba''],
       Decl ''--scalar-color-3'' [T ''#706c74''],
       Decl ''--scalar-color-accent'' [T ''#ed78c2''],
       Decl ''--scalar-background-1'' [T ''#27212e''],
       Decl ''--scalar-background-2'' [T ''#322c39''],
       Decl ''--scalar-background-3'' [T ''#4c4059''],
       Decl ''--scalar-background-accent'' [T ''#eb64b91f''],
       Decl ''--scalar-border-color'' [T ''rgba(255, 255, 255, 0.1)'']],
    Rule [[[''.light-mode''], [''.t-doc__sidebar'']]]
      [Decl ''--scalar-sidebar-background-1'' [V ''--scalar-background-1''],
       Decl ''--scalar-sidebar-item-hover-color'' [T ''currentColor''],
       Decl ''--scalar-sidebar-item-hover-background'' [V ''--scalar-background-2''],
       Decl ''--scalar-sidebar-item-active-background'' [V ''--scalar-background-accent''],
       Decl ''--scalar-sidebar-border-color'' [V ''--scalar-border-color''],
       Decl ''--scalar-sidebar-color-1'' [V ''--scalar-color-1''],
       Decl ''--scalar-sidebar-color-2'' [V ''--scalar-color-2''],
       Decl ''--scalar-sidebar-color-active'' [V ''--scalar-color-accent''],
       Decl ''--scalar-sidebar-search-background'' [V ''--scalar-background-2''],
       Decl ''--scalar-sidebar-search-border-color'' [V ''--scalar-sidebar-border-color''],
       Decl ''--scalar-sidebar-search--color'' [V ''--scalar-color-3'']],
    Rule [[[''.dark-mode''], [''.t-doc__sidebar'']]]
      [Decl ''--scalar-sidebar-background-1'' [V ''--scalar-background-1''],
       Decl ''--scalar-sidebar-item-hover-color'' [T ''currentColor''],
       Decl ''--scalar-sidebar-item-hover-background'' [V ''--scalar-background-2''],
       Decl ''--scalar-sidebar-item-active-background'' [V ''--scalar-background-accent''],
       Decl ''--scalar-sidebar-border-color'' [V ''--scalar-border-color''],
       Decl ''--scalar-sidebar-color-1'' [V ''--scalar-color-1''],
       Decl ''--scalar-sidebar-color-2'' [V ''--scalar-color-2''],
       Decl ''--scalar-sidebar-color-active'' [V ''--scalar-color-accent''],
       Decl ''--scalar-sidebar-search-background'' [V ''--scalar-background-2''],
       Decl ''--scalar-sidebar-search-border-color'' [T ''#514c56''],
       Decl ''--scalar-sidebar-search--color'' [V ''--scalar-color-3'']],
    Rule [[[''.light-mode'']]]
      [Decl ''--scalar-button-1'' [T ''rgb(49 53 56)''],
       Decl ''--scalar-button-1-color'' [T ''#fff''],
       Decl ''--scalar-button-1-hover'' [T ''rgb(28 31 33)''],
       Decl ''--scalar-color-green'' [T ''#74dfc4''],
       Decl ''--scalar-color-red'' [T ''#d887f5''],
       Decl ''--scalar-color-yellow'' [T ''#ffe261''],
       Decl ''--scalar-color-blue'' [T ''#40b4c4''],
       Decl ''--scalar-color-orange'' [T ''#ff52bf''],
       Decl ''--scalar-color-purple'' [T ''#91889b''],
       Decl ''--scalar-color-query'' [T ''#7860a8''],
       Decl ''--scalar-scrollbar-color'' [T ''rgba(0, 0, 0, 0.18)''],
       Decl ''--scalar-scrollbar-color-active'' [T ''rgba(0, 0, 0, 0.36)'']],
    Rule [[[''.dark-mode'']]]
      [Decl ''--scalar-button-1'' [T ''#f6f6f6''],
       Decl ''--scalar-button-1-color'' [T ''#27212e''],
       Decl ''--scalar-button-1-hover'' [T ''#e7e7e7''],
       Decl ''--scalar-color-green'' [T ''#74dfc4''],
       Decl ''--scalar-color-red'' [T ''#d887f5''],
       Decl ''--scalar-color-yellow'' [T ''#ffe261''],
       Decl ''--scalar-color-blue'' [T ''#40b4c4''],
       Decl ''--scalar-color-orange'' [T ''#ff52bf''],
       Decl ''--scalar-color-purple'' [T ''#91889b''],
       Decl ''--scalar-color-query'' [T ''#b8a2e3''],
       Decl ''--scalar-scrollbar-color'' [T ''rgba(255, 255, 255, 0.24)''],
       Decl ''--scalar-scrollbar-color-active'' [T ''rgba(255, 255, 255, 0.48)'']],
    Rule [[['':root'']]]
      [Decl ''--scalar-radius'' [T ''2px''],
       Decl ''--scalar-radius-lg'' [T ''3px''],
       Decl ''--scalar-radius-xl'' [T ''4px'']],
    At ''@supports (color: color(display-p3 1 1 1))''
     [Rule [[[''.light-mode'']]]
        [Decl ''--scalar-color-accent'' [T ''color(display-p3 0.25098 0.705882 0.768627 / 1)''],
         Decl ''--scalar-color-green'' [T ''color(display-p3 0.454902 0.87451 0.768627 / 1)''],
         Decl ''--scalar-color-red'' [T ''color(display-p3 0.847059 0.529412 0.960784 / 1)''],
         Decl ''--scalar-color-yellow'' [T ''color(display-p3 1 0.886275 0.380392 / 1)''],
         Decl ''--scalar-color-blue'' [T ''color(display-p3 0.25098 0.705882 0.768627 / 1)''],
         Decl ''--scalar-color-orange'' [T ''color(display-p3 1 0.321569 0.74902 / 1)''],
         Decl ''--scalar-color-purple'' [T ''color(display-p3 0.568627 0.533333 0.607843 / 1)''],
         Decl ''--scalar-color-query'' [T ''color(display-p3 0.470588 0.376471 0.658824 / 1)'']],
      Rule [[[''.dark-mode'']]]
        [Decl ''--scalar-color-accent'' [T ''color(display-p3 0.929412 0.470588 0.760784 / 1)''],
         Decl ''--scalar-color-green'' [T ''color(display-p3 0.454902 0.87451 0.768627 / 1)''],
         Decl ''--scalar-color-red'' [T ''color(display-p3 0.847059 0.529412 0.960784 / 1)''],
         Decl ''--scalar-color-yellow'' [T ''color(display-p3 1 0.886275 0.380392 / 1)''],
         Decl ''--scalar-color-blue'' [T ''color(display-p3 0.25098 0.705882 0.768627 / 1)''],
         Decl ''--scalar-color-orange'' [T ''color(display-p3 1 0.321569 0.74902 / 1)''],
         Decl ''--scalar-color-purple'' [T ''color(display-p3 0.568627 0.533333 0.607843 / 1)''],
         Decl ''--scalar-color-query'' [T ''color(display-p3 0.721569 0.635294 0.890196 / 1)'']]]]"

definition css_mars :: "css list" where
  "css_mars =
   [Rule [[['':root'']]]
      [Decl ''--scalar-text-decoration'' [T ''underline''],
       Decl ''--scalar-text-decoration-hover'' [T ''underline'']],
    Rule [[[''.light-mode'']]]
      [Decl ''--scalar-background-1'' [T ''#f9f6f0''],
       Decl ''--scalar-background-2'' [T ''#f2efe8''],
       Decl ''--scalar-background-3'' [T ''#e9e7e2''],
       Decl ''--scalar-border-color'' [T ''rgba(203, 165, 156, 0.6)''],
       Decl ''--scalar-color-1'' [T ''#c75549''],
       Decl ''--scalar-color-2'' [T ''#c75549''],
       Decl ''--scalar-color-3'' [T ''#c75549''],
       Decl ''--scalar-color-accent'' [T ''#c75549''],
       Decl ''--scalar-background-accent'' [T ''#dcbfa81f''],
       Decl ''--scalar-code-language-color-supersede'' [V ''--scalar-color-1'']],
    Rule [[[''.dark-mode'']]]
      [Decl ''--scalar-background-1'' [T ''#140507''],
       Decl ''--scalar-background-2'' [T ''#20090c''],
       Decl ''--scalar-background-3'' [T ''#321116''],
       Decl ''--scalar-border-color'' [T ''#3c3031''],
       Decl ''--scalar-color-1'' [T ''rgba(255, 255, 255, 0.9)''],
       Decl ''--scalar-color-2'' [T ''rgba(255, 255, 255, 0.62)''],
       Decl ''--scalar-color-3'' [T ''rgba(255, 255, 255, 0.44)''],
       Decl ''--scalar-color-accent'' [T ''rgba(255, 255, 255, 0.9)''],
       Decl ''--scalar-background-accent'' [T ''#441313''],
       Decl ''--scalar-code-language-color-supersede'' [V ''--scalar-color-1'']],
    Rule [[[''.light-mode''], [''.t-doc__sidebar'']], [[''.dark-mode''], [''.t-doc__sidebar'']]]
      [Decl ''--scalar-sidebar-background-1'' [V ''--scalar-background-1''],
       Decl ''--scalar-sidebar-color-1'' [V ''--scalar-color-1''],
       Decl ''--scalar-sidebar-color-2'' [V ''--scalar-color-2''],
       Decl ''--scalar-sidebar-border-color'' [V ''--scalar-border-color''],
       Decl ''--scalar-sidebar-item-hover-color'' [T ''currentColor''],
       Decl ''--scalar-sidebar-item-hover-background'' [V ''--scalar-background-2''],
       Decl ''--scalar-sidebar-item-active-background'' [V ''--scalar-background-3''],
       Decl ''--scalar-sidebar-color-active'' [V ''--scalar-color-accent''],
       Decl ''--scalar-sidebar-search-background'' [T ''rgba(255, 255, 255, 0.1)''],
       Decl ''--scalar-sidebar-search-color'' [V ''--scalar-color-3''],
       Decl ''--scalar-sidebar-search-border-color'' [V ''--scalar-border-color''],
       Decl ''z-index'' [T ''1'']],
    Rule [[[''.light-mode'']]]
      [Decl ''--scalar-color-green'' [T ''#09533a''],
       Decl ''--scalar-color-red'' [T ''#aa181d''],
       Decl ''--scalar-color-yellow'' [T ''#ab8d2b''],
       Decl ''--scalar-color-blue'' [T ''#19689a''],
       Decl ''--scalar-color-orange'' [T ''#b26c34''],
       Decl ''--scalar-color-purple'' [T ''#4c2191''],
       Decl ''--scalar-color-query'' [T ''#086566''],
       Decl ''--scalar-button-1'' [T ''rgba(0, 0, 0, 1)''],
       Decl ''--scalar-button-1-hover'' [T ''rgba(0, 0, 0, 0.8)''],
       Decl ''--scalar-button-1-color'' [T ''#fff'']],
    Rule [[[''.dark-mode'']]]
      [Decl ''--scalar-color-green'' [T ''rgba(69, 255, 165, 0.823)''],
       Decl ''--scalar-color-red'' [T ''#ff8589''],
       Decl ''--scalar-color-yellow'' [T ''#ffcc4d''],
       Decl ''--scalar-color-blue'' [T ''#6bc1fe''],
       Decl ''--scalar-color-orange'' [T ''#f98943''],
       Decl ''--scalar-color-purple'' [T ''#b191f9''],
       Decl ''--scalar-color-query'' [T ''#79e2da''],
       Decl ''--scalar-button-1'' [T ''rgba(255, 255, 255, 1)''],
       Decl ''--scalar-button-1-hover'' [T ''rgba(255, 255, 255, 0.9)''],
       Decl ''--scalar-button-1-color'' [T ''black'']],
    Rule [[[''.dark-mode''], [''h2'', ''.t-editor__heading'']],
       [[''.dark-mode''], [''.t-editor__page-title''], [''h1'']],
       [[''.dark-mode''], [''h1'', ''.section-header'', '':not(::selection)'']],
       [[''.dark-mode''], [''.markdown''], [''h1'']],
       [[''.dark-mode''], [''.markdown''], [''h2'']],
       [[''.dark-mode''], [''.markdown''], [''h3'']],
       [[''.dark-mode''], [''.markdown''], [''h4'']],
       [[''.dark-mode''], [''.markdown''], [''h5'']],
       [[''.dark-mode''], [''.markdown''], [''h6'']]]
      [Decl ''-webkit-text-fill-color'' [T ''transparent''],
       Decl ''background-image'' [T ''linear-gradient(to right bottom, rgb(255, 255, 255) 30%, rgba(255, 255, 255, 0.38))''],
       Decl ''-webkit-background-clip'' [T ''text''],
       Decl ''background-clip'' [T ''text'']],
    Rule [[[''.light-mode''], [''.t-doc__sidebar'']]]
      [Decl ''--scalar-sidebar-search-background'' [T ''white'']],
    Rule [[[''.examples''], [''.scalar-card-footer'']]]
      [Decl ''--scalar-background-3'' [T ''transparent''],
       Decl ''padding-top'' [T ''0'']],
    Rule [[[''.section-flare'']]]
      [Decl ''overflow-x'' [T ''hidden''],
       Decl ''height'' [T ''100vh''],
       Decl ''left'' [T ''initial'']],
    Rule [[[''.section-flare-item'', '':nth-of-type(1)'']]]
      [Decl ''background'' [T ''#d25019''],
       Decl ''position'' [T ''relative''],
       Decl ''top'' [T ''-150px''],
       Decl ''right'' [T ''-400px''],
       Decl ''width'' [T ''80vw''],
       Decl ''height'' [T ''500px''],
       Decl ''margin-top'' [T ''-150px''],
       Decl ''border-radius'' [T ''50%''],
       Decl ''filter'' [T ''blur(100px)''],
       Decl ''z-index'' [T ''0'']],
    Rule [[[''.light-mode''], [''.section-flare'']]]
      [Decl ''display'' [T ''none'']],
    Rule [[[''*'', ''::selection'']]]
      [Decl ''background-color'' [T ''color-mix(in srgb, '', V ''--scalar-color-red'', T '', transparent 75%)'']],
    Rule [[[''.dark-mode''], [''.t-doc''], [''.layout-content'']]]
      [Decl ''background'' [T ''transparent'']]]"

definition css_moon :: "css list" where
  "css_moon =
   [Rule [[[''.light-mode'']]]
      [Decl ''color-scheme'' [T ''light''],
       Decl ''--scalar-color-1'' [T ''#000000''],
       Decl ''--scalar-color-2'' [T ''#000000''],
       Decl ''--scalar-color-3'' [T ''#000000''],
       Decl ''--scalar-color-accent'' [T ''#645b0f''],
       Decl ''--scalar-background-1'' [T ''#ccc9b3''],
       Decl ''--scalar-background-2'' [T ''#c2bfaa''],
       Decl ''--scalar-background-3'' [T ''#b8b5a1''],
       Decl ''--scalar-background-accent'' [T ''#000000''],
       Decl ''--scalar-border-color'' [T ''rgba(0, 0, 0, 0.2)''],
       Decl ''--scalar-scrollbar-color'' [T ''rgba(0, 0, 0, 0.18)''],
       Decl ''--scalar-scrollbar-color-active'' [T ''rgba(0, 0, 0, 0.36)''],
       Decl ''--scalar-lifted-brightness'' [T ''1''],
       Decl ''--scalar-backdrop-brightness'' [T ''1''],
       Decl ''--scalar-shadow-1'' [T ''0 1px 3px 0 rgba(0, 0, 0, 0.11)''],
       Decl ''--scalar-shadow-2'' [T ''rgba(0, 0, 0, 0.08) 0px 13px 20px 0px, rgba(0, 0, 0, 0.08) 0px 3px 8px 0px, '', V ''--scalar-border-color'', T '' 0px 0 0 1px''],
       Decl ''--scalar-button-1'' [T ''rgb(49 53 56)''],
       Decl ''--scalar-button-1-color'' [T ''#fff''],
       Decl ''--scalar-button-1-hover'' [T ''rgb(28 31 33)''],
       Decl ''--scalar-color-red'' [T ''#b91c1c''],
       Decl ''--scalar-color-orange'' [T ''#a16207''],
       Decl ''--scalar-color-green'' [T ''#047857''],
       Decl ''--scalar-color-blue'' [T ''#1d4ed8''],
       Decl ''--scalar-color-orange'' [T ''#c2410c''],
       Decl ''--scalar-color-purple'' [T ''#6d28d9''],
       Decl ''--scalar-color-query'' [T ''#0f766e'']],
    Rule [[[''.dark-mode'']]]
      [Decl ''color-scheme'' [T ''dark''],
       Decl ''--scalar-color-1'' [T ''#fffef3''],
       Decl ''--scalar-color-2'' [T ''#fffef3''],
       Decl ''--scalar-color-3'' [T ''#fffef3''],
       Decl ''--scalar-color-accent'' [T ''#c3b531''],
       Decl ''--scalar-background-1'' [T ''#313332''],
       Decl ''--scalar-background-2'' [T ''#393b3a''],
       Decl ''--scalar-background-3'' [T ''#414342''],
       Decl ''--scalar-background-accent'' [T ''#fffef3''],
       Decl ''--scalar-border-color'' [T ''#505452''],
       Decl ''--scalar-scrollbar-color'' [T ''rgba(255, 255, 255, 0.24)''],
       Decl ''--scalar-scrollbar-color-active'' [T ''rgba(255, 255, 255, 0.48)''],
       Decl ''--scalar-lifted-brightness'' [T ''1.45''],
       Decl ''--scalar-backdrop-brightness'' [T ''0.5''],
       Decl ''--scalar-shadow-1'' [T ''0 1px 3px 0 rgba(0, 0, 0, 0.11)''],
       Decl ''--scalar-shadow-2'' [T ''rgba(15, 15, 15, 0.2) 0px 3px 6px, rgba(15, 15, 15, 0.4) 0px 9px 24px, 0 0 0 1px rgba(255, 255, 255, 0.1)''],
       Decl ''--scalar-button-1'' [T ''#f6f6f6''],
       Decl ''--scalar-button-1-color'' [T ''#000''],
       Decl ''--scalar-button-1-hover'' [T ''#e7e7e7''],
       Decl ''--scalar-color-green'' [T ''#00b648''],
       Decl ''--scalar-color-red'' [T ''#dc1b19''],
       Decl ''--scalar-color-yellow'' [T ''#ffc90d''],
       Decl ''--scalar-color-blue'' [T ''#4eb3ec''],
       Decl ''--scalar-color-orange'' [T ''#ff8d4d''],
       Decl ''--scalar-color-purple'' [T ''#b191f9''],
       Decl ''--scalar-color-query'' [T ''#5eead4'']],
    Rule [[[''.light-mode''], [''.t-doc__sidebar'']], [[''.dark-mode''], [''.t-doc__sidebar'']]]
      [Decl ''--scalar-sidebar-background-1'' [V ''--scalar-background-1''],
       Decl ''--scalar-sidebar-color-1'' [V ''--scalar-color-1''],
       Decl ''--scalar-sidebar-color-2'' [V ''--scalar-color-2''],
       Decl ''--scalar-sidebar-border-color'' [V ''--scalar-border-color''],
       Decl ''--scalar-sidebar-item-hover-background'' [V ''--scalar-background-2''],
       Decl ''--scalar-sidebar-item-hover-color'' [T ''currentColor''],
       Decl ''--scalar-sidebar-item-active-background'' [V ''--scalar-background-3''],
       Decl ''--scalar-sidebar-color-active'' [V ''--scalar-color-1''],
       Decl ''--scalar-sidebar-search-background'' [T ''transparent''],
       Decl ''--scalar-sidebar-search-color'' [V ''--scalar-color-3''],
       Decl ''--scalar-sidebar-search-border-color'' [V ''--scalar-border-color'']],
    Rule [[[''*'', ''::selection'']]]
      [Decl ''background-color'' [T ''color-mix(in srgb, '', V ''--scalar-color-accent'', T '', transparent 80%)'']]]"

definition css_purple :: "css list" where
  "css_purple =
   [Rule [[[''.light-mode'']]]
      [Decl ''--scalar-background-1'' [T ''#fff''],
       Decl ''--scalar-background-2'' [T ''#f5f6f8''],
       Decl ''--scalar-background-3'' [T ''#eceef1''],
       Decl ''--scalar-color-1'' [T ''#1b1b1b''],
       Decl ''--scalar-color-2'' [T ''#757575''],
       Decl ''--scalar-color-3'' [T ''#8e8e8e''],
       Decl ''--scalar-color-accent'' [T ''#5469d4''],
       Decl ''--scalar-background-accent'' [T ''#5469d41f''],
       Decl ''--scalar-border-color'' [T ''rgba(215, 215, 206, 0.68)'']],
    Rule [[[''.dark-mode'']]]
      [Decl ''--scalar-background-1'' [T ''#15171c''],
       Decl ''--scalar-background-2'' [T ''#1c1e24''],
       Decl ''--scalar-background-3'' [T ''#22252b''],
       Decl ''--scalar-color-1'' [T ''#fafafa''],
       Decl ''--scalar-color-2'' [T ''#c9ced8''],
       Decl ''--scalar-color-3'' [T ''#8c99ad''],
       Decl ''--scalar-color-accent'' [T ''#5469d4''],
       Decl ''--scalar-background-accent'' [T ''#5469d41f''],
       Decl ''--scalar-border-color'' [T ''#3f4145'']],
    Rule [[[''.light-mode''], [''.t-doc__sidebar'']], [[''.dark-mode''], [''.t-doc__sidebar'']]]
      [Decl ''--scalar-sidebar-background-1'' [V ''--scalar-background-1''],
       Decl ''--scalar-sidebar-color-1'' [V ''--scalar-color-1''],
       Decl ''--scalar-sidebar-color-2'' [V ''--scalar-color-2''],
       Decl ''--scalar-sidebar-border-color'' [V ''--scalar-border-color''],
       Decl ''--scalar-sidebar-item-hover-color'' [T ''currentColor''],
       Decl ''--scalar-sidebar-item-hover-background'' [V ''--scalar-background-3''],
       Decl ''--scalar-sidebar-item-active-background'' [V ''--scalar-background-accent''],
       Decl ''--scalar-sidebar-color-active'' [V ''--scalar-color-accent''],
       Decl ''--scalar-sidebar-search-background'' [V ''--scalar-background-1''],
       Decl ''--scalar-sidebar-search-color'' [V ''--scalar-color-3''],
       Decl ''--scalar-sidebar-search-border-color'' [V ''--scalar-border-color'']],
    Rule [[[''.light-mode'']]]
      [Decl ''--scalar-color-green'' [T ''#17803d''],
       Decl ''--scalar-color-red'' [T ''#e10909''],
       Decl ''--scalar-color-yellow'' [T ''#edbe20''],
       Decl ''--scalar-color-blue'' [T ''#1763a6''],
       Decl ''--scalar-color-orange'' [T ''#e25b09''],
       Decl ''--scalar-color-purple'' [T ''#5c3993''],
       Decl ''--scalar-color-query'' [T ''#147873''],
       Decl ''--scalar-button-1'' [T ''rgba(0, 0, 0, 1)''],
       Decl ''--scalar-button-1-hover'' [T ''rgba(0, 0, 0, 0.8)''],
       Decl ''--scalar-button-1-color'' [T ''#fff'']],
    Rule [[[''.dark-mode'']]]
      [Decl ''--scalar-color-green'' [T ''#30a159''],
       Decl ''--scalar-color-red'' [T ''#dc1b19''],
       Decl ''--scalar-color-yellow'' [T ''#eec644''],
       Decl ''--scalar-color-blue'' [T ''#2b7abf''],
       Decl ''--scalar-color-orange'' [T ''#f07528''],
       Decl ''--scalar-color-purple'' [T ''#7a59b1''],
       Decl ''--scalar-color-query'' [T ''#4ac6b7''],
       Decl ''--scalar-button-1'' [T ''rgba(255, 255, 255, 1)''],
       Decl ''--scalar-button-1-hover'' [T ''rgba(255, 255, 255, 0.9)''],
       Decl ''--scalar-button-1-color'' [T ''black'']],
    Rule [[[''.light-mode''], [''*'', ''::selection'']]]
      [Decl ''background-color'' [T ''color-mix(in srgb, '', V ''--scalar-color-accent'', T '', transparent 70%)'']],
    Rule [[[''.dark-mode''], [''*'', ''::selection'']]]
      [Decl ''background-color'' [T ''color-mix(in srgb, '', V ''--scalar-color-accent'', T '', transparent 50%)'']]]"

definition css_saturn :: "css list" where
  "css_saturn =
   [Rule [[[''.light-mode'']]]
      [Decl ''--scalar-background-1'' [T ''#f3f3ee''],
       Decl ''--scalar-background-2'' [T ''#e8e8e3''],
       Decl ''--scalar-background-3'' [T ''#e4e4df''],
       Decl ''--scalar-border-color'' [T ''rgba(215, 215, 206, 0.85)''],
       Decl ''--scalar-color-1'' [T ''#1b1b1b''],
       Decl ''--scalar-color-2'' [T ''#757575''],
       Decl ''--scalar-color-3'' [T ''#8e8e8e''],
       Decl ''--scalar-color-accent'' [T ''#1763a6''],
       Decl ''--scalar-background-accent'' [T ''#1f648e1f'']],
    Rule [[[''.dark-mode'']]]
      [Decl ''--scalar-background-1'' [T ''#09090b''],
       Decl ''--scalar-background-2'' [T ''#18181b''],
       Decl ''--scalar-background-3'' [T ''#2c2c30''],
       Decl ''--scalar-border-color'' [T ''rgba(255, 255, 255, 0.17)''],
       Decl ''--scalar-color-1'' [T ''#fafafa''],
       Decl ''--scalar-color-2'' [T ''rgb(161, 161, 170)''],
       Decl ''--scalar-color-3'' [T ''rgba(255, 255, 255, 0.533)''],
       Decl ''--scalar-color-accent'' [T ''#4eb3ec''],
       Decl ''--scalar-background-accent'' [T ''#8ab4f81f'']],
    Rule [[[''.light-mode''], [''.t-doc__sidebar'']], [[''.dark-mode''], [''.t-doc__sidebar'']]]
      [Decl ''--scalar-sidebar-background-1'' [V ''--scalar-background-1''],
       Decl ''--scalar-sidebar-color-1'' [V ''--scalar-color-1''],
       Decl ''--scalar-sidebar-color-2'' [V ''--scalar-color-2''],
       Decl ''--scalar-sidebar-border-color'' [V ''--scalar-border-color''],
       Decl ''--scalar-sidebar-item-hover-background'' [V ''--scalar-background-2''],
       Decl ''--scalar-sidebar-item-hover-color'' [T ''currentColor''],
       Decl ''--scalar-sidebar-item-active-background'' [V ''--scalar-background-3''],
       Decl ''--scalar-sidebar-color-active'' [V ''--scalar-color-1''],
       Decl ''--scalar-sidebar-search-background'' [V ''--scalar-background-1''],
       Decl ''--scalar-sidebar-search-border-color'' [V ''--scalar-border-color''],
       Decl ''--scalar-sidebar-search-color'' [V ''--scalar-color-3'']],
    Rule [[[''.light-mode'']]]
      [Decl ''--scalar-color-green'' [T ''#17803d''],
       Decl ''--scalar-color-red'' [T ''#e10909''],
       Decl ''--scalar-color-yellow'' [T ''#edbe20''],
       Decl ''--scalar-color-blue'' [T ''#1763a6''],
       Decl ''--scalar-color-orange'' [T ''#e25b09''],
       Decl ''--scalar-color-purple'' [T ''#5c3993''],
       Decl ''--scalar-color-query'' [T ''#147873''],
       Decl ''--scalar-button-1'' [T ''rgba(0, 0, 0, 1)''],
       Decl ''--scalar-button-1-hover'' [T ''rgba(0, 0, 0, 0.8)''],
       Decl ''--scalar-button-1-color'' [T ''#fff'']],
    Rule [[[''.dark-mode'']]]
      [Decl ''--scalar-color-green'' [T ''#30a159''],
       Decl ''--scalar-color-red'' [T ''#dc1b19''],
       Decl ''--scalar-color-yellow'' [T ''#eec644''],
       Decl ''--scalar-color-blue'' [T ''#2b7abf''],
       Decl ''--scalar-color-orange'' [T ''#f07528''],
       Decl ''--scalar-color-purple'' [T ''#7a59b1''],
       Decl ''--scalar-color-query'' [T ''#4ac6b7''],
       Decl ''--scalar-button-1'' [T ''rgba(255, 255, 255, 1)''],
       Decl ''--scalar-button-1-hover'' [T ''rgba(255, 255, 255, 0.9)''],
       Decl ''--scalar-button-1-color'' [T ''black'']],
    Rule [[[''.dark-mode''], [''h2'', ''.t-editor__heading'']],
       [[''.dark-mode''], [''.t-editor__page-title''], [''h1'']],
       [[''.dark-mode''], [''h1'', ''.section-header'', '':not(::selection)'']],
       [[''.dark-mode''], [''.markdown''], [''h1'']],
       [[''.dark-mode''], [''.markdown''], [''h2'']],
       [[''.dark-mode''], [''.markdown''], [''h3'']],
       [[''.dark-mode''], [''.markdown''], [''h4'']],
       [[''.dark-mode''], [''.markdown''], [''h5'']],
       [[''.dark-mode''], [''.markdown''], [''h6'']]]
      [Decl ''-webkit-text-fill-color'' [T ''transparent''],
       Decl ''background-image'' [T ''linear-gradient(to right bottom, rgb(255, 255, 255) 30%, rgba(255, 255, 255, 0.38))''],
       Decl ''-webkit-background-clip'' [T ''text''],
       Decl ''background-clip'' [T ''text'']],
    Rule [[[''.light-mode''], [''*'', ''::selection'']]]
      [Decl ''background-color'' [T ''color-mix(in srgb, '', V ''--scalar-color-accent'', T '', transparent 70%)'']],
    Rule [[[''.dark-mode''], [''*'', ''::selection'']]]
      [Decl ''background-color'' [T ''color-mix(in srgb, '', V ''--scalar-color-accent'', T '', transparent 50%)'']]]"

definition css_solarized :: "css list" where
  "css_solarized =
   [Rule [[[''.light-mode'']]]
      [Decl ''color-scheme'' [T ''light''],
       Decl ''--scalar-color-1'' [T ''#584c27''],
       Decl ''--scalar-color-2'' [T ''#616161''],
       Decl ''--scalar-color-3'' [T ''#a89f84''],
       Decl ''--scalar-color-accent'' [T ''#b58900''],
       Decl ''--scalar-background-1'' [T ''#fdf6e3''],
       Decl ''--scalar-background-2'' [T ''#eee8d5''],
       Decl ''--scalar-background-3'' [T ''#ddd6c1''],
       Decl ''--scalar-background-accent'' [T ''#b589001f''],
       Decl ''--scalar-border-color'' [T ''#ded8c8''],
       Decl ''--scalar-scrollbar-color'' [T ''rgba(0, 0, 0, 0.18)''],
       Decl ''--scalar-scrollbar-color-active'' [T ''rgba(0, 0, 0, 0.36)''],
       Decl ''--scalar-lifted-brightness'' [T ''1''],
       Decl ''--scalar-backdrop-brightness'' [T ''1''],
       Decl ''--scalar-shadow-1'' [T ''0 1px 3px 0 rgba(0, 0, 0, 0.11)''],
       Decl ''--scalar-shadow-2'' [T ''rgba(0, 0, 0, 0.08) 0px 13px 20px 0px, rgba(0, 0, 0, 0.08) 0px 3px 8px 0px, #eeeeed 0px 0 0 1px''],
       Decl ''--scalar-button-1'' [T ''rgb(49 53 56)''],
       Decl ''--scalar-button-1-color'' [T ''#fff''],
       Decl ''--scalar-button-1-hover'' [T ''rgb(28 31 33)''],
       Decl ''--scalar-color-red'' [T ''#b91c1c''],
       Decl ''--scalar-color-orange'' [T ''#a16207''],
       Decl ''--scalar-color-green'' [T ''#047857''],
       Decl ''--scalar-color-blue'' [T ''#1d4ed8''],
       Decl ''--scalar-color-orange'' [T ''#c2410c''],
       Decl ''--scalar-color-purple'' [T ''#6d28d9''],
       Decl ''--scalar-color-query'' [T ''#007f78'']],
    Rule [[[''.dark-mode'']]]
      [Decl ''color-scheme'' [T ''dark''],
       Decl ''--scalar-color-1'' [T ''#fff''],
       Decl ''--scalar-color-2'' [T ''#cccccc''],
       Decl ''--scalar-color-3'' [T ''#6d8890''],
       Decl ''--scalar-color-accent'' [T ''#007acc''],
       Decl ''--scalar-background-1'' [T ''#00212b''],
       Decl ''--scalar-background-2'' [T ''#012b36''],
       Decl ''--scalar-background-3'' [T ''#004052''],
       Decl ''--scalar-background-accent'' [T ''#015a6f''],
       Decl ''--scalar-border-color'' [T ''#2f4851''],
       Decl ''--scalar-scrollbar-color'' [T ''rgba(255, 255, 255, 0.24)''],
       Decl ''--scalar-scrollbar-color-active'' [T ''rgba(255, 255, 255, 0.48)''],
       Decl ''--scalar-lifted-brightness'' [T ''1.45''],
       Decl ''--scalar-backdrop-brightness'' [T ''0.5''],
       Decl ''--scalar-shadow-1'' [T ''0 1px 3px 0 rgb(0, 0, 0, 0.1)''],
       Decl ''--scalar-shadow-2'' [T ''rgba(15, 15, 15, 0.2) 0px 3px 6px, rgba(15, 15, 15, 0.4) 0px 9px 24px, 0 0 0 1px rgba(255, 255, 255, 0.1)''],
       Decl ''--scalar-button-1'' [T ''#f6f6f6''],
       Decl ''--scalar-button-1-color'' [T ''#000''],
       Decl ''--scalar-button-1-hover'' [T ''#e7e7e7''],
       Decl ''--scalar-color-green'' [T ''#00b648''],
       Decl ''--scalar-color-red'' [T ''#dc1b19''],
       Decl ''--scalar-color-yellow'' [T ''#ffc90d''],
       Decl ''--scalar-color-blue'' [T ''#4eb3ec''],
       Decl ''--scalar-color-orange'' [T ''#ff8d4d''],
       Decl ''--scalar-color-purple'' [T ''#b191f9''],
       Decl ''--scalar-color-query'' [T ''#7bdac7'']],
    Rule [[[''.light-mode''], [''.t-doc__sidebar'']]]
      [Decl ''--scalar-sidebar-background-1'' [V ''--scalar-background-1''],
       Decl ''--scalar-sidebar-item-hover-color'' [T ''currentColor''],
       Decl ''--scalar-sidebar-item-hover-background'' [V ''--scalar-background-2''],
       Decl ''--scalar-sidebar-item-active-background'' [V ''--scalar-background-accent''],
       Decl ''--scalar-sidebar-border-color'' [V ''--scalar-border-color''],
       Decl ''--scalar-sidebar-color-1'' [V ''--scalar-color-1''],
       Decl ''--scalar-sidebar-color-2'' [V ''--scalar-color-2''],
       Decl ''--scalar-sidebar-color-active'' [V ''--scalar-color-accent''],
       Decl ''--scalar-sidebar-search-background'' [V ''--scalar-background-2''],
       Decl ''--scalar-sidebar-search-border-color'' [V ''--scalar-sidebar-search-background''],
       Decl ''--scalar-sidebar-search--color'' [V ''--scalar-color-3'']],
    Rule [[[''.dark-mode''], [''.t-doc__sidebar'']]]
      [Decl ''--scalar-sidebar-background-1'' [V ''--scalar-background-1''],
       Decl ''--scalar-sidebar-item-hover-color'' [T ''currentColor''],
       Decl ''--scalar-sidebar-item-hover-background'' [V ''--scalar-background-2''],
       Decl ''--scalar-sidebar-item-active-background'' [V ''--scalar-background-accent''],
       Decl ''--scalar-sidebar-border-color'' [V ''--scalar-border-color''],
       Decl ''--scalar-sidebar-color-1'' [V ''--scalar-color-1''],
       Decl ''--scalar-sidebar-color-2'' [V ''--scalar-color-2''],
       Decl ''--scalar-sidebar-color-active'' [V ''--scalar-sidebar-color-1''],
       Decl ''--scalar-sidebar-search-background'' [V ''--scalar-background-2''],
       Decl ''--scalar-sidebar-search-border-color'' [V ''--scalar-sidebar-search-background''],
       Decl ''--scalar-sidebar-search--color'' [V ''--scalar-color-3'']],
    Rule [[[''*'', ''::selection'']]]
      [Decl ''background-color'' [T ''color-mix(in srgb, '', V ''--scalar-color-accent'', T '', transparent 70%)'']]]"

definition css_fallback :: "css list" where
  "css_fallback =
   [Rule [[['':root'']]]
      [Decl ''--scalar-text-decoration'' [T ''underline''],
       Decl ''--scalar-text-decoration-hover'' [T ''underline'']],
    Rule [[[''.light-mode'']]]
      [Decl ''--scalar-background-1'' [T ''#fff''],
       Decl ''--scalar-background-2'' [T ''#f6f6f6''],
       Decl ''--scalar-background-3'' [T ''#e7e7e7''],
       Decl ''--scalar-background-accent'' [T ''#8ab4f81f''],
       Decl ''--scalar-color-1'' [T ''#1b1b1b''],
       Decl ''--scalar-color-2'' [T ''#757575''],
       Decl ''--scalar-color-3'' [T ''#8e8e8e''],
       Decl ''--scalar-color-accent'' [T ''#0099ff''],
       Decl ''--scalar-border-color'' [T ''#dfdfdf'']],
    Rule [[[''.dark-mode'']]]
      [Decl ''--scalar-background-1'' [T ''#0f0f0f''],
       Decl ''--scalar-background-2'' [T ''#1a1a1a''],
       Decl ''--scalar-background-3'' [T ''#272727''],
       Decl ''--scalar-color-1'' [T ''#e7e7e7''],
       Decl ''--scalar-color-2'' [T ''#a4a4a4''],
       Decl ''--scalar-color-3'' [T ''#797979''],
       Decl ''--scalar-color-accent'' [T ''#00aeff''],
       Decl ''--scalar-background-accent'' [T ''#3ea6ff1f''],
       Decl ''--scalar-border-color'' [T ''#2d2d2d'']],
    Rule [[[''.light-mode'']], [[''.dark-mode'']]]
      [Decl ''--scalar-sidebar-background-1'' [V ''--scalar-background-1''],
       Decl ''--scalar-sidebar-color-1'' [V ''--scalar-color-1''],
       Decl ''--scalar-sidebar-color-2'' [V ''--scalar-color-2''],
       Decl ''--scalar-sidebar-border-color'' [V ''--scalar-border-color''],
       Decl ''--scalar-sidebar-item-hover-background'' [V ''--scalar-background-2''],
       Decl ''--scalar-sidebar-item-hover-color'' [V ''--scalar-sidebar-color-2''],
       Decl ''--scalar-sidebar-item-active-background'' [V ''--scalar-background-2''],
       Decl ''--scalar-sidebar-color-active'' [V ''--scalar-sidebar-color-1''],
       Decl ''--scalar-sidebar-indent-border'' [V ''--scalar-sidebar-border-color''],
       Decl ''--scalar-sidebar-indent-border-hover'' [V ''--scalar-sidebar-border-color''],
       Decl ''--scalar-sidebar-indent-border-active'' [V ''--scalar-sidebar-border-color''],
       Decl ''--scalar-sidebar-search-background'' [T ''color-mix(in srgb, '', V ''--scalar-background-2'', T '', '', V ''--scalar-background-1'', T '')''],
       Decl ''--scalar-sidebar-search-color'' [V ''--scalar-color-3''],
       Decl ''--scalar-sidebar-search-border-color'' [V ''--scalar-border-color'']],
    Rule [[[''.light-mode'']]]
      [Decl ''--scalar-color-green'' [T ''#069061''],
       Decl ''--scalar-color-red'' [T ''#ef0006''],
       Decl ''--scalar-color-yellow'' [T ''#edbe20''],
       Decl ''--scalar-color-blue'' [T ''#0082d0''],
       Decl ''--scalar-color-orange'' [T ''#ff5800''],
       Decl ''--scalar-color-purple'' [T ''#5203d1''],
       Decl ''--scalar-color-query'' [T ''#007b80''],
       Decl ''--scalar-link-color'' [V ''--scalar-color-1''],
       Decl ''--scalar-link-color-hover'' [V ''--scalar-link-color''],
       Decl ''--scalar-button-1'' [T ''rgba(0, 0, 0, 1)''],
       Decl ''--scalar-button-1-hover'' [T ''rgba(0, 0, 0, 0.8)''],
       Decl ''--scalar-button-1-color'' [T ''#fff''],
       Decl ''--scalar-tooltip-background'' [T ''color-mix(in srgb, '', V ''--scalar-background-1'', T '', transparent 10%)''],
       Decl ''--scalar-tooltip-color'' [V ''--scalar-color-1''],
       Decl ''--scalar-color-alert'' [T ''color-mix(in srgb, '', V ''--scalar-color-orange'', T '', '', V ''--scalar-color-1'', T '' 20%)''],
       Decl ''--scalar-color-danger'' [T ''color-mix(in srgb, '', V ''--scalar-color-red'', T '', '', V ''--scalar-color-1'', T '' 20%)''],
       Decl ''--scalar-background-alert'' [T ''color-mix(in srgb, '', V ''--scalar-color-orange'', T '', '', V ''--scalar-background-1'', T '' 95%)''],
       Decl ''--scalar-background-danger'' [T ''color-mix(in srgb, '', V ''--scalar-color-red'', T '', '', V ''--scalar-background-1'', T '' 95%)'']],
    Rule [[[''.dark-mode'']]]
      [Decl ''--scalar-color-green'' [T ''#00b648''],
       Decl ''--scalar-color-red'' [T ''#dc1b19''],
       Decl ''--scalar-color-yellow'' [T ''#ffc90d''],
       Decl ''--scalar-color-blue'' [T ''#4eb3ec''],
       Decl ''--scalar-color-orange'' [T ''#ff8d4d''],
       Decl ''--scalar-color-purple'' [T ''#b191f9''],
       Decl ''--scalar-color-query'' [T ''#65d4cf''],
       Decl ''--scalar-link-color'' [V ''--scalar-color-1''],
       Decl ''--scalar-link-color-hover'' [V ''--scalar-link-color''],
       Decl ''--scalar-button-1'' [T ''rgba(255, 255, 255, 1)''],
       Decl ''--scalar-button-1-hover'' [T ''rgba(255, 255, 255, 0.9)''],
       Decl ''--scalar-button-1-color'' [T ''black''],
       Decl ''--scalar-tooltip-background'' [T ''color-mix(in srgb, '', V ''--scalar-background-1'', T '', #fff 10%)''],
       Decl ''--scalar-tooltip-color'' [T ''color-mix(in srgb, #fff, transparent 5%)''],
       Decl ''--scalar-color-danger'' [T ''color-mix(in srgb, '', V ''--scalar-color-red'', T '', '', V ''--scalar-background-1'', T '' 20%)''],
       Decl ''--scalar-background-alert'' [T ''color-mix(in srgb, '', V ''--scalar-color-orange'', T '', '', V ''--scalar-background-1'', T '' 95%)''],
       Decl ''--scalar-background-danger'' [T ''color-mix(in srgb, '', V ''--scalar-color-red'', T '', '', V ''--scalar-background-1'', T '' 95%)'']],
    At ''@supports (color: color(display-p3 1 1 1))''
     [Rule [[[''.light-mode'']]]
        [Decl ''--scalar-color-accent'' [T ''color(display-p3 0 0.6 1 / 1)''],
         Decl ''--scalar-color-green'' [T ''color(display-p3 0.023529 0.564706 0.380392 / 1)''],
         Decl ''--scalar-color-red'' [T ''color(display-p3 0.937255 0 0.023529 / 1)''],
         Decl ''--scalar-color-yellow'' [T ''color(display-p3 0.929412 0.745098 0.12549 / 1)''],
         Decl ''--scalar-color-blue'' [T ''color(display-p3 0 0.509804 0.815686 / 1)''],
         Decl ''--scalar-color-orange'' [T ''color(display-p3 1 0.4 0.02)''],
         Decl ''--scalar-color-purple'' [T ''color(display-p3 0.321569 0.011765 0.819608 / 1)'']],
      Rule [[[''.dark-mode'']]]
        [Decl ''--scalar-color-accent'' [T ''color(display-p3 0.07 0.67 1)''],
         Decl ''--scalar-color-green'' [T ''color(display-p3 0 0.713725 0.282353 / 1)''],
         Decl ''--scalar-color-red'' [T ''color(display-p3 0.862745 0.105882 0.098039 / 1)''],
         Decl ''--scalar-color-yellow'' [T ''color(display-p3 1 0.788235 0.05098 / 1)''],
         Decl ''--scalar-color-blue'' [T ''color(display-p3 0.305882 0.701961 0.92549 / 1)''],
         Decl ''--scalar-color-orange'' [T ''color(display-p3 1 0.552941 0.301961 / 1)''],
         Decl ''--scalar-color-purple'' [T ''color(display-p3 0.694118 0.568627 0.976471 / 1)'']]]]"

end
