(* ===== verification/ScalarThemes.thy ===== *)
theory ScalarThemes
  imports ThemeSheets1 ThemeSheets2 ThemeFonts
begin

text \<open>
  Theme selection of the API reference (\<open>getThemeStyles\<close> and the preset table of
  \<open>docs/scalar/scalar.standalone.js\<close>), and what the preset sheets mean on a page: which palette a
  page or a dark card shows, and which requests a style sheet makes.
\<close>

record preset =
  p_uid :: string
  p_name :: string
  p_description :: string
  p_theme :: "css list"
  p_slug :: string

definition theme_ids :: "string list" where
  "theme_ids =
     [''alternate'', ''default'', ''moon'', ''purple'', ''solarized'', ''bluePlanet'', ''deepSpace'', ''saturn'',
      ''kepler'', ''elysiajs'', ''fastify'', ''mars'', ''laserwave'', ''none'']"

definition theme_labels :: "(string \<times> string) list" where
  "theme_labels =
     [(''default'', ''Default''), (''alternate'', ''Alternate''), (''moon'', ''Moon''), (''purple'', ''Purple''),
      (''solarized'', ''Solarized''), (''elysiajs'', ''Elysia.js''), (''fastify'', ''Fastify''),
      (''bluePlanet'', ''Blue Planet''), (''saturn'', ''Saturn''), (''kepler'', ''Kepler-11e''), (''mars'', ''Mars''),
      (''deepSpace'', ''Deep Space''), (''laserwave'', ''Laserwave''), (''none'', ''None'')]"

definition preset_of :: "string \<Rightarrow> string \<Rightarrow> string \<Rightarrow> css list \<Rightarrow> string \<Rightarrow> preset" where
  "preset_of u n d t s = \<lparr>p_uid = u, p_name = n, p_description = d, p_theme = t, p_slug = s\<rparr>"

definition presets :: "(string \<times> preset) list" where
  "presets =
     [(''default'', preset_of ''qTQR9jSM8E-LihpyZzPOi'' ''Default'' ''Default Scalar theme'' css_default ''default''),
      (''alternate'', preset_of ''2skUDSH4S8HYFF9yXysr-'' ''Alternate'' ''Alternate Scalar theme'' css_alternate ''alternate''),
      (''moon'', preset_of ''DG9ZUNp5lJhDeX_kPX4Bl'' ''Moon'' ''Lunar styles'' css_moon ''moon''),
      (''purple'', preset_of ''pE_1ysxcZ-y2LM1GGNBUv'' ''Purple'' ''Purple Scalar theme'' css_purple ''purple''),
      (''solarized'', preset_of ''BdGVG1vf-4nYl3wJKyj8l'' ''Solarized'' ''Solarized Scalar theme'' css_solarized ''solarized''),
      (''bluePlanet'', preset_of ''X12IfAvl7ue-42V2lW40S'' ''Blue Planet'' ''Blue Planet Scalar theme'' css_blue_planet ''blue-planet''),
      (''deepSpace'', preset_of ''K8b38NWQiicq4-zXGXKdI'' ''Deep Space'' ''Deep Space Scalar theme'' css_deep_space ''deep-space''),
      (''saturn'', preset_of ''1jyAjmbIZQG-RUU4Ugk9o'' ''Saturn'' ''Saturn Scalar theme'' css_saturn ''saturn''),
      (''kepler'', preset_of ''jZ6dnWbtqQ0Hz3s9jLPH0'' ''Kepler-11e'' ''Kepler-11e Scalar theme'' css_kepler ''kepler-11e''),
      (''mars'', preset_of ''YY4LQgwiXix55-TmMz9qd'' ''Mars'' ''Mars Scalar theme'' css_mars ''mars''),
      (''laserwave'', preset_of ''c5fZEi-K-hP-xXf885dkf'' ''Laserwave'' ''Laserwave Scalar theme'' css_laserwave ''laserwave''),
      (''elysiajs'', preset_of ''nEVZkRmCylPkT0o9YJa7y'' ''Elysia.js'' ''Elysia.js theme'' css_elysia ''elysiajs''),
      (''fastify'', preset_of ''nTZcdcM2_yHFZFxTQe9Kk'' ''Fastify'' ''Fastify theme'' css_fastify ''fastify'')]"

text \<open>An absent option takes its default; an explicit null or empty layer leaves the sheet unlayered.\<close>

record style_options =
  o_fonts :: "bool option"
  o_layer :: "string option option"

definition theme_styles :: "string option \<Rightarrow> style_options \<Rightarrow> css list" where
  "theme_styles e t =
     (let n = (case o_fonts t of None \<Rightarrow> True | Some b \<Rightarrow> b);
          r = (case o_layer t of None \<Rightarrow> Some ''scalar-theme'' | Some l \<Rightarrow> l);
          key = (case e of None \<Rightarrow> ''default'' | Some s \<Rightarrow> if s = '''' then ''default'' else s);
          i = (case map_of presets key of None \<Rightarrow> css_fallback | Some p \<Rightarrow> p_theme p)
                @ (if n then css_fonts else [])
      in (case r of None \<Rightarrow> i | Some l \<Rightarrow> if l = '''' then i else [At (''@layer '' @ l) i]))"

subsection \<open>Colours\<close>

text \<open>Red, green and blue in 0..255 and the opacity in thousandths.\<close>

type_synonym colour = "int \<times> int \<times> int \<times> int"

definition hex_digits :: "(char \<times> int) list" where
  "hex_digits =
     [(CHR ''0'', 0), (CHR ''1'', 1), (CHR ''2'', 2), (CHR ''3'', 3), (CHR ''4'', 4), (CHR ''5'', 5), (CHR ''6'', 6),
      (CHR ''7'', 7), (CHR ''8'', 8), (CHR ''9'', 9), (CHR ''a'', 10), (CHR ''b'', 11), (CHR ''c'', 12),
      (CHR ''d'', 13), (CHR ''e'', 14), (CHR ''f'', 15)]"

definition digit_values :: "string \<Rightarrow> int list option" where
  "digit_values s = those (map (map_of hex_digits) s)"

definition hex_colour :: "string \<Rightarrow> colour option" where
  "hex_colour s =
     (case digit_values s of
        Some [r, g, b] \<Rightarrow> Some (17 * r, 17 * g, 17 * b, 1000)
      | Some [r, r', g, g', b, b'] \<Rightarrow> Some (16 * r + r', 16 * g + g', 16 * b + b', 1000)
      | Some [r, r', g, g', b, b', a, a'] \<Rightarrow>
          Some (16 * r + r', 16 * g + g', 16 * b + b', (16 * a + a') * 1000 div 255)
      | _ \<Rightarrow> None)"

fun fields :: "string \<Rightarrow> string list" where
  "fields [] = [[]]"
| "fields (c # cs) =
     (if c = CHR '' '' \<or> c = CHR '','' then [] # fields cs
      else (case fields cs of [] \<Rightarrow> [[c]] | f # fs \<Rightarrow> (c # f) # fs))"

definition whole :: "string \<Rightarrow> int option" where
  "whole s =
     (case digit_values s of
        None \<Rightarrow> None
      | Some ds \<Rightarrow> if ds \<noteq> [] \<and> list_all (\<lambda>d. d < 10) ds then Some (foldl (\<lambda>n d. 10 * n + d) 0 ds) else None)"

definition thousandths :: "string \<Rightarrow> int option" where
  "thousandths s =
     (case (whole (takeWhile (\<lambda>c. c \<noteq> CHR ''.'') s),
            whole (take 3 (drop 1 (dropWhile (\<lambda>c. c \<noteq> CHR ''.'') s) @ ''000''))) of
        (Some a, Some b) \<Rightarrow> Some (1000 * a + b)
      | _ \<Rightarrow> None)"

definition colour_of :: "string \<Rightarrow> colour option" where
  "colour_of s =
     (if s = ''black'' then Some (0, 0, 0, 1000)
      else if s = ''white'' then Some (255, 255, 255, 1000)
      else if take 1 s = ''#'' then hex_colour (drop 1 s)
      else if take 4 s = ''rgb('' \<or> take 5 s = ''rgba('' then
        (case filter (\<lambda>f. f \<noteq> []) (fields (butlast (drop 1 (dropWhile (\<lambda>c. c \<noteq> CHR ''('') s)))) of
           [r, g, b] \<Rightarrow>
             (case (whole r, whole g, whole b) of
                (Some r, Some g, Some b) \<Rightarrow> Some (r, g, b, 1000) | _ \<Rightarrow> None)
         | [r, g, b, a] \<Rightarrow>
             (case (whole r, whole g, whole b, thousandths a) of
                (Some r, Some g, Some b, Some a) \<Rightarrow> Some (r, g, b, a) | _ \<Rightarrow> None)
         | _ \<Rightarrow> None)
      else None)"

text \<open>Brightness in thousandths, and the difference a text shows on an opaque background.\<close>

fun brightness :: "colour \<Rightarrow> int" where
  "brightness (r, g, b, a) = 299 * r + 587 * g + 114 * b"

definition brighter_by :: "colour \<Rightarrow> colour \<Rightarrow> int" where
  "brighter_by text back = snd (snd (snd text)) * (brightness text - brightness back)"

definition opaque :: "colour \<Rightarrow> bool" where
  "opaque c \<longleftrightarrow> snd (snd (snd c)) = 1000"

text \<open>
  The palette every page reads, and when a text is legible: the background is opaque and the
  brightness differs by at least 125 of 255, in the direction of the mode.
\<close>

definition core_names :: "string list" where
  "core_names =
     [''--scalar-background-1'', ''--scalar-background-2'', ''--scalar-background-3'', ''--scalar-border-color'',
      ''--scalar-color-1'', ''--scalar-color-2'', ''--scalar-color-3'', ''--scalar-color-accent'',
      ''--scalar-color-green'', ''--scalar-color-red'', ''--scalar-color-orange'', ''--scalar-color-blue'',
      ''--scalar-color-purple'', ''--scalar-color-query'', ''--scalar-button-1'', ''--scalar-button-1-hover'',
      ''--scalar-button-1-color'']"

definition colour_in :: "(string \<Rightarrow> string option) \<Rightarrow> string \<Rightarrow> colour option" where
  "colour_in env x = (case env x of None \<Rightarrow> None | Some s \<Rightarrow> colour_of s)"

definition legible :: "bool \<Rightarrow> colour option \<Rightarrow> colour option \<Rightarrow> bool" where
  "legible dark back text =
     (case (back, text) of
        (Some b, Some t) \<Rightarrow>
          opaque b \<and> (if dark then 125000000 \<le> brighter_by t b else brighter_by t b \<le> - 125000000)
      | _ \<Rightarrow> False)"

definition texts_legible :: "bool \<Rightarrow> (string \<Rightarrow> string option) \<Rightarrow> bool" where
  "texts_legible dark env \<longleftrightarrow>
     legible dark (colour_in env ''--scalar-background-1'') (colour_in env ''--scalar-color-1'') \<and>
     legible dark (colour_in env ''--scalar-background-1'') (colour_in env ''--scalar-color-2'')"

definition palette_ok :: "bool \<Rightarrow> (string \<Rightarrow> string option) \<Rightarrow> bool" where
  "palette_ok dark env \<longleftrightarrow>
     list_all (\<lambda>x. colour_in env x \<noteq> None) core_names \<and> texts_legible dark env"

subsection \<open>Pages and cards\<close>

text \<open>A wide page without wide-gamut colours: layers apply, the other conditional groups do not.\<close>

definition wide :: "string \<Rightarrow> bool" where
  "wide p \<longleftrightarrow> take 7 p = ''@layer ''"

definition page :: "string \<Rightarrow> node list" where
  "page mode = [[''body'', mode], [''html'', '':root'']]"

text \<open>The code cards are dark on every page.\<close>

definition card :: "string \<Rightarrow> node list" where
  "card mode = [''.scalar-card'', ''.dark-mode''] # page mode"

subsection \<open>The selected sheet\<close>

lemma fallback_default: "css_fallback = css_default"
  by (simp only: css_fallback_def css_default_def)

definition chosen :: "string option \<Rightarrow> css list" where
  "chosen e =
     (case e of None \<Rightarrow> css_default
      | Some k \<Rightarrow> (case map_of presets k of None \<Rightarrow> css_default | Some p \<Rightarrow> p_theme p))"

lemma default_key: "map_option p_theme (map_of presets ''default'') = Some css_default"
  by (simp add: presets_def preset_of_def)

lemma no_preset: "map_of presets '''' = None" "map_of presets ''none'' = None"
  by (simp_all add: presets_def)

lemma styles_body:
  "(case map_of presets (case e of None \<Rightarrow> ''default'' | Some s \<Rightarrow> if s = '''' then ''default'' else s) of
      None \<Rightarrow> css_fallback | Some p \<Rightarrow> p_theme p) = chosen e"
  using default_key by (auto simp: chosen_def fallback_default no_preset split: option.split)

text \<open>Which style sheet a theme id gives: the preset of that name, and the default theme for an absent,
  empty or unknown id. The web fonts follow unless switched off, and everything lies in one layer
  unless the layer is null or empty.
\<close>

lemma theme_styles_sheet:
  "theme_styles e t =
     (let i = chosen e @ (if o_fonts t = Some False then [] else css_fonts) in
      if o_layer t = Some None \<or> o_layer t = Some (Some '''') then i
      else [At (''@layer '' @ (case o_layer t of Some (Some l) \<Rightarrow> l | _ \<Rightarrow> ''scalar-theme'')) i])"
  unfolding theme_styles_def styles_body Let_def
  by (cases "o_fonts t"; cases "o_layer t") (auto split: option.split)

lemma chosen_cases:
  assumes "\<And>s. s \<in> p_theme ` snd ` set presets \<Longrightarrow> P s"
  shows "P (chosen e)"
proof -
  have a: "P (p_theme p)" if "map_of presets k = Some p" for k p
    using map_of_SomeD [OF that] by (force intro: assms)
  from default_key obtain z where "map_of presets ''default'' = Some z" "p_theme z = css_default" by auto
  with a have "P css_default" by metis
  with a show ?thesis by (auto simp: chosen_def split: option.split)
qed

lemma preset_themes:
  "p_theme ` snd ` set presets =
     {css_default, css_alternate, css_moon, css_purple, css_solarized, css_blue_planet, css_deep_space,
      css_saturn, css_kepler, css_mars, css_laserwave, css_elysia, css_fastify}"
  by (simp add: presets_def preset_of_def)

lemma entries_layer:
  "entries wide [At (''@layer '' @ l) i] path = entries wide i path"
  by (simp add: entries_def wide_def)

lemma entries_styles: "entries wide (theme_styles e t) path = entries wide (chosen e) path"
proof -
  have "entries wide css_fonts path = []" by (simp add: entries_def css_fonts_def)
  then have "entries wide (i @ css_fonts) path = entries wide i path" for i by (simp add: entries_def)
  then show ?thesis by (simp only: theme_styles_sheet entries_layer Let_def append_Nil2 split: if_split) simp
qed

lemma computed_styles: "computed wide (theme_styles e t) path x = computed wide (chosen e) path x"
proof (induction path arbitrary: x)
  case (Cons n anc)
  have "computed wide (theme_styles e t) anc = computed wide (chosen e) anc" using Cons.IH by (rule ext)
  then show ?case by (simp add: entries_styles)
qed simp

subsection \<open>Legible palettes\<close>

text \<open>The entries of each preset are evaluated once; the palette is read off them.\<close>

lemma computed_page:
  "computed wide s (page m) = resolved (entries wide s (page m)) (computed wide s [[''html'', '':root'']])"
  by (rule ext) (simp add: page_def)

lemma dark_palettes_1:
  "palette_ok True (resolved (entries wide css_default (page ''.dark-mode'')) inh)"
  "palette_ok True (resolved (entries wide css_alternate (page ''.dark-mode'')) inh)"
  "palette_ok True (resolved (entries wide css_moon (page ''.dark-mode'')) inh)"
  "palette_ok True (resolved (entries wide css_purple (page ''.dark-mode'')) inh)"
  by code_simp+

lemma dark_palettes_2:
  "palette_ok True (resolved (entries wide css_solarized (page ''.dark-mode'')) inh)"
  "palette_ok True (resolved (entries wide css_blue_planet (page ''.dark-mode'')) inh)"
  "palette_ok True (resolved (entries wide css_deep_space (page ''.dark-mode'')) inh)"
  "palette_ok True (resolved (entries wide css_saturn (page ''.dark-mode'')) inh)"
  by code_simp+

lemma dark_palettes_3:
  "palette_ok True (resolved (entries wide css_kepler (page ''.dark-mode'')) inh)"
  "palette_ok True (resolved (entries wide css_mars (page ''.dark-mode'')) inh)"
  "palette_ok True (resolved (entries wide css_laserwave (page ''.dark-mode'')) inh)"
  "palette_ok True (resolved (entries wide css_elysia (page ''.dark-mode'')) inh)"
  by code_simp+

lemma dark_palettes_4:
  "palette_ok True (resolved (entries wide css_fastify (page ''.dark-mode'')) inh)"
  by code_simp+

lemmas dark_palettes = dark_palettes_1 dark_palettes_2 dark_palettes_3 dark_palettes_4

lemma light_palettes_1:
  "palette_ok False (resolved (entries wide css_default (page ''.light-mode'')) inh)"
  "palette_ok False (resolved (entries wide css_alternate (page ''.light-mode'')) inh)"
  "palette_ok False (resolved (entries wide css_moon (page ''.light-mode'')) inh)"
  "palette_ok False (resolved (entries wide css_purple (page ''.light-mode'')) inh)"
  by code_simp+

lemma light_palettes_2:
  "palette_ok False (resolved (entries wide css_solarized (page ''.light-mode'')) inh)"
  "palette_ok False (resolved (entries wide css_blue_planet (page ''.light-mode'')) inh)"
  "palette_ok False (resolved (entries wide css_deep_space (page ''.light-mode'')) inh)"
  "palette_ok False (resolved (entries wide css_saturn (page ''.light-mode'')) inh)"
  by code_simp+

lemma light_palettes_3:
  "palette_ok False (resolved (entries wide css_kepler (page ''.light-mode'')) inh)"
  "palette_ok False (resolved (entries wide css_mars (page ''.light-mode'')) inh)"
  "palette_ok False (resolved (entries wide css_laserwave (page ''.light-mode'')) inh)"
  "palette_ok False (resolved (entries wide css_elysia (page ''.light-mode'')) inh)"
  by code_simp+

lemma light_palettes_4:
  "palette_ok False (resolved (entries wide css_fastify (page ''.light-mode'')) inh)"
  by code_simp+

lemmas light_palettes = light_palettes_1 light_palettes_2 light_palettes_3 light_palettes_4


subsection \<open>Requests\<close>

text \<open>The values of a sheet that name a URL, and its imports.\<close>

fun mentions_url :: "string \<Rightarrow> bool" where
  "mentions_url [] = False"
| "mentions_url (c # cs) = (if c = CHR ''u'' \<and> take 3 cs = ''rl('' then True else mentions_url cs)"

fun decl_urls :: "css_decl \<Rightarrow> string list" where
  "decl_urls (Decl n v) = filter mentions_url (map (\<lambda>p. case p of T t \<Rightarrow> t | V x \<Rightarrow> []) v)"
| "decl_urls (Important n v) = filter mentions_url (map (\<lambda>p. case p of T t \<Rightarrow> t | V x \<Rightarrow> []) v)"

fun urls :: "css \<Rightarrow> string list" where
  "urls (Rule ss ds) = concat (map decl_urls ds)"
| "urls (At p body) = (if take 7 p = ''@import'' then [p] else []) @ concat (map urls body)"
| "urls (Face ds) = concat (map decl_urls ds)"

definition sheet_urls :: "css list \<Rightarrow> string list" where
  "sheet_urls s = concat (map urls s)"

lemma preset_urls_1:
  "sheet_urls css_default = []" "sheet_urls css_alternate = []" "sheet_urls css_moon = []"
  "sheet_urls css_purple = []"
  by code_simp+

lemma preset_urls_2:
  "sheet_urls css_solarized = []" "sheet_urls css_blue_planet = []" "sheet_urls css_deep_space = []"
  by code_simp+

lemma preset_urls_3:
  "sheet_urls css_saturn = []" "sheet_urls css_kepler = []" "sheet_urls css_mars = []"
  by code_simp+

lemma preset_urls_4:
  "sheet_urls css_laserwave = []" "sheet_urls css_elysia = []" "sheet_urls css_fastify = []"
  by code_simp+

lemmas preset_urls = preset_urls_1 preset_urls_2 preset_urls_3 preset_urls_4

lemma font_urls: "list_all (\<lambda>u. take 29 u = ''url(https://fonts.scalar.com/'') (sheet_urls css_fonts)"
  by code_simp

lemma sheet_urls_append: "sheet_urls (a @ b) = sheet_urls a @ sheet_urls b"
  by (simp add: sheet_urls_def)

lemma sheet_urls_layer: "sheet_urls [At (''@layer '' @ l) i] = sheet_urls i"
  by (simp add: sheet_urls_def)

lemma chosen_urls: "sheet_urls (chosen e) = []"
  by (rule chosen_cases) (use preset_urls in \<open>auto simp only: preset_themes\<close>)

text \<open>What a theme fetches: with the default fonts switched off, as the documentation page of this
  application configures it, the style sheet of every theme id makes no request at all; otherwise
  its only requests are those of the default fonts, all to the font host.
\<close>

lemma theme_requests:
  "sheet_urls (theme_styles e t) = (if o_fonts t = Some False then [] else sheet_urls css_fonts) \<and>
   list_all (\<lambda>u. take 29 u = ''url(https://fonts.scalar.com/'') (sheet_urls css_fonts)"
proof
  show "sheet_urls (theme_styles e t) = (if o_fonts t = Some False then [] else sheet_urls css_fonts)"
    using chosen_urls [of e]
    by (simp only: theme_styles_sheet sheet_urls_layer sheet_urls_append Let_def append_Nil2 split: if_split)
      (simp add: sheet_urls_def)
qed (rule font_urls)

subsection \<open>The style element\<close>

text \<open>
  The page joins the custom style and the theme and rewrites every closing style tag
  (\<open>/<\/style/gi\<close>) before it fills a style element with the text.
\<close>

definition close_tag :: ustr where
  "close_tag = lit ''</style''"

definition closes :: "ustr \<Rightarrow> bool" where
  "closes s \<longleftrightarrow> map ascii_lower (take 7 s) = close_tag"

function replace_close :: "ustr \<Rightarrow> ustr" where
  "replace_close s =
     (case s of [] \<Rightarrow> []
      | c # cs \<Rightarrow> if closes s then [60, 92, 47] @ lit ''style'' @ replace_close (drop 7 s) else c # replace_close cs)"
  by pat_completeness auto
termination
  by (relation "measure length") (auto simp: closes_def)

declare replace_close.simps [simp del]

definition style_text :: "ustr option \<Rightarrow> ustr \<Rightarrow> ustr" where
  "style_text custom theme = replace_close ((case custom of None \<Rightarrow> [] | Some c \<Rightarrow> c) @ 10 # theme)"

fun close_free :: "ustr \<Rightarrow> bool" where
  "close_free [] = True"
| "close_free (c # cs) \<longleftrightarrow> \<not> closes (c # cs) \<and> close_free cs"

lemma replace_close_simps [simp]:
  "replace_close [] = []"
  "closes s \<Longrightarrow> replace_close s = 60 # 92 # 47 # lit ''style'' @ replace_close (drop 7 s)"
  "\<not> closes (c # cs) \<Longrightarrow> replace_close (c # cs) = c # replace_close cs"
  by (subst replace_close.simps, simp) (subst replace_close.simps, auto simp: closes_def close_tag_def lit_def split: list.split)+

lemma replace_close_prefix: "60 \<notin> set (take k (replace_close s)) \<Longrightarrow> take k (replace_close s) = take k s"
proof (induction s arbitrary: k rule: replace_close.induct)
  case (1 s)
  show ?case
  proof (cases s)
    case (Cons c cs)
    show ?thesis
    proof (cases "closes s \<or> k = 0")
      case True
      then show ?thesis using "1.prems" by (cases k) auto
    next
      case False
      then obtain j where "k = Suc j" by (cases k) auto
      then show ?thesis using False Cons "1.prems" "1.IH"(2) [of c cs j] by simp
    qed
  qed simp
qed

lemma closes_Cons: "closes (c # cs) \<longleftrightarrow> ascii_lower c = 60 \<and> map ascii_lower (take 6 cs) = lit ''/style''"
  by (simp add: closes_def close_tag_def lit_def)

lemma ascii_lower_lt: "ascii_lower c = 60 \<longleftrightarrow> c = 60"
  by (auto simp: char_class_defs)

lemma close_free_replace: "close_free (replace_close s)"
proof (induction s rule: replace_close.induct)
  case (1 s)
  show ?case
  proof (cases s)
    case (Cons c cs)
    show ?thesis
    proof (cases "closes s")
      case True
      then show ?thesis using "1.IH"(1) [of c cs] Cons
        by (simp add: closes_Cons lit_def char_class_defs)
    next
      case False
      have "\<not> closes (c # replace_close cs)"
      proof
        assume a: "closes (c # replace_close cs)"
        then have m: "map ascii_lower (take 6 (replace_close cs)) = lit ''/style''" by (simp add: closes_Cons)
        have "ascii_lower 60 \<notin> set (lit ''/style'')" by (simp add: lit_def char_class_defs)
        then have "60 \<notin> set (take 6 (replace_close cs))"
          using m by (metis image_eqI list.set_map)
        then have "take 6 (replace_close cs) = take 6 cs" by (rule replace_close_prefix)
        then show False using a False Cons by (simp add: closes_Cons)
      qed
      then show ?thesis using False Cons "1.IH"(2) [of c cs] by simp
    qed
  qed simp
qed

lemma length_replace_close: "length s \<le> length (replace_close s) \<and> (\<not> close_free s \<longrightarrow> length s < length (replace_close s))"
proof (induction s rule: replace_close.induct)
  case (1 s)
  show ?case
  proof (cases s)
    case (Cons c cs)
    show ?thesis
    proof (cases "closes s")
      case True
      then show ?thesis using "1.IH"(1) [of c cs] Cons by (auto simp: lit_def)
    next
      case False
      then show ?thesis using "1.IH"(2) [of c cs] Cons by auto
    qed
  qed simp
qed

lemma replace_close_id: "close_free s \<Longrightarrow> replace_close s = s"
  by (induction s rule: close_free.induct) simp_all

text \<open>The text of the style element never contains a closing style tag in any letter case, so neither
  the custom style nor the theme can end the element; texts without one are taken as they are,
  and only those.
\<close>

lemma style_text_confined:
  "close_free (style_text custom theme) \<and>
   (let s = (case custom of None \<Rightarrow> [] | Some c \<Rightarrow> c) @ 10 # theme in
    style_text custom theme = s \<longleftrightarrow> close_free s)"
  unfolding style_text_def Let_def
  using close_free_replace length_replace_close replace_close_id by (metis less_irrefl)

subsection \<open>The alert colour\<close>

text \<open>
  The default theme sets the alert colour on light pages only; on a dark page the property has no
  value, so a declaration that uses it falls back to the inherited colour.
\<close>

lemma alert_colour:
  "computed wide css_default (page ''.dark-mode'') ''--scalar-color-alert'' = None"
  "computed wide css_default (page ''.light-mode'') ''--scalar-color-alert'' \<noteq> None"
  by code_simp+

end
