(* ===== verification/ColorMode.thy ===== *)
theory ColorMode
  imports Theme
begin

text \<open>
  The colour mode of the API reference (\<open>useColorMode\<close> and the start of the bundle in
  \<open>docs/scalar/scalar.standalone.js\<close>), and how it follows the theme of the surrounding page: the
  configuration that \<open>theme-init.js\<close> rewrites is what the bundle starts from. Storage is assumed
  to work in this part; the schema check of the configuration keeps boolean members.
\<close>

subsection \<open>State and operations\<close>

record colour_state =
  kz :: ustr
  az :: ustr
  saved :: "ustr option"
  override :: "ustr option"
  os_dark :: bool
  mounted :: bool
  body_dark :: bool
  body_light :: bool

definition light :: ustr where "light = lit ''light''"
definition dark :: ustr where "dark = lit ''dark''"
definition system :: ustr where "system = lit ''system''"

definition valid_mode :: "ustr \<Rightarrow> bool" where
  "valid_mode m \<longleftrightarrow> m = system \<or> m = dark \<or> m = light"

definition system_mode :: "bool \<Rightarrow> ustr" where
  "system_mode d = (if d then dark else light)"

text \<open>\<open>toggle(token, force)\<close> on both classes of the body.\<close>

definition body_mode :: "ustr \<Rightarrow> colour_state \<Rightarrow> colour_state" where
  "body_mode e s = s\<lparr>body_dark := (e = dark), body_light := (e = light)\<rparr>"

definition dark_light :: "colour_state \<Rightarrow> ustr" where
  "dark_light s = (if kz s = system then az s else kz s)"

definition show_mode :: "colour_state \<Rightarrow> colour_state" where
  "show_mode s =
     (let m = (case override s of Some n \<Rightarrow> n | None \<Rightarrow> dark_light s) in
      body_mode (if m = dark then dark else light) s)"

definition use_colour_mode :: "ustr option \<Rightarrow> ustr option \<Rightarrow> colour_state \<Rightarrow> colour_state" where
  "use_colour_mode initial n s =
     (let t = (case initial of None \<Rightarrow> system | Some m \<Rightarrow> m);
          u = (case saved s of None \<Rightarrow> None | Some l \<Rightarrow> if valid_mode l then Some l else None);
          k = (case n of Some m \<Rightarrow> m | None \<Rightarrow> (case u of Some m \<Rightarrow> m | None \<Rightarrow> t))
      in show_mode (s\<lparr>kz := k, override := n\<rparr>))"

text \<open>A watcher shows the mode again whenever one of the two references changes.\<close>

definition on_mounted :: "colour_state \<Rightarrow> colour_state" where
  "on_mounted s = show_mode (s\<lparr>az := system_mode (os_dark s), mounted := True\<rparr>)"

definition on_media :: "bool \<Rightarrow> colour_state \<Rightarrow> colour_state" where
  "on_media d s =
     (let s = s\<lparr>os_dark := d\<rparr> in
      if mounted s then show_mode (s\<lparr>az := system_mode d\<rparr>) else s)"

definition set_mode :: "ustr \<Rightarrow> colour_state \<Rightarrow> colour_state" where
  "set_mode m s = show_mode (s\<lparr>kz := m, saved := Some m\<rparr>)"

definition toggle_mode :: "colour_state \<Rightarrow> colour_state" where
  "toggle_mode s = set_mode (if dark_light s = dark then light else dark) s"

subsection \<open>Start of the bundle\<close>

text \<open>\<open>split(`&quot;`).join(`"`)\<close>.\<close>

definition entity :: ustr where "entity = lit ''&quot;''"

fun unquot :: "nat \<Rightarrow> ustr \<Rightarrow> ustr" where
  "unquot n [] = []"
| "unquot (Suc n) (c # cs) = unquot n cs"
| "unquot 0 (c # cs) = (if take 6 (c # cs) = entity then 34 # unquot 5 cs else c # unquot 0 cs)"

text \<open>
  The configuration: no attribute or an empty one gives no mode, a text that does not parse stops
  the script. \<open>String(darkMode)\<close> selects the initial mode; other values select none.
\<close>

definition config_of :: "(ustr \<Rightarrow> 'n) \<Rightarrow> ustr option \<Rightarrow> 'n json option" where
  "config_of f attr =
     (case attr of None \<Rightarrow> Some (JObj [])
      | Some t \<Rightarrow> if t = [] then Some (JObj []) else json_parse f (unquot 0 t))"

fun initial_mode :: "'n json option \<Rightarrow> ustr option" where
  "initial_mode (Some (JBool b)) = Some (if b then dark else light)"
| "initial_mode (Some (JStr s)) =
     (if s = lit ''true'' then Some dark else if s = lit ''false'' then Some light
      else if s = lit ''undefined'' then Some system else None)"
| "initial_mode None = Some system"
| "initial_mode _ = None"

fun truthy_mode :: "'n json option \<Rightarrow> bool" where
  "truthy_mode None = False"
| "truthy_mode (Some v) =
     (case v of JNull \<Rightarrow> False | JBool b \<Rightarrow> b | JStr s \<Rightarrow> s \<noteq> [] | _ \<Rightarrow> True)"

definition start_body :: "'n json option \<Rightarrow> colour_state \<Rightarrow> colour_state" where
  "start_body v s = (if truthy_mode v then s\<lparr>body_dark := True\<rparr> else s\<lparr>body_light := True\<rparr>)"

definition load_reference :: "(ustr \<Rightarrow> 'n) \<Rightarrow> ustr option \<Rightarrow> colour_state \<Rightarrow> colour_state option" where
  "load_reference f attr s =
     map_option (\<lambda>c. on_mounted (use_colour_mode (initial_mode (member dark_mode c)) None
                       (start_body (member dark_mode c) s))) (config_of f attr)"

text \<open>A fresh page: the references hold their first values and the body has no class.\<close>

definition fresh :: "ustr option \<Rightarrow> bool \<Rightarrow> colour_state" where
  "fresh l d = \<lparr>kz = dark, az = light, saved = l, override = None, os_dark = d, mounted = False,
     body_dark = False, body_light = False\<rparr>"

subsection \<open>Runs\<close>

datatype mode_event = Mounts | Media bool | Toggles | Sets ustr | Uses "ustr option" "ustr option"

fun mode_step :: "colour_state \<Rightarrow> mode_event \<Rightarrow> colour_state" where
  "mode_step s Mounts = on_mounted s"
| "mode_step s (Media d) = on_media d s"
| "mode_step s Toggles = toggle_mode s"
| "mode_step s (Sets m) = set_mode m s"
| "mode_step s (Uses t n) = use_colour_mode t n s"

definition mode_run :: "colour_state \<Rightarrow> mode_event list \<Rightarrow> colour_state" where
  "mode_run s es = foldl mode_step s es"

definition mode_ok :: "colour_state \<Rightarrow> bool" where
  "mode_ok s \<longleftrightarrow>
     body_dark s = ((case override s of Some n \<Rightarrow> n | None \<Rightarrow> dark_light s) = dark) \<and>
     body_light s = (\<not> body_dark s) \<and>
     (mounted s \<longrightarrow> az s = system_mode (os_dark s))"

lemma light_dark [simp]: "light \<noteq> dark" "dark \<noteq> light" "system \<noteq> dark" "dark \<noteq> system" "light \<noteq> system" "system \<noteq> light"
  by (simp_all add: light_def dark_def system_def)

lemma system_mode_cases [simp]: "system_mode d = dark \<longleftrightarrow> d" "system_mode d \<noteq> system"
  by (simp_all add: system_mode_def)

lemma show_mode_eq:
  "show_mode s = s\<lparr>body_dark := ((case override s of Some n \<Rightarrow> n | None \<Rightarrow> dark_light s) = dark),
     body_light := ((case override s of Some n \<Rightarrow> n | None \<Rightarrow> dark_light s) \<noteq> dark)\<rparr>"
  by (simp add: show_mode_def body_mode_def Let_def)

lemma mode_ok_show: "(mounted s \<Longrightarrow> az s = system_mode (os_dark s)) \<Longrightarrow> mode_ok (show_mode s)"
  by (simp add: mode_ok_def show_mode_eq dark_light_def split: option.split)

lemma mode_ok_media: "mode_ok s \<Longrightarrow> mode_ok (on_media d s)"
  by (cases "mounted s") (auto simp: on_media_def Let_def intro: mode_ok_show, simp add: mode_ok_def dark_light_def split: option.split)

lemma mode_ok_step: "mode_ok s \<Longrightarrow> mode_ok (mode_step s e)"
  by (cases e) (auto simp: mode_ok_media on_mounted_def toggle_mode_def set_mode_def use_colour_mode_def Let_def
      intro!: mode_ok_show, auto simp: mode_ok_def)

text \<open>After the hook ran once, whatever mounts, toggles, explicit choices, further uses and changes of
  the system follow, the body carries exactly one of its two classes, and it is the dark one
  exactly when the forced mode, or without one the chosen mode with the system's standing in for
  \<open>system\<close>, is dark.
\<close>

lemma mode_run_consistent: "mode_ok (mode_run (use_colour_mode t n (fresh l d)) es)"
proof (induction es rule: rev_induct)
  case Nil
  show ?case by (auto simp: mode_run_def use_colour_mode_def fresh_def Let_def intro!: mode_ok_show)
qed (simp add: mode_run_def mode_ok_step)

text \<open>Toggling flips what the page shows and remembers it, unless a mode is forced: then the page keeps
  showing the forced mode, although the choice is remembered for the next visit.
\<close>

lemma toggle_flips:
  assumes "mode_ok s"
  shows "body_dark (toggle_mode s) =
      (case override s of Some n \<Rightarrow> body_dark s | None \<Rightarrow> \<not> body_dark s) \<and>
    saved (toggle_mode s) = Some (if dark_light s = dark then light else dark)"
  using assms
  by (auto simp: toggle_mode_def set_mode_def show_mode_eq mode_ok_def dark_light_def split: option.split)

lemma toggle_flips_witness:
  "body_dark (toggle_mode (mode_run (use_colour_mode None None (fresh None True)) [Mounts])) =
     (\<not> body_dark (mode_run (use_colour_mode None None (fresh None True)) [Mounts]))"
  using toggle_flips [of "mode_run (use_colour_mode None None (fresh None True)) [Mounts]"]
    mode_ok_step [of "use_colour_mode None None (fresh None True)" Mounts]
  by (simp add: mode_run_def use_colour_mode_def fresh_def on_mounted_def show_mode_eq mode_ok_def dark_light_def)

subsection \<open>The documentation page\<close>

text \<open>The configuration attribute in the page \<open>SCALAR_HTML\<close> of \<open>src/openapi.rs\<close>.\<close>

definition fonts_member :: ustr where "fonts_member = lit ''withDefaultFonts''"

definition page_config :: ustr where
  "page_config =
     [123] @ quote fonts_member @ [58] @ lit ''false'' @ [44] @ quote hide_toggle @ [58] @ lit ''true'' @ [125]"

lemma unquot_plain: "38 \<notin> set s \<Longrightarrow> unquot 0 s = s"
  by (induction s) (auto simp: entity_def lit_def)

text \<open>
  With no colour mode of its own stored, the reference starts in the theme of the page, and it
  follows the system exactly when the page does; a stored one takes precedence over both.
\<close>

definition mode_members :: "ustr \<Rightarrow> (ustr \<times> 'n json) list" where
  "mode_members v =
     [(fonts_member, JBool False), (hide_toggle, JBool True)]
       @ (if v = system then [] else [(dark_mode, JBool (v = dark))])"

lemma member_keys: "fonts_member \<noteq> hide_toggle" "hide_toggle \<noteq> fonts_member" "fonts_member \<noteq> dark_mode"
    "dark_mode \<noteq> fonts_member" "hide_toggle \<noteq> dark_mode" "dark_mode \<noteq> hide_toggle"
  by (simp_all add: fonts_member_def hide_toggle_def dark_mode_def)

lemma no_index: "\<not> is_index fonts_member" "\<not> is_index hide_toggle" "\<not> is_index dark_mode"
  by (simp_all add: is_index_def fonts_member_def hide_toggle_def dark_mode_def lit_def is_digit_def)

definition plain_unit :: "nat \<Rightarrow> bool" where
  "plain_unit c \<longleftrightarrow> 32 \<le> c \<and> c < 128 \<and> c \<noteq> 34 \<and> c \<noteq> 38 \<and> c \<noteq> 92"

lemma quote_body_plain: "list_all plain_unit s \<Longrightarrow> quote_body s = s"
  by (induction s) (simp_all add: plain_unit_def quote_unit_def lead_surrogate_def trail_surrogate_def)

lemma plain_keys: "list_all plain_unit fonts_member" "list_all plain_unit hide_toggle" "list_all plain_unit dark_mode"
  by (simp_all add: fonts_member_def hide_toggle_def dark_mode_def lit_def plain_unit_def)

lemma quote_plain: "list_all plain_unit s \<Longrightarrow> quote s = 34 # s @ [34]"
  by (simp add: quote_def quote_body_plain)

lemma units_plain: "list_all plain_unit s \<Longrightarrow> units s"
  by (induction s) (simp_all add: plain_unit_def)

lemma page_config_text: "page_config = stringify g [] (JObj (mode_members system))"
  by (simp add: page_config_def stringify_def mode_members_def wrapped_def)

lemma wf_members: "wf_json (JObj (mode_members v))"
  using plain_keys by (auto simp: mode_members_def member_keys no_index units_plain)

lemma members_put: 
  "configured v (JObj (mode_members system)) = Some (JObj (mode_members v) :: 'n json)"
  by (simp add: configured_def mode_members_def member_keys no_index key_before_def obj_delete_def system_def dark_def)

lemma members_norm: "norm f g (JObj (mode_members v)) = JObj (mode_members v)"
  by (simp add: mode_members_def)

lemma configured_page:
  assumes "num_codec f g"
  shows "configure_text f g v (Some page_config) = Some (stringify g [] (JObj (mode_members v)))"
proof -
  have "json_parse f page_config = Some (JObj (mode_members system))"
    using parse_stringify [OF assms, of "[]" "JObj (mode_members system)"]
    by (simp only: page_config_text [of g] list.pred_inject wf_members members_norm)
  moreover have "page_config \<noteq> []" by (simp add: page_config_def)
  ultimately show ?thesis by (simp add: configure_text_def members_put)
qed

lemma plain_no_amp: "list_all plain_unit s \<Longrightarrow> 38 \<notin> set s"
  by (auto simp: list_all_iff plain_unit_def)

lemma words_no_amp: "38 \<notin> set (lit ''true'')" "38 \<notin> set (lit ''false'')"
  by (simp_all add: lit_def)

lemma members_text: "38 \<notin> set (stringify g [] (JObj (mode_members v)))"
  by (simp add: stringify_def mode_members_def wrapped_def quote_plain plain_keys words_no_amp
      plain_keys [THEN plain_no_amp])

lemma config_members:
  assumes "num_codec f g"
  shows "config_of f (Some (stringify g [] (JObj (mode_members v)))) = Some (JObj (mode_members v))"
proof -
  have "stringify g [] (JObj (mode_members v)) \<noteq> []" by (simp add: stringify_def wrapped_def)
  then show ?thesis using parse_stringify [OF assms, of "[]" "JObj (mode_members v)"]
    by (simp add: config_of_def unquot_plain [OF members_text] wf_members members_norm del: wf_json.simps norm.simps)
qed

lemma initial_members: "valid_mode v \<Longrightarrow> initial_mode (member dark_mode (JObj (mode_members v))) = Some v"
  by (auto simp: valid_mode_def member_def mode_members_def member_keys)

lemma api_apply:
  "api_reference (apply_theme f g v s) = map_option (configure_text f g (selected v)) (api_reference s)"
  by (simp add: apply_theme_def dispatch_change_eq configure_scalar_def Let_def split: option.split)

lemma api_init:
  "api_reference (theme_init f g s) =
     map_option (configure_text f g (theme_preference (theme_init f g s))) (api_reference s)"
proof -
  let ?s = "s\<lparr>memory_preference := lit ''system'', app_loaded := False\<rparr>"
  obtain p s' where q: "preference ?s = (p, s')" by (cases "preference ?s")
  have "s' = ?s\<lparr>memory_preference := fst (preference ?s)\<rparr>" using preference_snd [of ?s] q by (simp only: snd_conv)
  then have "api_reference s' = api_reference s" by simp
  then show ?thesis by (simp add: theme_init_def q api_apply apply_theme_fields del: theme_fields)
qed

lemma init_preference: "valid_mode (theme_preference (theme_init f g s))"
  by (simp add: theme_init_def split_beta Let_def valid_mode_def system_def dark_def light_def selected_def
      valid_preference_def)

definition reference_mode :: "ustr option \<Rightarrow> ustr \<Rightarrow> ustr" where
  "reference_mode l p = (case l of None \<Rightarrow> p | Some m \<Rightarrow> if valid_mode m then m else p)"

lemma load_members:
  assumes "num_codec f g" "valid_mode v"
  shows "\<exists>c. load_reference f (Some (stringify g [] (JObj (mode_members v)))) (fresh l d) = Some c \<and>
    mode_ok c \<and> override c = None \<and> mounted c \<and> kz c = reference_mode l v \<and> os_dark c = d"
  by (simp add: load_reference_def config_members [OF assms(1)] initial_members [OF assms(2)] reference_mode_def
      on_mounted_def use_colour_mode_def start_body_def fresh_def Let_def show_mode_eq mode_ok_def dark_light_def
      split: option.split)

lemma mode_shown:
  assumes "mode_ok c" "override c = None" "mounted c" "valid_mode (kz c)"
  shows "body_dark c = (resolved_theme (os_dark c) (kz c) = dark)"
  using assms by (auto simp: mode_ok_def dark_light_def resolved_theme_def system_def dark_def light_def system_mode_def)



end
