(* ===== verification/ZodObject.thy ===== *)
theory ZodObject
  imports JsonText
begin

text \<open>
  Object schemas of the validator in \<open>docs/scalar/scalar.standalone.js\<close>: the parser that walks the
  shape (\<open>$ZodObject\<close>) and the one that compiles the shape to a program first (\<open>$ZodObjectJIT\<close>).
  Synchronous runs of the field schemas are parameters. A value is \<open>None\<close> for \<open>undefined\<close>; an
  object under test answers \<open>in\<close> and property reads, and enumerates its keys.
\<close>

subsection \<open>Schemas and results\<close>

datatype 'i issue_body = Schema 'i | ExpectedObject | NonOptional | Unrecognized "ustr list"

record 'i issue =
  i_body :: "'i issue_body"
  i_path :: "ustr list option"

record ('i, 'v) run_result =
  r_value :: "'v option"
  r_issues :: "'i issue list"

record ('i, 'v) field =
  optin :: bool
  optout :: bool
  run_field :: "'v option \<Rightarrow> ('i, 'v) run_result"

record 'v input =
  has :: "ustr \<Rightarrow> 'v option option"
  for_in :: "ustr list"

definition in_input :: "ustr \<Rightarrow> 'v input \<Rightarrow> bool" where
  "in_input k inp \<longleftrightarrow> has inp k \<noteq> None"

definition read_input :: "'v input \<Rightarrow> ustr \<Rightarrow> 'v option" where
  "read_input inp k = (case has inp k of None \<Rightarrow> None | Some v \<Rightarrow> v)"

definition prefix_issue :: "ustr \<Rightarrow> 'i issue \<Rightarrow> 'i issue" where
  "prefix_issue k i = i\<lparr>i_path := Some (k # (case i_path i of None \<Rightarrow> [] | Some p \<Rightarrow> p))\<rparr>"

definition missing :: "ustr \<Rightarrow> 'i issue" where
  "missing k = \<lparr>i_body = NonOptional, i_path = Some [k]\<rparr>"

text \<open>What a parse builds: the issues and the properties of the new object.\<close>

type_synonym ('i, 'v) built = "'i issue list \<times> (ustr \<times> 'v option) list"

subsection \<open>The walking parser\<close>

definition handle_property ::
  "('i, 'v) run_result \<Rightarrow> ustr \<Rightarrow> 'v input \<Rightarrow> bool \<Rightarrow> bool \<Rightarrow> ('i, 'v) built \<Rightarrow> ('i, 'v) built" where
  "handle_property r k inp i a b =
     (let p = in_input k inp in
      if r_issues r \<noteq> [] \<and> i \<and> a \<and> \<not> p then b
      else
        (let issues = fst b @ map (prefix_issue k) (r_issues r) in
         if \<not> p \<and> \<not> i then (if r_issues r \<noteq> [] then issues else issues @ [missing k], snd b)
         else
           (case r_value r of
              None \<Rightarrow> (issues, if p then obj_put k None (snd b) else snd b)
            | Some v \<Rightarrow> (issues, obj_put k (Some v) (snd b)))))"

type_synonym ('i, 'v) shape = "(ustr \<times> ('i, 'v) field) list"

fun walk :: "('i, 'v) shape \<Rightarrow> 'v input \<Rightarrow> ('i, 'v) built \<Rightarrow> ('i, 'v) built" where
  "walk [] inp b = b"
| "walk ((k, f) # fs) inp b =
     walk fs inp (handle_property (run_field f (read_input inp k)) k inp (optin f) (optout f) b)"

datatype ('i, 'v) catchall = Never | Catch "('i, 'v) field"

definition proto_key :: ustr where "proto_key = lit ''__proto__''"

fun catch_keys :: "('i, 'v) catchall \<Rightarrow> ustr list \<Rightarrow> 'v input \<Rightarrow> ustr list \<Rightarrow> ustr list \<times> ('i, 'v) built
    \<Rightarrow> ustr list \<times> ('i, 'v) built" where
  "catch_keys c known inp [] ub = ub"
| "catch_keys c known inp (k # ks) ub =
     catch_keys c known inp ks
       (if k = proto_key \<or> k \<in> set known then ub
        else (case c of
                Never \<Rightarrow> (fst ub @ [k], snd ub)
              | Catch f \<Rightarrow>
                  (fst ub, handle_property (run_field f (read_input inp k)) k inp (optin f) (optout f) (snd ub))))"

definition handle_catchall :: "('i, 'v) catchall \<Rightarrow> ustr list \<Rightarrow> 'v input \<Rightarrow> ('i, 'v) built \<Rightarrow> ('i, 'v) built" where
  "handle_catchall c known inp b =
     (let (unknown, b) = catch_keys c known inp (for_in inp) ([], b) in
      if unknown = [] then b
      else (fst b @ [\<lparr>i_body = Unrecognized unknown, i_path = None\<rparr>], snd b))"

definition finish :: "('i, 'v) catchall option \<Rightarrow> ('i, 'v) shape \<Rightarrow> 'v input \<Rightarrow> ('i, 'v) built \<Rightarrow> ('i, 'v) built" where
  "finish c shape inp b = (case c of None \<Rightarrow> b | Some c \<Rightarrow> handle_catchall c (map fst shape) inp b)"

text \<open>An input that is not an object is refused and kept; the issues before are kept too.\<close>

definition parse_walk ::
  "('i, 'v) catchall option \<Rightarrow> ('i, 'v) shape \<Rightarrow> 'v input option \<Rightarrow> 'i issue list
     \<Rightarrow> 'i issue list \<times> (ustr \<times> 'v option) list option" where
  "parse_walk c shape inp issues =
     (case inp of
        None \<Rightarrow> (issues @ [\<lparr>i_body = ExpectedObject, i_path = None\<rparr>], None)
      | Some inp \<Rightarrow> apsnd Some (finish c shape inp (walk shape inp (issues, []))))"

subsection \<open>The compiling parser\<close>

text \<open>
  The statements and conditions of the program text the compiler writes; a variable \<open>key_i\<close> is
  its number.
\<close>

datatype cond = HasIssues nat | KeyIn ustr | Undefined nat | Present nat | Both cond cond | Neg cond

datatype stmt =
    RunKey nat ustr
  | SetPresent nat ustr
  | PushIssues nat ustr
  | PushMissing ustr
  | PutUndefined ustr
  | PutValue ustr nat
  | Cond cond "stmt list" "stmt list"

definition put_text :: "nat \<Rightarrow> ustr \<Rightarrow> stmt" where
  "put_text n k =
     Cond (Undefined n) [Cond (KeyIn k) [PutUndefined k] []] [PutValue k n]"

definition key_text :: "nat \<Rightarrow> ustr \<Rightarrow> bool \<Rightarrow> bool \<Rightarrow> stmt list" where
  "key_text n k c l =
     RunKey n k #
     (if c \<and> l then
        [Cond (HasIssues n) [Cond (KeyIn k) [PushIssues n k] []] [],
         put_text n k]
      else if c then
        [Cond (HasIssues n) [PushIssues n k] [],
         put_text n k]
      else
        [SetPresent n k,
         Cond (HasIssues n) [PushIssues n k] [],
         Cond (Both (Neg (Present n)) (Neg (HasIssues n))) [PushMissing k] [],
         Cond (Present n) [Cond (Undefined n) [PutUndefined k] [PutValue k n]] []])"

fun program :: "nat \<Rightarrow> ('i, 'v) shape \<Rightarrow> stmt list" where
  "program n [] = []"
| "program n ((k, f) # fs) = key_text n k (optin f) (optout f) @ program (Suc n) fs"

text \<open>Execution: the variables, the issues of the payload and the new object.\<close>

record ('i, 'v) env =
  e_results :: "nat \<Rightarrow> ('i, 'v) run_result"
  e_present :: "nat \<Rightarrow> bool"
  e_built :: "('i, 'v) built"

fun holds :: "cond \<Rightarrow> 'v input \<Rightarrow> ('i, 'v) env \<Rightarrow> bool" where
  "holds (HasIssues n) inp e = (r_issues (e_results e n) \<noteq> [])"
| "holds (KeyIn k) inp e = in_input k inp"
| "holds (Undefined n) inp e = (r_value (e_results e n) = None)"
| "holds (Present n) inp e = e_present e n"
| "holds (Both a b) inp e = (holds a inp e \<and> holds b inp e)"
| "holds (Neg a) inp e = (\<not> holds a inp e)"

definition push :: "'i issue list \<Rightarrow> ('i, 'v) env \<Rightarrow> ('i, 'v) env" where
  "push is e = e\<lparr>e_built := (fst (e_built e) @ is, snd (e_built e))\<rparr>"

definition put :: "ustr \<Rightarrow> 'v option \<Rightarrow> ('i, 'v) env \<Rightarrow> ('i, 'v) env" where
  "put k v e = e\<lparr>e_built := (fst (e_built e), obj_put k v (snd (e_built e)))\<rparr>"

fun exec :: "('i, 'v) shape \<Rightarrow> 'v input \<Rightarrow> stmt \<Rightarrow> ('i, 'v) env \<Rightarrow> ('i, 'v) env"
  and execs :: "('i, 'v) shape \<Rightarrow> 'v input \<Rightarrow> stmt list \<Rightarrow> ('i, 'v) env \<Rightarrow> ('i, 'v) env" where
  "exec shape inp (RunKey n k) e =
     (case map_of shape k of
        None \<Rightarrow> e
      | Some f \<Rightarrow> e\<lparr>e_results := (e_results e)(n := run_field f (read_input inp k))\<rparr>)"
| "exec shape inp (SetPresent n k) e = e\<lparr>e_present := (e_present e)(n := in_input k inp)\<rparr>"
| "exec shape inp (PushIssues n k) e = push (map (prefix_issue k) (r_issues (e_results e n))) e"
| "exec shape inp (PushMissing k) e = push [missing k] e"
| "exec shape inp (PutUndefined k) e = put k None e"
| "exec shape inp (PutValue k n) e = put k (r_value (e_results e n)) e"
| "exec shape inp (Cond c a b) e = (if holds c inp e then execs shape inp a e else execs shape inp b e)"
| "execs shape inp [] e = e"
| "execs shape inp (s # ss) e = execs shape inp ss (exec shape inp s e)"

definition run_program :: "('i, 'v) shape \<Rightarrow> 'v input \<Rightarrow> 'i issue list \<Rightarrow> ('i, 'v) built" where
  "run_program shape inp issues =
     e_built (execs shape inp (program 0 shape)
       \<lparr>e_results = (\<lambda>_. \<lparr>r_value = None, r_issues = []\<rparr>), e_present = (\<lambda>_. False), e_built = (issues, [])\<rparr>)"

text \<open>The program runs when the engine may compile text and the caller asked for a synchronous parse.\<close>

definition parse_jit ::
  "bool \<Rightarrow> ('i, 'v) catchall option \<Rightarrow> ('i, 'v) shape \<Rightarrow> 'v input option \<Rightarrow> 'i issue list
     \<Rightarrow> 'i issue list \<times> (ustr \<times> 'v option) list option" where
  "parse_jit compile c shape inp issues =
     (case inp of
        None \<Rightarrow> (issues @ [\<lparr>i_body = ExpectedObject, i_path = None\<rparr>], None)
      | Some i \<Rightarrow>
          if compile then apsnd Some (finish c shape i (run_program shape i issues))
          else parse_walk c shape inp issues)"

subsection \<open>Equivalence\<close>

lemma execs_append: "execs shape inp (a @ b) e = execs shape inp b (execs shape inp a e)"
  by (induction a arbitrary: e) simp_all

text \<open>A field that is optional both ways never gives a value together with issues for an absent key.\<close>

definition drops_cleanly :: "'v input \<Rightarrow> ustr \<Rightarrow> ('i, 'v) field \<Rightarrow> bool" where
  "drops_cleanly inp k f \<longleftrightarrow>
     (optin f \<and> optout f \<and> \<not> in_input k inp \<longrightarrow>
        r_issues (run_field f None) = [] \<or> r_value (run_field f None) = None)"

lemma exec_key:
  assumes "map_of shape k = Some f" and "drops_cleanly inp k f"
  shows "e_built (execs shape inp (key_text n k (optin f) (optout f)) e) =
    handle_property (run_field f (read_input inp k)) k inp (optin f) (optout f) (e_built e)"
proof -
  have "read_input inp k = None" if "\<not> in_input k inp"
    using that by (simp add: in_input_def read_input_def)
  then show ?thesis using assms
    by (cases "in_input k inp"; cases "optin f"; cases "optout f"; cases "r_value (run_field f (read_input inp k))";
        cases "r_issues (run_field f (read_input inp k)) = []")
       (simp_all add: key_text_def put_text_def handle_property_def push_def put_def drops_cleanly_def Let_def)
qed

lemma exec_program:
  assumes "\<forall>(k, f) \<in> set fs. map_of shape k = Some f \<and> drops_cleanly inp k f"
  shows "e_built (execs shape inp (program n fs) e) = walk fs inp (e_built e)"
  using assms
proof (induction fs arbitrary: n e)
  case (Cons kf fs)
  obtain k f where kf: "kf = (k, f)" by (cases kf)
  with Cons.prems have "map_of shape k = Some f" "drops_cleanly inp k f" by auto
  from exec_key [OF this] Cons show ?case by (simp add: kf execs_append)
qed simp

text \<open>C9:
  The compiled parser agrees with the walking one on every input, issues, values and their order
  included, provided no field that is optional both ways answers an absent key with both issues
  and a value.
\<close>

lemma jit_agrees:
  assumes "distinct (map fst shape)" and "\<forall>i. inp = Some i \<longrightarrow> (\<forall>(k, f) \<in> set shape. drops_cleanly i k f)"
  shows "parse_jit compile c shape inp issues = parse_walk c shape inp issues"
proof (cases inp)
  case (Some i)
  have "\<forall>(k, f) \<in> set shape. map_of shape k = Some f \<and> drops_cleanly i k f"
    using assms Some by (auto simp: map_of_eq_Some_iff)
  from exec_program [OF this] Some show ?thesis
    by (simp add: parse_jit_def parse_walk_def run_program_def)
qed (simp add: parse_jit_def parse_walk_def)

definition int_field :: "bool \<Rightarrow> (string, int) field" where
  "int_field opt =
     \<lparr>optin = opt, optout = opt,
      run_field = (\<lambda>v. case v of
        None \<Rightarrow> \<lparr>r_value = None, r_issues = (if opt then [] else [\<lparr>i_body = Schema ''int'', i_path = None\<rparr>])\<rparr>
      | Some n \<Rightarrow> \<lparr>r_value = Some (2 * n), r_issues = []\<rparr>)\<rparr>"

definition sample_input :: "int input" where
  "sample_input = \<lparr>has = [lit ''a'' \<mapsto> Some 1, lit ''c'' \<mapsto> Some 9], for_in = [lit ''a'', lit ''c'']\<rparr>"

lemma jit_agrees_witness:
  "parse_jit True (Some Never) [(lit ''a'', int_field True), (lit ''b'', int_field True)] (Some sample_input) [] =
   parse_walk (Some Never) [(lit ''a'', int_field True), (lit ''b'', int_field True)] (Some sample_input) []"
  by (rule jit_agrees) (auto simp: drops_cleanly_def int_field_def)

text \<open>
  A field whose value is overwritten and then refused: an optional schema with an overwriting check
  and a failing refinement answers this way.
\<close>

definition overwritten :: "(string, int) field" where
  "overwritten =
     \<lparr>optin = True, optout = True,
      run_field = (\<lambda>v. \<lparr>r_value = Some 7, r_issues = [\<lparr>i_body = Schema ''refused'', i_path = None\<rparr>]\<rparr>)\<rparr>"

definition empty_input :: "int input" where
  "empty_input = \<lparr>has = Map.empty, for_in = []\<rparr>"

text \<open>Without that proviso the parsers differ: for an absent key the walking parser accepts the empty
  object, the compiled one accepts it too but adds the value the field had refused.
\<close>

lemma jit_keeps_refused_value:
  "parse_walk None [(lit ''a'', overwritten)] (Some empty_input) [] = ([], Some []) \<and>
   parse_jit True None [(lit ''a'', overwritten)] (Some empty_input) [] = ([], Some [(lit ''a'', Some 7)])"
  by (simp add: parse_walk_def parse_jit_def run_program_def finish_def handle_property_def overwritten_def
      empty_input_def in_input_def read_input_def key_text_def put_text_def push_def put_def)

subsection \<open>Unknown keys\<close>

lemma catch_never:
  "catch_keys Never known inp ks (u, b) = (u @ filter (\<lambda>k. k \<noteq> proto_key \<and> k \<notin> set known) ks, b)"
  by (induction ks arbitrary: u b) auto

text \<open>A strict object schema reports every enumerated key outside its shape, in order and in one issue
  after those of the fields, never the prototype key, and builds the same object as a schema that
  strips unknown keys.
\<close>

lemma strict_reports_unknown:
  "parse_walk (Some Never) shape (Some inp) issues =
     (let r = parse_walk None shape (Some inp) issues;
          unknown = filter (\<lambda>k. k \<noteq> proto_key \<and> k \<notin> fst ` set shape) (for_in inp)
      in (fst r @ (if unknown = [] then [] else [\<lparr>i_body = Unrecognized unknown, i_path = None\<rparr>]), snd r))"
  by (cases "walk shape inp (issues, [])") (simp add: parse_walk_def finish_def handle_catchall_def catch_never Let_def)

end
