(* ===== verification/Fingerprint.thy ===== *)
theory Fingerprint
  imports JsonText Forms "HOL-Library.List_Lexorder"
begin

text \<open>
  \<open>src/fingerprint.rs\<close>: the text that decides which issue an event belongs to. A \<open>serde_json\<close>
  value is a \<open>json\<close> whose objects have distinct names; the BLAKE3 digest in hexadecimal and the
  rendering of a scalar are parameters. The order of strings is that of their bytes, which is the
  order of their characters.
\<close>

subsection \<open>The code\<close>

fun as_str :: "'n json \<Rightarrow> ustr option" where
  "as_str (JStr s) = Some s"
| "as_str _ = None"

fun as_array :: "'n json \<Rightarrow> 'n json list option" where
  "as_array (JArr vs) = Some vs"
| "as_array _ = None"

fun value_get :: "ustr \<Rightarrow> 'n json \<Rightarrow> 'n json option" where
  "value_get k (JObj ms) = obj_get k ms"
| "value_get k _ = None"

definition text_keys :: "ustr list" where
  "text_keys = map lit [''exception_type'', ''error_type'', ''type'', ''message'']"

definition nested_keys :: "ustr list" where
  "nested_keys = map lit [''frames'', ''stack_frames'', ''stacktrace'', ''exceptions'', ''exception'', ''error'']"

definition text_part :: "(ustr \<times> 'n json) list \<Rightarrow> ustr \<Rightarrow> ustr list" where
  "text_part ms k = (case Option.bind (obj_get k ms) as_str of None \<Rightarrow> [] | Some t \<Rightarrow> [k @ [58] @ t])"

text \<open>The second name is looked up only where the first is absent.\<close>

definition either_text :: "ustr \<Rightarrow> ustr \<Rightarrow> (ustr \<times> 'n json) list \<Rightarrow> ustr option" where
  "either_text k l ms = Option.bind (case obj_get k ms of None \<Rightarrow> obj_get l ms | Some v \<Rightarrow> Some v) as_str"

definition frame_part :: "(ustr \<times> 'n json) list \<Rightarrow> ustr list" where
  "frame_part ms =
     (case (either_text (lit ''filename'') (lit ''file'') ms,
            either_text (lit ''function'') (lit ''function_name'') ms) of
        (Some file, Some func) \<Rightarrow> [lit ''frame:'' @ file @ [58] @ func]
      | _ \<Rightarrow> [])"

lemma obj_get_size: "obj_get k ms = Some v \<Longrightarrow> size v < Suc (size_list (size_prod (\<lambda>x. 0) size) ms)"
  by (induction ms) (auto split: if_splits)

lemma obj_get_None: "obj_get k ms = None \<longleftrightarrow> k \<notin> fst ` set ms"
  by (induction ms) (auto split: if_splits)

function collect :: "'n json \<Rightarrow> ustr list" where
  "collect (JObj ms) =
     concat (map (text_part ms) text_keys) @
     concat (map (\<lambda>k. case obj_get k ms of None \<Rightarrow> [] | Some v \<Rightarrow> collect v) nested_keys) @
     frame_part ms"
| "collect (JArr vs) = concat (map collect vs)"
| "collect JNull = []"
| "collect (JBool b) = []"
| "collect (JNum n) = []"
| "collect (JStr s) = []"
  by pat_completeness auto
termination
  by (relation "measure size") (auto dest: obj_get_size simp: size_list_estimation' less_Suc_eq_le)

fun canonical :: "('n json \<Rightarrow> ustr) \<Rightarrow> 'n json \<Rightarrow> ustr" where
  "canonical show (JObj ms) =
     join (lit ''|'') (map snd (sort_key fst (map (\<lambda>(k, v). (k, k @ [58] @ canonical show v)) ms)))"
| "canonical show (JArr vs) = join (lit '','') (map (canonical show) vs)"
| "canonical show v = show v"

definition explicit_parts :: "'n json \<Rightarrow> ustr list option" where
  "explicit_parts e =
     (case Option.bind (value_get (lit ''fingerprint'') e) as_array of
        None \<Rightarrow> None
      | Some parts \<Rightarrow> if parts = [] then None else Some (List.map_filter as_str parts))"

definition fingerprint_text :: "('n json \<Rightarrow> ustr) \<Rightarrow> 'n json \<Rightarrow> ustr" where
  "fingerprint_text show e =
     (case explicit_parts e of
        Some parts \<Rightarrow> lit ''explicit'' @ [10] @ join [10] parts
      | None \<Rightarrow> join [10] (let parts = collect e in if parts = [] then [canonical show e] else parts))"

definition event_fingerprint :: "(nat list \<Rightarrow> ustr) \<Rightarrow> ('n json \<Rightarrow> ustr) \<Rightarrow> 'n json \<Rightarrow> ustr" where
  "event_fingerprint blake show e = blake (utf8 (fingerprint_text show e))"

subsection \<open>What does not group\<close>

definition read_keys :: "ustr list" where
  "read_keys = text_keys @ nested_keys @ map lit [''filename'', ''file'', ''function'', ''function_name'']"

text \<open>An event without everything \<open>collect\<close> does not look at.\<close>

fun prune :: "'n json \<Rightarrow> 'n json" where
  "prune (JObj ms) =
     JObj (map (\<lambda>(k, v). (k, if k \<in> set nested_keys then prune v else v)) (filter (\<lambda>m. fst m \<in> set read_keys) ms))"
| "prune (JArr vs) = JArr (map prune vs)"
| "prune v = v"

lemma obj_get_prune:
  "obj_get k (map (\<lambda>(k, v). (k, h k v)) (filter (\<lambda>m. fst m \<in> K) ms)) =
     (if k \<in> K then map_option (h k) (obj_get k ms) else None)"
  by (induction ms) auto

lemma keys_apart:
  "k \<in> set text_keys \<Longrightarrow> k \<in> set read_keys \<and> k \<notin> set nested_keys"
  "k \<in> set nested_keys \<Longrightarrow> k \<in> set read_keys"
  "lit ''filename'' \<in> set read_keys \<and> lit ''filename'' \<notin> set nested_keys"
  "lit ''file'' \<in> set read_keys \<and> lit ''file'' \<notin> set nested_keys"
  "lit ''function'' \<in> set read_keys \<and> lit ''function'' \<notin> set nested_keys"
  "lit ''function_name'' \<in> set read_keys \<and> lit ''function_name'' \<notin> set nested_keys"
  by (auto simp: read_keys_def text_keys_def nested_keys_def)

lemma collect_prune: "collect (prune v) = collect v"
proof (induction v rule: collect.induct)
  case (1 ms)
  let ?ms = "map (\<lambda>(k, v). (k, if k \<in> set nested_keys then prune v else v)) (filter (\<lambda>m. fst m \<in> set read_keys) ms)"
  have get: "obj_get k ?ms =
      (if k \<in> set read_keys then map_option (\<lambda>v. if k \<in> set nested_keys then prune v else v) (obj_get k ms) else None)" for k
    by (rule obj_get_prune)
  have "text_part ?ms k = text_part ms k" if "k \<in> set text_keys" for k
    using keys_apart(1) [OF that] by (cases "obj_get k ms") (simp_all add: text_part_def get)
  then have t: "map (text_part ?ms) text_keys = map (text_part ms) text_keys" by simp
  have "(case obj_get k ?ms of None \<Rightarrow> [] | Some v \<Rightarrow> collect v) =
      (case obj_get k ms of None \<Rightarrow> [] | Some v \<Rightarrow> collect v)" if "k \<in> set nested_keys" for k
    using that keys_apart(2) [OF that] 1 [OF that] by (cases "obj_get k ms") (simp_all add: get)
  then have n: "map (\<lambda>k. case obj_get k ?ms of None \<Rightarrow> [] | Some v \<Rightarrow> collect v) nested_keys =
      map (\<lambda>k. case obj_get k ms of None \<Rightarrow> [] | Some v \<Rightarrow> collect v) nested_keys" by simp
  have "either_text k l ?ms = either_text k l ms"
    if "k \<in> set read_keys \<and> k \<notin> set nested_keys" "l \<in> set read_keys \<and> l \<notin> set nested_keys" for k l
    using that by (cases "obj_get k ms"; cases "obj_get l ms") (simp_all add: either_text_def get)
  then have "frame_part ?ms = frame_part ms" by (simp add: frame_part_def keys_apart)
  then show ?case by (simp only: prune.simps collect.simps t n)
next
  case (2 vs)
  then show ?case by (simp add: comp_def cong: map_cong)
qed simp_all

lemma prune_unnamed: "explicit_parts (prune e) = None"
proof (cases e)
  case (JObj ms)
  have "lit ''fingerprint'' \<notin> set read_keys" by (simp add: read_keys_def text_keys_def nested_keys_def)
  then have "value_get (lit ''fingerprint'') (prune e) = None"
    unfolding JObj prune.simps value_get.simps obj_get_prune by simp
  then show ?thesis by (simp add: explicit_parts_def)
qed (simp_all add: explicit_parts_def)

text \<open>Every event the server stores has a message, so that the fallback to the whole event is never taken.\<close>

definition has_message :: "'n json \<Rightarrow> bool" where
  "has_message e \<longleftrightarrow> Option.bind (value_get (lit ''message'') e) as_str \<noteq> None"

lemma collect_message: "has_message e \<Longrightarrow> collect e \<noteq> []"
  by (cases e) (auto simp: has_message_def text_part_def text_keys_def)

lemma collected_text:
  "has_message e \<Longrightarrow> explicit_parts e = None \<Longrightarrow> fingerprint_text show e = join [10] (collect e)"
  by (simp add: fingerprint_text_def Let_def collect_message)

text \<open>What a fingerprint ignores: two events without explicit parts that agree on the type, message,
  error and frame members, at every depth, are grouped together, whatever else they carry (times,
  releases, tags, contexts, line numbers, further members).
\<close>

lemma metadata_ignored:
  assumes "explicit_parts a = None" "explicit_parts b = None" "has_message a" "has_message b"
    and "prune a = prune b"
  shows "event_fingerprint blake show a = event_fingerprint blake show b"
proof -
  have "collect a = collect b" using assms(5) by (metis collect_prune)
  with assms show ?thesis by (simp add: event_fingerprint_def collected_text)
qed

definition sample_event :: "ustr \<Rightarrow> nat \<Rightarrow> nat json" where
  "sample_event time line =
     JObj [(lit ''message'', JStr (lit ''boom'')), (lit ''timestamp'', JStr time),
       (lit ''stack_frames'', JArr [JObj [(lit ''filename'', JStr (lit ''main.rs'')),
          (lit ''function'', JStr (lit ''run'')), (lit ''line'', JNum line)]])]"

lemma sample_event_facts:
  "explicit_parts (sample_event t n) = None" "has_message (sample_event t n)"
  "prune (sample_event t n) =
     JObj [(lit ''message'', JStr (lit ''boom'')),
       (lit ''stack_frames'', JArr [JObj [(lit ''filename'', JStr (lit ''main.rs'')),
          (lit ''function'', JStr (lit ''run''))]])]"
  by (simp_all add: sample_event_def explicit_parts_def has_message_def read_keys_def text_keys_def nested_keys_def)

lemma metadata_ignored_witness:
  "event_fingerprint (\<lambda>bs. bs) (\<lambda>v. []) (sample_event (lit ''2026'') 1) =
   event_fingerprint (\<lambda>bs. bs) (\<lambda>v. []) (sample_event (lit ''2027'') 99)"
  by (rule metadata_ignored) (simp_all add: sample_event_facts)

subsection \<open>What groups\<close>

text \<open>The grouping of an event: the parts it names, or the text collected from it.\<close>

definition grouping :: "'n json \<Rightarrow> ustr list + ustr" where
  "grouping e = (case explicit_parts e of Some parts \<Rightarrow> Inl parts | None \<Rightarrow> Inr (join [10] (collect e)))"

definition plain_parts :: "'n json \<Rightarrow> bool" where
  "plain_parts e \<longleftrightarrow>
     (case explicit_parts e of None \<Rightarrow> True | Some parts \<Rightarrow> parts \<noteq> [] \<and> list_all (\<lambda>p. 10 \<notin> set p) parts)"

text \<open>The first part collected never starts like the text of explicit parts.\<close>

definition tagged :: "ustr list \<Rightarrow> bool" where
  "tagged ps \<longleftrightarrow> list_all (\<lambda>p. \<forall>t. p \<noteq> lit ''explicit'' @ t) ps"

lemma tagged_text: "tagged (text_part ms k)" if "k \<in> set text_keys"
  using that by (auto simp: tagged_def text_part_def text_keys_def lit_def split: option.split)

lemma tagged_frame: "tagged (frame_part ms)"
  by (auto simp: tagged_def frame_part_def lit_def split: option.split)

lemma tagged_concat: "(\<And>x. x \<in> set xs \<Longrightarrow> tagged (f x)) \<Longrightarrow> tagged (concat (map f xs))"
  by (auto simp: tagged_def list_all_iff)

lemma tagged_append: "tagged (ps @ qs) \<longleftrightarrow> tagged ps \<and> tagged qs"
  by (simp add: tagged_def)

lemma tagged_collect: "tagged (collect v)"
proof (induction v rule: collect.induct)
  case (1 ms)
  have "tagged (concat (map (\<lambda>k. case obj_get k ms of None \<Rightarrow> [] | Some v \<Rightarrow> collect v) nested_keys))"
    using 1 by (intro tagged_concat) (auto simp: tagged_def split: option.split)
  then show ?case by (simp add: tagged_append tagged_concat tagged_text tagged_frame)
next
  case (2 vs)
  then show ?case by (simp add: tagged_concat)
qed (simp_all add: tagged_def)

lemma tagged_join: "tagged ps \<Longrightarrow> ps \<noteq> [] \<Longrightarrow> join [10] ps \<noteq> lit ''explicit'' @ [10] @ t"
proof (cases ps)
  case (Cons p qs)
  assume "tagged ps"
  then have p: "p \<noteq> lit ''explicit'' @ u" for u by (simp add: Cons tagged_def)
  show ?thesis
  proof (cases qs)
    case Nil
    then show ?thesis using p Cons by simp
  next
    case (Cons q rs)
    have "p @ 10 # r \<noteq> lit ''explicit'' @ 10 # t" for r
    proof
      assume e: "p @ 10 # r = lit ''explicit'' @ 10 # t"
      with p obtain us where us: "p @ us = lit ''explicit''" "10 # r = us @ 10 # t"
        by (auto simp: append_eq_append_conv2)
      moreover have "us \<noteq> []" using us(1) p [of "[]"] by auto
      ultimately have "10 \<in> set us" by (cases us) auto
      then have "10 \<in> set (lit ''explicit'')" unfolding us(1) [symmetric] by simp
      then show False by (simp add: lit_def)
    qed
    then show ?thesis using \<open>ps = p # qs\<close> Cons by simp
  qed
qed simp

lemma explicit_text: "explicit_parts e = Some ps \<Longrightarrow> fingerprint_text show e = lit ''explicit'' @ [10] @ join [10] ps"
  by (simp add: fingerprint_text_def)

lemma grouping_text:
  assumes "has_message a" "has_message b" "plain_parts a" "plain_parts b"
  shows "fingerprint_text show a = fingerprint_text show b \<longleftrightarrow> grouping a = grouping b"
proof -
  have apart: "fingerprint_text show u \<noteq> fingerprint_text show v"
    if "explicit_parts u = Some ps" "explicit_parts v = None" "has_message v" for u v ps
    using tagged_join [OF tagged_collect collect_message [OF that(3)]] that
    by (metis collected_text explicit_text)
  show ?thesis
  proof (cases "explicit_parts a"; cases "explicit_parts b")
    fix ps qs assume e: "explicit_parts a = Some ps" "explicit_parts b = Some qs"
    then have "ps \<noteq> [] \<and> list_all (\<lambda>p. 10 \<notin> set p) ps" "qs \<noteq> [] \<and> list_all (\<lambda>p. 10 \<notin> set p) qs"
      using assms by (simp_all add: plain_parts_def)
    then have "join [10] ps = join [10] qs \<longleftrightarrow> ps = qs" by (metis split_on_join list_all_iff)
    with e show ?thesis by (simp add: explicit_text grouping_def)
  qed (use assms apart in \<open>simp_all add: grouping_def collected_text, metis+\<close>)
qed


definition named_event :: "string list \<Rightarrow> nat json" where
  "named_event ps =
     JObj [(lit ''message'', JStr (lit ''boom'')), (lit ''fingerprint'', JArr (map (\<lambda>p. JStr (lit p)) ps))]"

lemma named_event_facts:
  "has_message (named_event ps)" "explicit_parts (named_event (p # ps)) = Some (map lit (p # ps))"
  by (induction ps) (simp_all add: named_event_def has_message_def explicit_parts_def List.map_filter_simps)


text \<open>With a line break inside a part two different lists of parts are one group.\<close>

lemma parts_run_together:
  "fingerprint_text show (JObj [(lit ''message'', JStr m), (lit ''fingerprint'', JArr [JStr [97], JStr [98]])]) =
   fingerprint_text show (JObj [(lit ''message'', JStr m), (lit ''fingerprint'', JArr [JStr [97, 10, 98]])])"
  by (simp add: fingerprint_text_def explicit_parts_def List.map_filter_simps)

end
