(* ===== verification/Protocol.thy ===== *)
theory Protocol
  imports RustString JsonText
begin

text \<open>
  \<open>crates/zbierak-protocol/src/lib.rs\<close>: the event of the ingestion interface and its validation. Maps
  are lists of pairs in key order; values of further JSON are the \<open>json\<close> type. Parsing of RFC 3339
  times is a parameter that gives the year.
\<close>

record stack_frame =
  f_filename :: "ustr option"
  f_function :: "ustr option"
  f_line :: "nat option"
  f_column :: "nat option"
  f_module :: "ustr option"
  f_in_app :: "bool option"

record error_info =
  type_name :: ustr
  error_text :: "ustr option"
  error_frames :: "stack_frame list"

datatype severity = Debug | Info | Warning | Error | Fatal

record 'n breadcrumb =
  b_timestamp :: ustr
  b_message :: ustr
  b_severity :: severity
  b_category :: "ustr option"
  b_data :: "(ustr \<times> 'n json) list"

record 'n event_user =
  u_id :: "ustr option"
  u_email :: "ustr option"
  u_username :: "ustr option"
  u_address :: "ustr option"
  u_data :: "(ustr \<times> 'n json) list"

record 'n event =
  version :: nat
  event_id :: ustr
  timestamp :: ustr
  message :: ustr
  error_of :: "error_info option"
  severity_of :: severity
  release :: "ustr option"
  environment :: "ustr option"
  platform :: "ustr option"
  stack_frames :: "stack_frame list"
  breadcrumbs :: "'n breadcrumb list"
  event_tags :: "(ustr \<times> ustr) list"
  event_contexts :: "(ustr \<times> 'n json) list"
  event_user :: "'n event_user option"
  fingerprint_parts :: "ustr list option"

text \<open>A refused event names the field and the reason; the checks run in order.\<close>

type_synonym check = "(ustr \<times> ustr) + unit"

definition refuse :: "string \<Rightarrow> ustr \<Rightarrow> check" where
  "refuse field m = Inl (lit field, m)"

fun all_checks :: "check list \<Rightarrow> check" where
  "all_checks [] = Inr ()"
| "all_checks (c # cs) = (case c of Inl e \<Rightarrow> Inl e | Inr u \<Rightarrow> all_checks cs)"

definition validate_optional :: "string \<Rightarrow> ustr \<Rightarrow> nat \<Rightarrow> check" where
  "validate_optional field v m =
     (if m < byte_len v then refuse field (lit ''must be at most '' @ dec m @ lit '' bytes'') else Inr ())"

definition validate_required :: "string \<Rightarrow> ustr \<Rightarrow> nat \<Rightarrow> check" where
  "validate_required field v m =
     (if rs_trim v = [] then refuse field (lit ''must not be empty'') else validate_optional field v m)"

definition max_stack_frames :: nat where "max_stack_frames = 256"
definition max_frame_field_bytes :: nat where "max_frame_field_bytes = 1024"

definition or_empty :: "ustr option \<Rightarrow> ustr" where
  "or_empty s = (case s of None \<Rightarrow> [] | Some s \<Rightarrow> s)"

definition validate_stack_frames :: "string \<Rightarrow> stack_frame list \<Rightarrow> check" where
  "validate_stack_frames field frames =
     (if max_stack_frames < length frames
      then refuse field (lit ''must contain at most '' @ dec max_stack_frames @ lit '' frames'')
      else all_checks (concat (map (\<lambda>f.
        map (\<lambda>v. validate_optional field (or_empty v) max_frame_field_bytes) [f_function f, f_filename f, f_module f]) frames)))"

definition validate_timestamp :: "(ustr \<Rightarrow> int option) \<Rightarrow> string \<Rightarrow> ustr \<Rightarrow> check" where
  "validate_timestamp rfc3339 field v =
     (case rfc3339 v of
        None \<Rightarrow> refuse field (lit ''must be an RFC 3339 timestamp such as 2026-09-24T12:00:00Z'')
      | Some year \<Rightarrow>
          if 2000 \<le> year \<and> year \<le> 2100 then Inr ()
          else refuse field (lit ''must fall between years 2000 and 2100''))"

definition validate_tags :: "(ustr \<times> ustr) list \<Rightarrow> check" where
  "validate_tags tags =
     (if 100 < length tags then refuse ''tags'' (lit ''must contain at most 100 entries'')
      else all_checks (concat (map (\<lambda>(k, v).
        [validate_required ''tags.key'' k 128, validate_optional ''tags.value'' v 1024]) tags)))"

definition validate_parts :: "ustr list option \<Rightarrow> check" where
  "validate_parts parts =
     (case parts of
        None \<Rightarrow> Inr ()
      | Some ps \<Rightarrow>
          if ps = [] \<or> 10 < length ps then refuse ''fingerprint'' (lit ''must contain between 1 and 10 components'')
          else all_checks (map (\<lambda>p. validate_required ''fingerprint'' p 1024) ps))"

definition validate :: "(ustr \<Rightarrow> int option) \<Rightarrow> 'n event \<Rightarrow> check" where
  "validate rfc3339 e =
     all_checks
       [if version e \<noteq> 1 then refuse ''version'' (lit ''unsupported protocol version '' @ dec (version e)) else Inr (),
        validate_required ''event_id'' (event_id e) 128,
        validate_required ''timestamp'' (timestamp e) 64,
        validate_timestamp rfc3339 ''timestamp'' (timestamp e),
        validate_required ''message'' (message e) 16384,
        validate_tags (event_tags e),
        if 50 < length (event_contexts e) then refuse ''contexts'' (lit ''must contain at most 50 entries'') else Inr (),
        if 1000 < length (breadcrumbs e) then refuse ''breadcrumbs'' (lit ''must contain at most 1000 entries'') else Inr (),
        validate_stack_frames ''stack_frames'' (stack_frames e),
        case error_of e of None \<Rightarrow> Inr () | Some x \<Rightarrow> validate_stack_frames ''error.stack_frames'' (error_frames x),
        validate_parts (fingerprint_parts e)]"

subsection \<open>What is accepted\<close>

lemma all_checks_ok: "all_checks cs = Inr () \<longleftrightarrow> list_all (\<lambda>c. c = Inr ()) cs"
  by (induction cs) (auto split: sum.splits)

lemma list_all_concat: "list_all P (concat xss) \<longleftrightarrow> list_all (list_all P) xss"
  by (induction xss) simp_all

lemma required_ok: "validate_required field v m = Inr () \<longleftrightarrow> rs_trim v \<noteq> [] \<and> byte_len v \<le> m"
  by (auto simp: validate_required_def validate_optional_def refuse_def)

lemma optional_ok: "validate_optional field v m = Inr () \<longleftrightarrow> byte_len v \<le> m"
  by (auto simp: validate_optional_def refuse_def)

definition frames_bounded :: "stack_frame list \<Rightarrow> bool" where
  "frames_bounded fs \<longleftrightarrow> length fs \<le> 256 \<and>
     list_all (\<lambda>f. list_all (\<lambda>v. byte_len (or_empty v) \<le> 1024) [f_function f, f_filename f, f_module f]) fs"

lemma frames_ok: "validate_stack_frames field fs = Inr () \<longleftrightarrow> frames_bounded fs"
  by (auto simp: validate_stack_frames_def refuse_def all_checks_ok optional_ok frames_bounded_def list_all_iff
      max_stack_frames_def max_frame_field_bytes_def)

definition text_bounded :: "nat \<Rightarrow> ustr \<Rightarrow> bool" where
  "text_bounded m s \<longleftrightarrow> rs_trim s \<noteq> [] \<and> byte_len s \<le> m"

lemma validate_needs:
  "validate rfc3339 e = Inr () \<Longrightarrow> length (breadcrumbs e) \<le> 1000 \<and> byte_len (message e) \<le> 16384"
  unfolding validate_def all_checks_ok by (auto simp: required_ok refuse_def split: if_splits)

text \<open>Exactly which events are accepted: the version, the bounds of every text and collection, and a
  time of the years 2000 to 2100.
\<close>

lemma validate_exact:
  "validate rfc3339 e = Inr () \<longleftrightarrow>
     version e = 1 \<and> text_bounded 128 (event_id e) \<and> text_bounded 64 (timestamp e) \<and>
     rfc3339 (timestamp e) \<in> Some ` {2000..2100} \<and> text_bounded 16384 (message e) \<and>
     length (event_tags e) \<le> 100 \<and> list_all (\<lambda>(k, v). text_bounded 128 k \<and> byte_len v \<le> 1024) (event_tags e) \<and>
     length (event_contexts e) \<le> 50 \<and> length (breadcrumbs e) \<le> 1000 \<and> frames_bounded (stack_frames e) \<and>
     (case error_of e of None \<Rightarrow> True | Some x \<Rightarrow> frames_bounded (error_frames x)) \<and>
     (case fingerprint_parts e of None \<Rightarrow> True
      | Some ps \<Rightarrow> ps \<noteq> [] \<and> length ps \<le> 10 \<and> list_all (text_bounded 1024) ps)"
proof -
  have time: "validate_timestamp rfc3339 f v = Inr () \<longleftrightarrow> rfc3339 v \<in> Some ` {2000..2100}" for f v
    by (auto simp: validate_timestamp_def refuse_def split: option.splits)
  have tags: "validate_tags ts = Inr () \<longleftrightarrow>
      length ts \<le> 100 \<and> list_all (\<lambda>(k, v). text_bounded 128 k \<and> byte_len v \<le> 1024) ts" for ts
    by (simp add: validate_tags_def refuse_def all_checks_ok list_all_concat list.pred_map comp_def case_prod_beta
        required_ok optional_ok text_bounded_def) (auto simp: list_all_iff)
  have parts: "validate_parts p = Inr () \<longleftrightarrow> (case p of None \<Rightarrow> True
      | Some ps \<Rightarrow> ps \<noteq> [] \<and> length ps \<le> 10 \<and> list_all (text_bounded 1024) ps)" for p
    by (auto simp: validate_parts_def refuse_def all_checks_ok required_ok list_all_iff text_bounded_def split: option.split)
  show ?thesis
    unfolding validate_def all_checks_ok
    by (simp add: time tags parts required_ok frames_ok text_bounded_def not_less refuse_def split: option.split)
qed

end
