(* ===== verification/Domain.thy ===== *)
theory Domain
  imports AppError
begin

text \<open>
  \<open>src/domain.rs\<close> and \<open>require_project_role\<close> of \<open>src/auth.rs\<close>: roles and issue states with their
  spellings, and the check every project handler starts with. The slug column compares without
  regard to the case of ASCII letters.
\<close>

subsection \<open>Roles\<close>

datatype project_role = Viewer | Developer | Admin | Owner

fun rank :: "project_role \<Rightarrow> nat" where
  "rank Viewer = 0" | "rank Developer = 1" | "rank Admin = 2" | "rank Owner = 3"

lemma rank_inj [simp]: "rank r = rank s \<longleftrightarrow> r = s"
  by (cases r; cases s) simp_all

instantiation project_role :: linorder
begin

definition less_eq_project_role :: "project_role \<Rightarrow> project_role \<Rightarrow> bool" where
  "less_eq_project_role r s \<longleftrightarrow> rank r \<le> rank s"

definition less_project_role :: "project_role \<Rightarrow> project_role \<Rightarrow> bool" where
  "less_project_role r s \<longleftrightarrow> rank r < rank s"

instance
  by standard (auto simp: less_eq_project_role_def less_project_role_def)

end

fun role_text :: "project_role \<Rightarrow> ustr" where
  "role_text Viewer = lit ''viewer''"
| "role_text Developer = lit ''developer''"
| "role_text Admin = lit ''admin''"
| "role_text Owner = lit ''owner''"

definition parse_role :: "ustr \<Rightarrow> project_role option" where
  "parse_role raw = find (\<lambda>r. role_text r = raw) [Viewer, Developer, Admin, Owner]"

lemma parse_role_text [simp]: "parse_role (role_text r) = Some r"
  by (cases r) (simp_all add: parse_role_def)

lemma parse_role_Some: "parse_role s = Some r \<Longrightarrow> s = role_text r"
  by (auto simp: parse_role_def split: if_splits)

subsection \<open>Issue states\<close>

datatype issue_status = Unresolved | Resolved | Ignored

fun status_text :: "issue_status \<Rightarrow> ustr" where
  "status_text Unresolved = lit ''unresolved''"
| "status_text Resolved = lit ''resolved''"
| "status_text Ignored = lit ''ignored''"

definition parse_status :: "ustr \<Rightarrow> issue_status option" where
  "parse_status raw =
     (if raw = lit ''unresolved'' then Some Unresolved
      else if raw = lit ''resolved'' then Some Resolved
      else if raw = lit ''ignored'' then Some Ignored
      else None)"

lemma parse_status_iff: "parse_status s = Some x \<longleftrightarrow> s = status_text x"
  by (cases x) (auto simp: parse_status_def)

subsection \<open>Memberships\<close>

text \<open>A project is its number and slug; a membership is project, user and the role as stored.\<close>

type_synonym membership = "int \<times> int \<times> ustr"

definition same_slug :: "ustr \<Rightarrow> ustr \<Rightarrow> bool" where
  "same_slug s t \<longleftrightarrow> map ascii_lower s = map ascii_lower t"

definition stored_role :: "membership list \<Rightarrow> int \<Rightarrow> int \<Rightarrow> ustr option" where
  "stored_role ms project user = map_option (snd \<circ> snd) (find (\<lambda>m. fst m = project \<and> fst (snd m) = user) ms)"

definition membership_of :: "(int \<times> ustr) list \<Rightarrow> membership list \<Rightarrow> int \<Rightarrow> ustr \<Rightarrow> (int \<times> ustr) option" where
  "membership_of projects ms user slug =
     (case find (\<lambda>p. same_slug (snd p) slug \<and> stored_role ms (fst p) user \<noteq> None) projects of
        None \<Rightarrow> None
      | Some p \<Rightarrow> map_option (Pair (fst p)) (stored_role ms (fst p) user))"

definition require_project_role ::
  "(int \<times> ustr) list \<Rightarrow> membership list \<Rightarrow> int \<Rightarrow> ustr \<Rightarrow> project_role \<Rightarrow> int app_result" where
  "require_project_role projects ms user slug minimum =
     (case membership_of projects ms user slug of
        None \<Rightarrow> Inl NotFound
      | Some (project, role) \<Rightarrow>
          (case parse_role role of
             None \<Rightarrow> Inl Forbidden
           | Some actual \<Rightarrow> if actual < minimum then Inl Forbidden else Inr project))"

lemma require_role_Inr:
  assumes "require_project_role projects ms user slug minimum = Inr project"
  obtains slug' role where "(project, slug') \<in> set projects" "same_slug slug' slug"
    "stored_role ms project user = Some (role_text role)" "minimum \<le> role"
  using assms that
  by (auto simp: require_project_role_def membership_of_def find_Some_iff in_set_conv_nth dest!: parse_role_Some
      split: option.splits if_splits) (metis not_less prod.collapse)

end
