(* ===== verification/Outbox.thy ===== *)
theory Outbox
  imports NetPolicy AppError
begin

text \<open>
  \<open>src/outbox.rs\<close>: the table of notifications, the worker that claims a row, sends it and records the
  result, and the delays between attempts. Parsing of URLs, name resolution, the HTTP client, the
  cipher and the message authentication code are parameters; times are seconds of the database.
\<close>

subsection \<open>Tables\<close>

record endpoint =
  ep_id :: int
  ep_project :: int
  ep_kind :: ustr
  ep_url :: ustr
  ep_secret :: "ustr option"
  ep_secret_encrypted :: int
  ep_enabled :: int

record outbox_row =
  ob_id :: int
  ob_endpoint :: int
  ob_event_type :: ustr
  ob_payload :: ustr
  ob_attempts :: int
  ob_available :: int
  ob_locked :: "int option"
  ob_delivered :: "int option"
  ob_error :: "ustr option"

record delivery =
  d_id :: int
  d_payload :: ustr
  d_attempts :: int
  d_kind :: ustr
  d_url :: ustr
  d_secret :: "ustr option"
  d_secret_encrypted :: int

definition update_row :: "int \<Rightarrow> (outbox_row \<Rightarrow> outbox_row) \<Rightarrow> outbox_row list \<Rightarrow> outbox_row list" where
  "update_row i f rows = map (\<lambda>r. if ob_id r = i then f r else r) rows"

subsection \<open>Claiming\<close>

definition eligible :: "int \<Rightarrow> outbox_row \<Rightarrow> bool" where
  "eligible now r \<longleftrightarrow> ob_delivered r = None \<and> ob_available r \<le> now \<and>
     (case ob_locked r of None \<Rightarrow> True | Some t \<Rightarrow> t < now - 60)"

definition next_row :: "int \<Rightarrow> outbox_row list \<Rightarrow> outbox_row option" where
  "next_row now rows =
     (case sort_key ob_id (filter (eligible now) rows) of [] \<Rightarrow> None | r # rs \<Rightarrow> Some r)"

definition claimed :: "int \<Rightarrow> outbox_row \<Rightarrow> outbox_row" where
  "claimed now r = r\<lparr>ob_locked := Some now, ob_attempts := ob_attempts r + 1\<rparr>"

text \<open>A row without endpoint cannot be read back; \<open>null_error\<close> is the text of the database's error.\<close>

definition claim ::
  "ustr \<Rightarrow> endpoint list \<Rightarrow> int \<Rightarrow> outbox_row list \<Rightarrow> (app_error + delivery option) \<times> outbox_row list" where
  "claim null_error eps now rows =
     (case next_row now rows of
        None \<Rightarrow> (Inr None, rows)
      | Some r \<Rightarrow>
          (case find (\<lambda>e. ep_id e = ob_endpoint r) eps of
             None \<Rightarrow> Inl (Database null_error)
           | Some e \<Rightarrow>
               Inr (Some \<lparr>d_id = ob_id r, d_payload = ob_payload r, d_attempts = ob_attempts r + 1,
                 d_kind = ep_kind e, d_url = ep_url e, d_secret = ep_secret e,
                 d_secret_encrypted = ep_secret_encrypted e\<rparr>),
           update_row (ob_id r) (claimed now) rows))"

subsection \<open>Sending\<close>

record parsed_url =
  u_scheme :: ustr
  u_host :: "ustr option"
  u_port :: "nat option"

record 'k worker_env =
  parse_url :: "ustr \<Rightarrow> ustr + parsed_url"
  resolver :: "ustr \<Rightarrow> nat \<Rightarrow> ustr + ip list"
  build_error :: "ustr \<Rightarrow> (ip \<times> nat) list \<Rightarrow> ustr option"
  webhook_key :: "'k option"
  decrypt :: "'k \<Rightarrow> ustr \<Rightarrow> ustr + ustr"
  hmac64 :: "ustr \<Rightarrow> ustr \<Rightarrow> ustr"
  status_phrase :: "nat \<Rightarrow> ustr"

record request =
  rq_url :: ustr
  rq_pins :: "(ip \<times> nat) list"
  rq_headers :: "(ustr \<times> ustr) list"
  rq_body :: ustr

datatype response = Status nat | SendError ustr

fun policy_text :: "policy_error \<Rightarrow> ustr" where
  "policy_text (Resolution host) = lit ''host '' @ host @ lit '' did not resolve''"
| "policy_text Blocked = lit ''host resolves only to addresses outside the public internet''"

definition pinned_client :: "'k worker_env \<Rightarrow> ustr \<Rightarrow> ustr + (ip \<times> nat) list" where
  "pinned_client env raw =
     (case parse_url env raw of
        Inl error \<Rightarrow> Inl (lit ''invalid destination URL: '' @ error)
      | Inr url \<Rightarrow>
          if u_scheme url \<noteq> lit ''http'' \<and> u_scheme url \<noteq> lit ''https''
          then Inl (lit ''destination must be HTTP or HTTPS'')
          else
            (case u_host url of
               None \<Rightarrow> Inl (lit ''destination URL has no host'')
             | Some host \<Rightarrow>
                 (let default_port = (if u_scheme url = lit ''https'' then 443 else 80);
                      port = (case u_port url of None \<Rightarrow> default_port | Some p \<Rightarrow> p) in
                  case resolve_allowed_with (resolver env) host port of
                    Inl error \<Rightarrow> Inl (policy_text error)
                  | Inr addresses \<Rightarrow>
                      (case build_error env host addresses of
                         Some error \<Rightarrow> Inl (lit ''HTTP client build failed: '' @ error)
                       | None \<Rightarrow> Inr addresses))))"

definition signing_secret :: "'k worker_env \<Rightarrow> int \<Rightarrow> ustr \<Rightarrow> ustr + ustr" where
  "signing_secret env encrypted stored =
     (if encrypted = 0 then Inr stored
      else (case webhook_key env of
              None \<Rightarrow> Inl (lit ''ZBIERAK_SECRET_KEY is not configured but an encrypted secret exists'')
            | Some key \<Rightarrow> decrypt env key stored))"

definition signature :: "'k worker_env \<Rightarrow> delivery \<Rightarrow> ustr + (ustr \<times> ustr) list" where
  "signature env d =
     (case (d_kind d = lit ''webhook'', d_secret d) of
        (True, Some stored) \<Rightarrow>
          (case signing_secret env (d_secret_encrypted d) stored of
             Inl error \<Rightarrow> Inl error
           | Inr secret \<Rightarrow>
               Inr [(lit ''x-zbierak-signature'', lit ''sha256='' @ hmac64 env secret (d_payload d))])
      | _ \<Rightarrow> Inr [])"

definition prepare :: "'k worker_env \<Rightarrow> delivery \<Rightarrow> ustr + request" where
  "prepare env d =
     (case pinned_client env (d_url d) of
        Inl error \<Rightarrow> Inl error
      | Inr pins \<Rightarrow>
          (case signature env d of
             Inl error \<Rightarrow> Inl error
           | Inr headers \<Rightarrow>
               Inr \<lparr>rq_url = d_url d, rq_pins = pins,
                 rq_headers = (lit ''content-type'', lit ''application/json'') # headers,
                 rq_body = d_payload d\<rparr>))"

subsection \<open>Recording the result\<close>

text \<open>A byte offset is a character boundary when some prefix takes that many bytes.\<close>

definition char_boundary :: "ustr \<Rightarrow> nat \<Rightarrow> bool" where
  "char_boundary s i \<longleftrightarrow> i \<in> set (map byte_len (prefixes s))"

fun back_to_boundary :: "ustr \<Rightarrow> nat \<Rightarrow> nat" where
  "back_to_boundary s 0 = 0"
| "back_to_boundary s (Suc n) = (if char_boundary s (Suc n) then Suc n else back_to_boundary s n)"

fun slice_bytes :: "nat \<Rightarrow> ustr \<Rightarrow> ustr" where
  "slice_bytes n [] = []"
| "slice_bytes n (c # cs) =
     (if length (utf8_char c) \<le> n then c # slice_bytes (n - length (utf8_char c)) cs else [])"

definition truncate_utf8 :: "ustr \<Rightarrow> nat \<Rightarrow> ustr" where
  "truncate_utf8 s m = (if byte_len s \<le> m then s else slice_bytes (back_to_boundary s m) s)"

definition retry_delay :: "int \<Rightarrow> int" where
  "retry_delay attempts =
     (if 12 \<le> attempts then 86400
      else min (5 * 2 ^ nat (max 0 (min attempts 11))) 3600)"

definition failed :: "int \<Rightarrow> int \<Rightarrow> ustr \<Rightarrow> outbox_row \<Rightarrow> outbox_row" where
  "failed now attempts error r =
     r\<lparr>ob_locked := None, ob_available := now + retry_delay attempts, ob_error := Some (truncate_utf8 error 1000)\<rparr>"

definition delivered :: "int \<Rightarrow> outbox_row \<Rightarrow> outbox_row" where
  "delivered now r = r\<lparr>ob_delivered := Some now, ob_locked := None\<rparr>"

text \<open>What becomes of a claimed row: the request that is sent, if any, and the update of the row.\<close>

definition settle_delivery ::
  "'k worker_env \<Rightarrow> (request \<Rightarrow> response) \<Rightarrow> int \<Rightarrow> delivery \<Rightarrow> request option \<times> (outbox_row \<Rightarrow> outbox_row)" where
  "settle_delivery env answer now d =
     (case prepare env d of
        Inl error \<Rightarrow> (None, failed now (d_attempts d) error)
      | Inr rq \<Rightarrow>
          (Some rq,
           case answer rq of
             Status c \<Rightarrow>
               if 200 \<le> c \<and> c < 300 then delivered now
               else failed now (d_attempts d) (lit ''HTTP '' @ status_phrase env c)
           | SendError error \<Rightarrow> failed now (d_attempts d) error))"

definition deliver ::
  "'k worker_env \<Rightarrow> (request \<Rightarrow> response) \<Rightarrow> int \<Rightarrow> delivery \<Rightarrow> outbox_row list
     \<Rightarrow> request option \<times> outbox_row list" where
  "deliver env answer now d rows =
     (let (rq, f) = settle_delivery env answer now d in (rq, update_row (d_id d) f rows))"

subsection \<open>Delays and messages\<close>

lemma retry_delay_bounds: "5 \<le> retry_delay k \<and> retry_delay k \<le> 86400"
proof -
  have "(2::int) ^ 0 \<le> 2 ^ nat (max 0 (min k 11))" by (intro power_increasing) auto
  then show ?thesis by (simp add: retry_delay_def min.coboundedI2)
qed

text \<open>The delay after the k-th failure: 10 seconds doubling up to an hour, one day from the twelfth on;
  it never shrinks, and no intermediate value leaves the signed 64-bit range.
\<close>

lemma retry_delay_schedule:
  "map retry_delay [1..12] = [10, 20, 40, 80, 160, 320, 640, 1280, 2560, 3600, 3600, 86400] \<and>
   mono retry_delay \<and> (\<forall>k. 5 \<le> retry_delay k \<and> retry_delay k \<le> 86400) \<and>
   (\<forall>k. (5::int) * 2 ^ nat (max 0 (min k 11)) < 2 ^ 63)"
proof (intro conjI allI monoI)
  show "map retry_delay [1..12] = [10, 20, 40, 80, 160, 320, 640, 1280, 2560, 3600, 3600, 86400]"
    by code_simp
next
  fix k l :: int assume "k \<le> l"
  then have "(2::int) ^ nat (max 0 (min k 11)) \<le> 2 ^ nat (max 0 (min l 11))"
    by (intro power_increasing nat_mono) auto
  then have m: "min (5 * 2 ^ nat (max 0 (min k 11))) (3600::int) \<le> min (5 * 2 ^ nat (max 0 (min l 11))) 3600" by linarith
  have "(if 12 \<le> k then 86400 else a) \<le> (if 12 \<le> l then 86400 else b)" if "a \<le> b" "a \<le> 3600" for a b :: int
    using that \<open>k \<le> l\<close> by auto
  from this [OF m] show "retry_delay k \<le> retry_delay l" unfolding retry_delay_def by linarith
next
  fix k :: int
  show "5 \<le> retry_delay k" "retry_delay k \<le> 86400" using retry_delay_bounds by blast+
  have "(2::int) ^ nat (max 0 (min k 11)) \<le> 2 ^ 11" by (intro power_increasing) auto
  then show "(5::int) * 2 ^ nat (max 0 (min k 11)) < 2 ^ 63" by simp
qed

lemma slice_bytes_prefix: "prefix (slice_bytes n s) s"
  by (induction n s rule: slice_bytes.induct) auto

lemma slice_bytes_longest: "prefix p s \<Longrightarrow> byte_len p \<le> n \<Longrightarrow> prefix p (slice_bytes n s)"
  by (induction n s arbitrary: p rule: slice_bytes.induct) (auto simp: prefix_Cons)

lemma slice_bytes_len: "byte_len (slice_bytes n s) \<le> n"
  by (induction n s rule: slice_bytes.induct) auto

lemma back_to_boundary_slice: "byte_len (slice_bytes (back_to_boundary s m) s) = back_to_boundary s m \<and>
  slice_bytes (back_to_boundary s m) s = slice_bytes m s"
proof (induction m)
  case 0
  then show ?case using slice_bytes_len [of 0 s] by simp
next
  case (Suc m)
  show ?case
  proof (cases "char_boundary s (Suc m)")
    case True
    then obtain p where "prefix p s" "byte_len p = Suc m" by (auto simp: char_boundary_def)
    then have "prefix p (slice_bytes (Suc m) s)" by (simp add: slice_bytes_longest)
    then have "Suc m \<le> byte_len (slice_bytes (Suc m) s)"
      using \<open>byte_len p = Suc m\<close> by (auto simp: prefix_def)
    then show ?thesis using True slice_bytes_len [of "Suc m" s] by simp
  next
    case False
    have "byte_len p \<noteq> Suc m" if "prefix p s" for p
      using False that by (force simp: char_boundary_def)
    then have "byte_len (slice_bytes (Suc m) s) \<noteq> Suc m" by (simp add: slice_bytes_prefix)
    then have "byte_len (slice_bytes (Suc m) s) \<le> m" using slice_bytes_len [of "Suc m" s] by simp
    then have "slice_bytes (Suc m) s = slice_bytes m s"
      by (intro prefix_order.antisym slice_bytes_longest slice_bytes_prefix)
        (use slice_bytes_len [of m s] in simp_all)
    then show ?thesis using False Suc by (metis back_to_boundary.simps(2))
  qed
qed

lemma slice_bytes_all: "byte_len s \<le> n \<Longrightarrow> slice_bytes n s = s"
  by (induction n s rule: slice_bytes.induct) auto

lemma truncate_slice: "truncate_utf8 s m = slice_bytes m s"
  by (simp add: truncate_utf8_def back_to_boundary_slice slice_bytes_all)

text \<open>The stored message of a failure is the longest prefix, in whole characters, of at most the given
  number of bytes.
\<close>

lemma truncate_longest: "prefix p (truncate_utf8 s m) \<longleftrightarrow> prefix p s \<and> byte_len p \<le> m"
  unfolding truncate_slice
proof
  assume p: "prefix p (slice_bytes m s)"
  then have "byte_len p \<le> byte_len (slice_bytes m s)" by (auto simp: prefix_def)
  with slice_bytes_len [of m s] have "byte_len p \<le> m" by simp
  then show "prefix p s \<and> byte_len p \<le> m" using p slice_bytes_prefix prefix_order.trans by blast
qed (simp add: slice_bytes_longest)

end
