(* ===== verification/OutboxRun.thy ===== *)
theory OutboxRun
  imports Outbox
begin

text \<open>
  The notification worker over time: one pass over the rows that are due, and its runs beside
  requests that queue rows, endpoints that are removed and crashes between claim and result.
\<close>

subsection \<open>One pass\<close>

text \<open>One turn of the worker's loop: a claim and, when a row was claimed, its delivery.\<close>

definition worker_turn ::
  "ustr \<Rightarrow> 'k worker_env \<Rightarrow> endpoint list \<Rightarrow> (request \<Rightarrow> response) \<Rightarrow> int \<Rightarrow> outbox_row list \<Rightarrow> outbox_row list" where
  "worker_turn null_error env eps answer now rows =
     (case claim null_error eps now rows of
        (Inr (Some d), rows') \<Rightarrow> snd (deliver env answer now d rows')
      | (r, rows') \<Rightarrow> rows')"

definition delivery_of :: "endpoint list \<Rightarrow> outbox_row \<Rightarrow> delivery option" where
  "delivery_of eps r =
     map_option (\<lambda>e. \<lparr>d_id = ob_id r, d_payload = ob_payload r, d_attempts = ob_attempts r + 1, d_kind = ep_kind e,
       d_url = ep_url e, d_secret = ep_secret e, d_secret_encrypted = ep_secret_encrypted e\<rparr>)
       (find (\<lambda>e. ep_id e = ob_endpoint r) eps)"

definition has_endpoint :: "endpoint list \<Rightarrow> outbox_row \<Rightarrow> bool" where
  "has_endpoint eps r \<longleftrightarrow> ob_endpoint r \<in> ep_id ` set eps"

text \<open>What a turn makes of the row it claims.\<close>

definition settled :: "'k worker_env \<Rightarrow> endpoint list \<Rightarrow> (request \<Rightarrow> response) \<Rightarrow> int \<Rightarrow> outbox_row \<Rightarrow> outbox_row" where
  "settled env eps answer now r =
     (case delivery_of eps r of None \<Rightarrow> r | Some d \<Rightarrow> snd (settle_delivery env answer now d) (claimed now r))"

lemma has_endpoint_delivery:
  assumes "has_endpoint eps r"
  obtains d where "delivery_of eps r = Some d" "d_id d = ob_id r" "d_attempts d = ob_attempts r + 1"
proof -
  have "find (\<lambda>e. ep_id e = ob_endpoint r) eps \<noteq> None"
    using assms by (auto simp: has_endpoint_def find_None_iff)
  then show ?thesis using that by (auto simp: delivery_of_def)
qed

lemma sort_key_hd:
  assumes "sort_key f xs = x # ys"
  shows "x \<in> set xs" and "\<forall>y \<in> set xs. f x \<le> f y"
proof -
  have "set (x # ys) = set xs" by (metis assms set_sort)
  moreover have "sorted (map f (x # ys))" by (metis assms sorted_sort_key)
  ultimately show "x \<in> set xs" and "\<forall>y \<in> set xs. f x \<le> f y" by auto
qed

lemma next_row_Some: "next_row now rows = Some r \<Longrightarrow> r \<in> set rows \<and> eligible now r"
  using sort_key_hd(1) [of ob_id "filter (eligible now) rows" r]
  by (simp add: next_row_def split: list.splits)

lemma next_row_None: "next_row now rows = None \<longleftrightarrow> filter (eligible now) rows = []"
proof -
  have "sort_key ob_id xs = [] \<longleftrightarrow> xs = []" for xs by (metis length_sort length_0_conv)
  then show ?thesis by (simp add: next_row_def split: list.split) force
qed

lemma settle_keeps [simp]:
  "ob_id (snd (settle_delivery env answer now d) r) = ob_id r"
  "ob_endpoint (snd (settle_delivery env answer now d) r) = ob_endpoint r"
  "ob_attempts (snd (settle_delivery env answer now d) r) = ob_attempts r"
  by (simp_all add: settle_delivery_def failed_def delivered_def split: sum.split response.split)

lemma claimed_keeps [simp]:
  "ob_id (claimed now r) = ob_id r" "ob_endpoint (claimed now r) = ob_endpoint r"
  by (simp_all add: claimed_def)

lemma settled_keeps [simp]:
  "ob_id (settled env eps answer now r) = ob_id r" "ob_endpoint (settled env eps answer now r) = ob_endpoint r"
  by (simp_all add: settled_def split: option.split)

lemma settle_not_due: "\<not> eligible now (snd (settle_delivery env answer now d) r)"
proof -
  have "\<not> retry_delay k \<le> 0" for k using retry_delay_bounds [of k] by simp
  then show ?thesis
    by (simp add: settle_delivery_def eligible_def failed_def delivered_def split: sum.split response.split)
qed

lemma claim_row:
  "next_row now rows = Some r \<Longrightarrow> delivery_of eps r = Some d \<Longrightarrow>
   claim null_error eps now rows = (Inr (Some d), update_row (ob_id r) (claimed now) rows)"
  by (auto simp: claim_def delivery_of_def)

lemma worker_turn_row:
  assumes "next_row now rows = Some r" "has_endpoint eps r" "distinct (map ob_id rows)"
  shows "worker_turn null_error env eps answer now rows =
    map (\<lambda>x. if x = r then settled env eps answer now x else x) rows"
proof -
  obtain d where d: "delivery_of eps r = Some d" "d_id d = ob_id r"
    using has_endpoint_delivery [OF assms(2)] by metis
  have "ob_id x = ob_id r \<longleftrightarrow> x = r" if "x \<in> set rows" for x
    using that assms(3) next_row_Some [OF assms(1)] by (auto simp: distinct_map inj_on_def)
  then show ?thesis
    by (simp add: worker_turn_def claim_row [OF assms(1) d(1)] deliver_def settled_def d update_row_def case_prod_beta)
qed

lemma fewer_due:
  assumes "r \<in> set rows" "eligible now r" "\<not> eligible now s"
  shows "length (filter (eligible now) (map (\<lambda>x. if x = r then s else x) rows)) < length (filter (eligible now) rows)"
  using assms
proof (induction rows)
  case (Cons x xs)
  have "length (filter (eligible now) (map (\<lambda>x. if x = r then s else x) xs)) \<le> length (filter (eligible now) xs)"
    using Cons.prems(3) by (induction xs) auto
  then show ?case using Cons by (cases "x = r") auto
qed simp

text \<open>
  The loop of \<open>run\<close> up to the moment it waits: for want of a due row, or after an error of the
  database. The clock stands still meanwhile, so that the loop has nothing but its own effects to
  end by.
\<close>

partial_function (option) drain ::
  "ustr \<Rightarrow> 'k worker_env \<Rightarrow> endpoint list \<Rightarrow> (request \<Rightarrow> response) \<Rightarrow> int \<Rightarrow> outbox_row list \<Rightarrow> outbox_row list option" where
  "drain null_error env eps answer now rows =
     (case claim null_error eps now rows of
        (r, rows') \<Rightarrow>
          (case r of
             Inr (Some d) \<Rightarrow> drain null_error env eps answer now (snd (deliver env answer now d rows'))
           | _ \<Rightarrow> Some rows'))"

lemma drain_idle: "next_row now rows = None \<Longrightarrow> drain null_error env eps answer now rows = Some rows"
  by (subst drain.simps) (simp add: claim_def)

lemma drain_turn:
  assumes "next_row now rows = Some r" "has_endpoint eps r"
  shows "drain null_error env eps answer now rows =
    drain null_error env eps answer now (worker_turn null_error env eps answer now rows)"
proof -
  obtain d where "delivery_of eps r = Some d" using has_endpoint_delivery [OF assms(2)] by metis
  then show ?thesis by (subst drain.simps) (simp add: claim_row [OF assms(1)] worker_turn_def)
qed


definition sample_worker :: "unit worker_env" where
  "sample_worker =
     \<lparr>parse_url = (\<lambda>u. Inr \<lparr>u_scheme = lit ''https'', u_host = Some u, u_port = None\<rparr>),
      resolver = (\<lambda>host port. Inr [V4 127 0 0 1, V4 9 9 9 9]), build_error = (\<lambda>host pins. None),
      webhook_key = None, decrypt = (\<lambda>k s. Inr s), hmac64 = (\<lambda>k m. m), status_phrase = (\<lambda>c. [])\<rparr>"

definition sample_endpoints :: "endpoint list" where
  "sample_endpoints =
     map (\<lambda>(i, url). \<lparr>ep_id = i, ep_project = 1, ep_kind = lit ''discord'', ep_url = lit url, ep_secret = None,
       ep_secret_encrypted = 0, ep_enabled = 1\<rparr>) [(1, ''down''), (2, ''up'')]"

definition queued :: "int \<Rightarrow> int \<Rightarrow> outbox_row" where
  "queued i e = \<lparr>ob_id = i, ob_endpoint = e, ob_event_type = [], ob_payload = [], ob_attempts = 0,
     ob_available = 0, ob_locked = None, ob_delivered = None, ob_error = None\<rparr>"

definition only_up :: "request \<Rightarrow> response" where
  "only_up rq = (if rq_url rq = lit ''up'' then Status 204 else Status 500)"

lemma short_error: "slice_bytes 1000 (lit ''HTTP '') = lit ''HTTP ''"
  by (rule slice_bytes_all) (simp add: lit_def utf8_char_def)

lemma sample_settled:
  "settled sample_worker sample_endpoints only_up 100 (queued 1 1) =
     (queued 1 1)\<lparr>ob_attempts := 1, ob_available := 110, ob_error := Some (lit ''HTTP '')\<rparr>"
  "settled sample_worker sample_endpoints only_up 100 (queued 2 2) =
     (queued 2 2)\<lparr>ob_attempts := 1, ob_delivered := Some 100\<rparr>"
  by (simp_all add: settled_def delivery_of_def sample_endpoints_def settle_delivery_def prepare_def pinned_client_def
      signature_def sample_worker_def resolve_allowed_with_def is_allowed_v4_def only_up_def queued_def
      claimed_def failed_def delivered_def retry_delay_def truncate_slice short_error)


subsection \<open>Runs\<close>

text \<open>
  The single worker between claim and result, with a record of its claims (row, time, number of the
  attempt). A claim whose result is never recorded, by a crash or an error of the database, is
  abandoned; requests queue rows and operators remove endpoints at any time.
\<close>

record worker =
  w_clock :: int
  w_eps :: "endpoint list"
  w_rows :: "outbox_row list"
  w_seq :: int
  w_busy :: "delivery option"
  w_claims :: "(int \<times> int \<times> int) list"

definition fresh_row :: "int \<Rightarrow> int \<Rightarrow> outbox_row \<Rightarrow> bool" where
  "fresh_row seq now r \<longleftrightarrow>
     ob_id r = seq \<and> ob_attempts r = 0 \<and> ob_available r = now \<and> ob_locked r = None \<and> ob_delivered r = None"

inductive worker_step :: "ustr \<Rightarrow> 'k worker_env \<Rightarrow> worker \<Rightarrow> worker \<Rightarrow> bool" for null_error env where
  wait: "w_clock w \<le> t \<Longrightarrow> worker_step null_error env w (w\<lparr>w_clock := t\<rparr>)"
| take: "w_busy w = None \<Longrightarrow> claim null_error (w_eps w) (w_clock w) (w_rows w) = (Inr (Some d), rows) \<Longrightarrow>
    worker_step null_error env w
      (w\<lparr>w_rows := rows, w_busy := Some d, w_claims := w_claims w @ [(d_id d, w_clock w, d_attempts d)]\<rparr>)"
| broken: "w_busy w = None \<Longrightarrow> claim null_error (w_eps w) (w_clock w) (w_rows w) = (Inl e, rows) \<Longrightarrow>
    worker_step null_error env w (w\<lparr>w_rows := rows\<rparr>)"
| finish: "w_busy w = Some d \<Longrightarrow> deliver env answer (w_clock w) d (w_rows w) = (rq, rows) \<Longrightarrow>
    worker_step null_error env w (w\<lparr>w_rows := rows, w_busy := None\<rparr>)"
| abandon: "worker_step null_error env w (w\<lparr>w_busy := None\<rparr>)"
| enqueue: "fresh_row (w_seq w) (w_clock w) r \<Longrightarrow> ob_endpoint r \<in> ep_id ` set (w_eps w) \<Longrightarrow>
    worker_step null_error env w (w\<lparr>w_rows := w_rows w @ [r], w_seq := w_seq w + 1\<rparr>)"
| add_endpoint: "ep_id e \<notin> ep_id ` set (w_eps w) \<Longrightarrow>
    worker_step null_error env w (w\<lparr>w_eps := w_eps w @ [e]\<rparr>)"
| drop_endpoint: "worker_step null_error env w
    (w\<lparr>w_eps := filter (\<lambda>e. ep_id e \<noteq> i) (w_eps w), w_rows := filter (\<lambda>r. ob_endpoint r \<noteq> i) (w_rows w)\<rparr>)"

definition empty_worker :: worker where
  "empty_worker = \<lparr>w_clock = 0, w_eps = [], w_rows = [], w_seq = 1, w_busy = None, w_claims = []\<rparr>"

definition claims_of :: "int \<Rightarrow> (int \<times> int \<times> int) list \<Rightarrow> (int \<times> int) list" where
  "claims_of i cs = map snd (filter (\<lambda>c. fst c = i) cs)"

text \<open>Attempts are numbered from one, and each waits for the lease or the delay of the one before.\<close>

fun spaced_from :: "int \<Rightarrow> (int \<times> int) list \<Rightarrow> bool" where
  "spaced_from n [] = True"
| "spaced_from n [(t, k)] = (k = n)"
| "spaced_from n ((t, k) # (t', k') # cs) =
     (k = n \<and> t + min 61 (retry_delay k) \<le> t' \<and> spaced_from (n + 1) ((t', k') # cs))"

lemma spaced_from_snoc:
  "spaced_from n (cs @ [(t, k)]) \<longleftrightarrow> spaced_from n cs \<and> k = n + int (length cs) \<and>
     (cs = [] \<or> fst (last cs) + min 61 (retry_delay (snd (last cs))) \<le> t)"
  by (induction n cs rule: spaced_from.induct) (auto simp: algebra_simps)

lemma claims_of_snoc:
  "claims_of i (cs @ [(j, t, k)]) = (if i = j then claims_of i cs @ [(t, k)] else claims_of i cs)"
  by (simp add: claims_of_def)

text \<open>What a row remembers of its claims; \<open>n\<close> is the next number of a row.\<close>

definition row_ok :: "int \<Rightarrow> endpoint list \<Rightarrow> (int \<times> int \<times> int) list \<Rightarrow> outbox_row \<Rightarrow> bool" where
  "row_ok n eps claims r \<longleftrightarrow>
     (let cs = claims_of (ob_id r) claims in
      ob_id r < n \<and> ob_endpoint r \<in> ep_id ` set eps \<and> ob_attempts r = int (length cs) \<and>
      (ob_delivered r = None \<longrightarrow>
         (if cs = [] then ob_locked r = None
          else ob_locked r = Some (fst (last cs)) \<or>
            ob_locked r = None \<and> fst (last cs) + retry_delay (snd (last cs)) \<le> ob_available r)))"

definition claims_ok :: "int \<Rightarrow> int \<Rightarrow> (int \<times> int \<times> int) list \<Rightarrow> bool" where
  "claims_ok n now claims \<longleftrightarrow>
     (\<forall>c \<in> set claims. fst c < n \<and> fst (snd c) \<le> now) \<and> (\<forall>i. spaced_from 1 (claims_of i claims))"

definition busy_ok :: "(int \<times> int \<times> int) list \<Rightarrow> delivery option \<Rightarrow> bool" where
  "busy_ok claims busy \<longleftrightarrow>
     (\<forall>d. busy = Some d \<longrightarrow> claims_of (d_id d) claims \<noteq> [] \<and> snd (last (claims_of (d_id d) claims)) = d_attempts d)"

definition worker_ok :: "worker \<Rightarrow> bool" where
  "worker_ok w \<longleftrightarrow>
     distinct (map ob_id (w_rows w)) \<and> list_all (row_ok (w_seq w) (w_eps w) (w_claims w)) (w_rows w) \<and>
     claims_ok (w_seq w) (w_clock w) (w_claims w) \<and> busy_ok (w_claims w) (w_busy w)"

lemma last_claim_time:
  assumes "claims_ok n now claims" "claims_of i claims \<noteq> []"
  shows "fst (last (claims_of i claims)) \<le> now"
proof -
  have "last (claims_of i claims) \<in> set (claims_of i claims)" using assms(2) by simp
  then show ?thesis using assms(1) by (auto simp: claims_of_def claims_ok_def)
qed

lemma list_all_update:
  "(\<And>r. r \<in> set rows \<Longrightarrow> P (if ob_id r = i then f r else r)) \<Longrightarrow> list_all P (update_row i f rows)"
  unfolding update_row_def list_all_iff by (metis (no_types, lifting) imageE list.set_map)

lemma map_id_update: "(\<And>r. ob_id (f r) = ob_id r) \<Longrightarrow> map ob_id (update_row i f rows) = map ob_id rows"
  by (simp add: update_row_def)

lemma claim_Some:
  assumes "claim null_error eps now rows = (Inr (Some d), rows')"
  obtains r where "next_row now rows = Some r" "d_id d = ob_id r" "d_attempts d = ob_attempts r + 1"
    "rows' = update_row (ob_id r) (claimed now) rows"
  using assms that by (auto simp: claim_def split: option.splits)

lemma take_ok:
  assumes ok: "worker_ok w" and c: "claim null_error (w_eps w) (w_clock w) (w_rows w) = (Inr (Some d), rows)"
  shows "worker_ok (w\<lparr>w_rows := rows, w_busy := Some d, w_claims := w_claims w @ [(d_id d, w_clock w, d_attempts d)]\<rparr>)"
    (is "worker_ok ?w")
proof -
  obtain r where r: "next_row (w_clock w) (w_rows w) = Some r" "d_id d = ob_id r" "d_attempts d = ob_attempts r + 1"
    "rows = update_row (ob_id r) (claimed (w_clock w)) (w_rows w)" by (rule claim_Some [OF c])
  have el: "r \<in> set (w_rows w)" "eligible (w_clock w) r" using next_row_Some [OF r(1)] by auto
  then have row: "row_ok (w_seq w) (w_eps w) (w_claims w) r" using ok by (simp add: worker_ok_def list_all_iff)
  let ?cs = "claims_of (ob_id r) (w_claims w)"
  have att: "ob_attempts r = int (length ?cs)" using row by (simp add: row_ok_def Let_def)
  have gap: "?cs = [] \<or> fst (last ?cs) + min 61 (retry_delay (snd (last ?cs))) \<le> w_clock w"
    using row el(2) by (cases "ob_locked r") (auto simp: row_ok_def eligible_def Let_def split: if_splits)
  let ?claims = "w_claims w @ [(d_id d, w_clock w, d_attempts d)]"
  have "claims_ok (w_seq w) (w_clock w) ?claims"
    using ok row att gap unfolding claims_ok_def worker_ok_def
    by (auto simp: claims_of_snoc spaced_from_snoc r row_ok_def Let_def)
  moreover have "row_ok (w_seq w) (w_eps w) ?claims (if ob_id x = ob_id r then claimed (w_clock w) x else x)" if "x \<in> set (w_rows w)" for x
  proof -
    have "row_ok (w_seq w) (w_eps w) (w_claims w) x" using ok that by (simp add: worker_ok_def list_all_iff)
    then show ?thesis by (auto simp: row_ok_def Let_def claims_of_snoc r claimed_def)
  qed
  ultimately show ?thesis
    using ok by (simp add: worker_ok_def r(4) list_all_update map_id_update busy_ok_def claims_of_snoc r(2))
qed

lemma settle_row:
  assumes "row_ok n eps claims r" "claims_ok n now claims" "claims_of (ob_id r) claims \<noteq> []"
    and "snd (last (claims_of (ob_id r) claims)) = d_attempts d"
  shows "row_ok n eps claims (snd (settle_delivery env answer now d) r)"
  using assms last_claim_time [OF assms(2,3)]
  by (auto simp: row_ok_def Let_def settle_delivery_def failed_def delivered_def split: sum.split response.split)

lemma finish_ok:
  assumes ok: "worker_ok w" and d: "w_busy w = Some d" and r: "deliver env answer (w_clock w) d (w_rows w) = (rq, rows)"
  shows "worker_ok (w\<lparr>w_rows := rows, w_busy := None\<rparr>)"
proof -
  let ?f = "snd (settle_delivery env answer (w_clock w) d)" and ?row = "row_ok (w_seq w) (w_eps w) (w_claims w)"
  have rows: "rows = update_row (d_id d) ?f (w_rows w)" using r by (auto simp: deliver_def case_prod_beta)
  have "?row (if ob_id x = d_id d then ?f x else x)" if x: "x \<in> set (w_rows w)" for x
  proof -
    have "?row x" using ok x by (simp add: worker_ok_def list_all_iff)
    then show ?thesis using ok d settle_row [of "w_seq w" "w_eps w" "w_claims w" x "w_clock w" d env answer]
      by (simp add: worker_ok_def busy_ok_def)
  qed
  then have "list_all ?row rows" by (simp add: rows list_all_update)
  then show ?thesis using ok by (simp add: worker_ok_def rows map_id_update busy_ok_def)
qed

lemma no_broken_claim:
  assumes "worker_ok w"
  shows "claim null_error (w_eps w) (w_clock w) (w_rows w) \<noteq> (Inl e, rows)"
proof
  assume c: "claim null_error (w_eps w) (w_clock w) (w_rows w) = (Inl e, rows)"
  then obtain r where r: "next_row (w_clock w) (w_rows w) = Some r"
    and none: "find (\<lambda>e. ep_id e = ob_endpoint r) (w_eps w) = None"
    by (auto simp: claim_def split: option.splits)
  have "row_ok (w_seq w) (w_eps w) (w_claims w) r"
    using next_row_Some [OF r] assms by (simp add: worker_ok_def list_all_iff)
  then have "ob_endpoint r \<in> ep_id ` set (w_eps w)" by (simp add: row_ok_def Let_def)
  with none show False by (auto simp: find_None_iff)
qed

lemma old_claims: "claims_ok n now claims \<Longrightarrow> claims_of n claims = []"
  by (auto simp: claims_ok_def claims_of_def filter_empty_conv)

lemma row_ok_mono:
  "row_ok n eps claims r \<Longrightarrow> n \<le> m \<Longrightarrow> ep_id ` set eps \<subseteq> ep_id ` set fs \<Longrightarrow> row_ok m fs claims r"
  by (auto simp: row_ok_def Let_def)

lemma claims_ok_mono: "claims_ok n now claims \<Longrightarrow> n \<le> m \<Longrightarrow> now \<le> t \<Longrightarrow> claims_ok m t claims"
  by (force simp: claims_ok_def)

lemma worker_step_ok: "worker_step null_error env w v \<Longrightarrow> worker_ok w \<Longrightarrow> worker_ok v"
proof (induction rule: worker_step.induct)
  case (wait w t)
  then show ?case by (auto simp: worker_ok_def intro: claims_ok_mono)
next
  case (take w d rows)
  then show ?case by (blast intro: take_ok)
next
  case (broken w e rows)
  then show ?case by (simp add: no_broken_claim)
next
  case (finish w d answer rq rows)
  then show ?case by (blast intro: finish_ok)
next
  case (abandon w)
  then show ?case by (simp add: worker_ok_def busy_ok_def)
next
  case (enqueue w r)
  have r: "ob_id r = w_seq w" "row_ok (w_seq w + 1) (w_eps w) (w_claims w) r"
    using enqueue old_claims [of "w_seq w" "w_clock w" "w_claims w"]
    by (simp_all add: worker_ok_def fresh_row_def row_ok_def)
  have "\<forall>x \<in> set (w_rows w). ob_id x \<noteq> w_seq w"
    using enqueue.prems by (auto simp: worker_ok_def list_all_iff row_ok_def Let_def)
  then have "distinct (map ob_id (w_rows w @ [r]))" using enqueue.prems r(1) by (auto simp: worker_ok_def)
  moreover have "list_all (row_ok (w_seq w + 1) (w_eps w) (w_claims w)) (w_rows w)"
    using enqueue.prems by (auto simp: worker_ok_def list_all_iff intro: row_ok_mono)
  ultimately show ?case using enqueue.prems r by (auto simp: worker_ok_def intro: claims_ok_mono)
next
  case (add_endpoint e w)
  have "list_all (row_ok (w_seq w) (w_eps w @ [e]) (w_claims w)) (w_rows w)"
    using add_endpoint.prems by (auto simp: worker_ok_def list_all_iff intro: row_ok_mono)
  then show ?case using add_endpoint.prems by (simp add: worker_ok_def)
next
  case (drop_endpoint w i)
  have "row_ok (w_seq w) (filter (\<lambda>e. ep_id e \<noteq> i) (w_eps w)) (w_claims w) r"
    if "r \<in> set (w_rows w)" "ob_endpoint r \<noteq> i" for r
  proof -
    have "row_ok (w_seq w) (w_eps w) (w_claims w) r"
      using drop_endpoint that(1) by (simp add: worker_ok_def list_all_iff)
    then show ?thesis using that(2) by (auto simp: row_ok_def Let_def)
  qed
  then show ?case using drop_endpoint by (simp add: worker_ok_def list_all_iff distinct_map inj_on_def)
qed

abbreviation worker_reach :: "ustr \<Rightarrow> 'k worker_env \<Rightarrow> worker \<Rightarrow> worker \<Rightarrow> bool" where
  "worker_reach null_error env \<equiv> (worker_step null_error env)\<^sup>*\<^sup>*"

interpretation workers: machine "worker_step null_error env" worker_ok
  by unfold_locales (rule worker_step_ok)

lemmas worker_reach_ok = workers.runs

lemma empty_worker_ok: "worker_ok empty_worker"
  by (simp add: worker_ok_def empty_worker_def claims_ok_def busy_ok_def claims_of_def)


definition settled_id :: "int \<Rightarrow> worker \<Rightarrow> bool" where
  "settled_id i w \<longleftrightarrow> i < w_seq w \<and> (\<forall>r \<in> set (w_rows w). ob_id r = i \<longrightarrow> ob_delivered r \<noteq> None)"

lemma settle_delivered:
  "\<exists>t. ob_delivered r = Some t \<Longrightarrow> \<exists>t. ob_delivered (snd (settle_delivery env answer now d) r) = Some t"
  by (auto simp: settle_delivery_def failed_def delivered_def split: sum.split response.split)

lemma settled_step:
  "worker_step null_error env w v \<Longrightarrow> settled_id i w \<Longrightarrow>
   settled_id i v \<and> claims_of i (w_claims v) = claims_of i (w_claims w)"
proof (induction rule: worker_step.induct)
  case (take w d rows)
  obtain r where r: "next_row (w_clock w) (w_rows w) = Some r" "d_id d = ob_id r"
    "rows = update_row (ob_id r) (claimed (w_clock w)) (w_rows w)" by (rule claim_Some [OF take.hyps(2)])
  have "ob_id r \<noteq> i" using next_row_Some [OF r(1)] take.prems by (auto simp: settled_id_def eligible_def)
  then show ?case using take.prems
    by (auto simp: settled_id_def r(2,3) claims_of_snoc update_row_def)
next
  case (broken w e rows)
  then show ?case by (auto simp: claim_def settled_id_def update_row_def claimed_def split: option.splits)
next
  case (finish w d answer rq rows)
  then show ?case by (auto simp: deliver_def case_prod_beta settled_id_def update_row_def settle_delivered)
qed (auto simp: settled_id_def fresh_row_def)

text \<open>C32:
  A row recorded as delivered stays delivered and is never claimed again, whatever happens
  afterwards.
\<close>

lemma delivered_final:
  assumes "worker_reach null_error env empty_worker w" "worker_reach null_error env w v"
    and "r \<in> set (w_rows w)" "ob_delivered r \<noteq> None"
  shows "claims_of (ob_id r) (w_claims v) = claims_of (ob_id r) (w_claims w) \<and>
    (\<forall>x \<in> set (w_rows v). ob_id x = ob_id r \<longrightarrow> ob_delivered x \<noteq> None)"
proof -
  have ok: "worker_ok w" by (rule worker_reach_ok [OF assms(1) empty_worker_ok])
  have "x = r" if "x \<in> set (w_rows w)" "ob_id x = ob_id r" for x
    using ok that assms(3) by (auto simp: worker_ok_def distinct_map inj_on_def)
  then have "settled_id (ob_id r) w"
    using ok assms(3,4) by (auto simp: settled_id_def worker_ok_def list_all_iff row_ok_def Let_def)
  from assms(2) this have "settled_id (ob_id r) v \<and> claims_of (ob_id r) (w_claims v) = claims_of (ob_id r) (w_claims w)"
    by (induction rule: rtranclp_induct) (auto dest: settled_step)
  then show ?thesis by (auto simp: settled_id_def)
qed

text \<open>C31:
  Every request the worker sends goes to the URL of its endpoint, carries the queued payload, is
  pinned to addresses that came from the resolver and may be contacted, and is signed exactly when
  the endpoint is a webhook with a secret.
\<close>

lemma requests_confined:
  assumes "prepare env d = Inr rq"
  shows "rq_url rq = d_url d \<and> rq_body rq = d_payload d \<and> rq_pins rq \<noteq> [] \<and>
    list_all (\<lambda>(a, port). is_allowed_destination a) (rq_pins rq) \<and>
    (\<exists>host port ips. resolver env host port = Inr ips \<and> map fst (rq_pins rq) = filter is_allowed_destination ips) \<and>
    (lit ''x-zbierak-signature'' \<in> fst ` set (rq_headers rq) \<longleftrightarrow> d_kind d = lit ''webhook'' \<and> d_secret d \<noteq> None)"
proof -
  obtain pins headers where p: "pinned_client env (d_url d) = Inr pins" and h: "signature env d = Inr headers"
    and rq: "rq = \<lparr>rq_url = d_url d, rq_pins = pins,
      rq_headers = (lit ''content-type'', lit ''application/json'') # headers, rq_body = d_payload d\<rparr>"
    using assms by (auto simp: prepare_def split: sum.splits)
  obtain host port where "resolve_allowed_with (resolver env) host port = Inr pins"
    using p by (auto simp: pinned_client_def Let_def split: sum.splits option.splits if_splits)
  then obtain ips where ips: "resolver env host port = Inr ips" "pins \<noteq> []"
    "pins = map (\<lambda>a. (a, port)) (filter is_allowed_destination ips)"
    by (auto simp: resolve_allowed_with_def Let_def split: sum.splits if_splits)
  have "lit ''x-zbierak-signature'' \<in> fst ` set headers \<longleftrightarrow> d_kind d = lit ''webhook'' \<and> d_secret d \<noteq> None"
    using h by (auto simp: signature_def split: option.splits sum.splits bool.splits)
  moreover have "resolver env host port = Inr ips \<and> map fst pins = filter is_allowed_destination ips"
    by (simp add: ips(1,3) comp_def)
  moreover have "list_all (\<lambda>(a, port). is_allowed_destination a) pins" by (auto simp: ips(3) list_all_iff)
  ultimately show ?thesis using ips(2) unfolding rq by (simp, blast)
qed

subsection \<open>A run\<close>

definition up_endpoint :: endpoint where
  "up_endpoint = \<lparr>ep_id = 2, ep_project = 1, ep_kind = lit ''discord'', ep_url = lit ''up'', ep_secret = None,
     ep_secret_encrypted = 0, ep_enabled = 1\<rparr>"

definition up_delivery :: "int \<Rightarrow> delivery" where
  "up_delivery k = \<lparr>d_id = 1, d_payload = [], d_attempts = k, d_kind = lit ''discord'', d_url = lit ''up'',
     d_secret = None, d_secret_encrypted = 0\<rparr>"

definition run_state :: "int \<Rightarrow> outbox_row \<Rightarrow> delivery option \<Rightarrow> (int \<times> int \<times> int) list \<Rightarrow> worker" where
  "run_state now r busy claims = \<lparr>w_clock = now, w_eps = [up_endpoint], w_rows = [r], w_seq = 2, w_busy = busy, w_claims = claims\<rparr>"

lemma run_start: "worker_reach [] sample_worker empty_worker (run_state 0 (queued 1 2) None [])"
proof -
  let ?w = "empty_worker\<lparr>w_eps := [up_endpoint]\<rparr>"
  have "worker_step [] sample_worker empty_worker ?w"
    using worker_step.add_endpoint [of up_endpoint empty_worker "[]" sample_worker] by (simp add: empty_worker_def)
  moreover have "worker_step [] sample_worker ?w (run_state 0 (queued 1 2) None [])"
    using worker_step.enqueue [of ?w "queued 1 2" "[]" sample_worker]
    by (simp add: empty_worker_def fresh_row_def queued_def up_endpoint_def run_state_def)
  ultimately show ?thesis by auto
qed

lemma run_take:
  assumes "eligible now r" "ob_id r = 1" "ob_endpoint r = 2" "ob_payload r = []"
  shows "worker_step [] sample_worker (run_state now r None claims)
    (run_state now (claimed now r) (Some (up_delivery (ob_attempts r + 1))) (claims @ [(1, now, ob_attempts r + 1)]))"
proof -
  have "claim [] [up_endpoint] now [r] = (Inr (Some (up_delivery (ob_attempts r + 1))), [claimed now r])"
    using assms by (simp add: claim_def next_row_def up_endpoint_def up_delivery_def update_row_def)
  then show ?thesis
    using worker_step.take [of "run_state now r None claims" "[]" "up_delivery (ob_attempts r + 1)" "[claimed now r]" sample_worker]
    by (simp add: run_state_def up_delivery_def)
qed


lemma delivered_final_witness:
  "\<exists>w r. r \<in> set (w_rows w) \<and> ob_delivered r = Some 0 \<and>
     (\<forall>v. \<not> worker_reach [] sample_worker w v \<or> claims_of 1 (w_claims v) = [(0, 1)])"
proof -
  let ?r = "claimed 0 (queued 1 2)" and ?c = "[(1, 0, 1)]"
  let ?w = "run_state 0 (delivered 0 ?r) None ?c"
  have "worker_step [] sample_worker (run_state 0 (queued 1 2) None []) (run_state 0 ?r (Some (up_delivery 1)) ?c)"
    using run_take [of 0 "queued 1 2" "[]"] by (simp add: queued_def eligible_def)
  moreover have "worker_step [] sample_worker (run_state 0 ?r (Some (up_delivery 1)) ?c) ?w"
  proof -
    have "snd (deliver sample_worker only_up 0 (up_delivery 1) [?r]) = [delivered 0 ?r]"
      by (simp add: deliver_def settle_delivery_def prepare_def pinned_client_def signature_def sample_worker_def
          resolve_allowed_with_def is_allowed_v4_def only_up_def up_delivery_def update_row_def queued_def claimed_def)
    then show ?thesis
      using worker_step.finish [of "run_state 0 ?r (Some (up_delivery 1)) ?c" "up_delivery 1" sample_worker only_up
          "fst (deliver sample_worker only_up 0 (up_delivery 1) [?r])" "[delivered 0 ?r]" "[]"]
      by (simp add: run_state_def) (metis prod.collapse)
  qed
  ultimately have reach: "worker_reach [] sample_worker empty_worker ?w" using run_start by auto
  have r: "delivered 0 ?r \<in> set (w_rows ?w)" "ob_delivered (delivered 0 ?r) = Some 0" "ob_id (delivered 0 ?r) = 1"
    by (simp_all add: run_state_def delivered_def claimed_def queued_def)
  have "claims_of 1 (w_claims v) = [(0, 1)]" if "worker_reach [] sample_worker ?w v" for v
    using delivered_final [OF reach that r(1)] r(2,3) by (simp add: run_state_def claims_of_def)
  then show ?thesis using r by blast
qed

lemma requests_confined_witness:
  "\<exists>rq. prepare sample_worker (up_delivery 1) = Inr rq \<and> list_all (\<lambda>(a, port). is_allowed_destination a) (rq_pins rq)"
proof -
  obtain rq where rq: "prepare sample_worker (up_delivery 1) = Inr rq"
    by (simp add: prepare_def pinned_client_def signature_def sample_worker_def resolve_allowed_with_def
        is_allowed_v4_def up_delivery_def)
  with requests_confined [OF rq] show ?thesis by blast
qed

end
