(* ===== verification/Ingest.thy ===== *)
theory Ingest
  imports Fingerprint Protocol Domain Tags Outbox
begin

text \<open>
  The tables around issues and the handlers that write them: \<open>ingest\<close>, \<open>set_issue_status\<close> and
  \<open>replace_issue_tags\<close> of \<open>src/handlers.rs\<close>, with the authentication of ingestion keys of
  \<open>src/auth.rs\<close>. A handler is one transaction: an error leaves the tables as they were. The JSON
  decoder, the digests, the clock, the fresh identifier of a stored event and the texts of database
  errors are parameters.
\<close>

subsection \<open>Tables\<close>

record issue_row =
  is_id :: int
  is_project :: int
  is_fingerprint :: ustr
  is_title :: ustr
  is_status :: issue_status
  is_count :: int
  is_first :: int
  is_last :: int

record raw_row =
  raw_id :: ustr
  raw_project :: int
  raw_key :: int
  raw_body :: "nat list"
  raw_producer :: ustr
  raw_hash :: "ustr option"

record event_row =
  ev_id :: ustr
  ev_project :: int
  ev_issue :: int
  ev_fingerprint :: ustr
  ev_payload :: ustr

datatype activity_kind =
    StatusChange issue_status issue_status
  | Regression ustr
  | TagsChange "ustr list" "ustr list"
  | CommentAdded int ustr
  | CommentEdited int
  | CommentDeleted int

record activity_row =
  ac_issue :: int
  ac_user :: "int option"
  ac_kind :: activity_kind
  ac_at :: int

record ingest_key =
  k_id :: int
  k_project :: int
  k_hash :: ustr
  k_revoked :: "int option"
  k_used :: "int option"

record store =
  projects :: "(int \<times> ustr) list"
  members :: "membership list"
  ingest_keys :: "ingest_key list"
  issues :: "issue_row list"
  issue_seq :: int
  raws :: "raw_row list"
  events :: "event_row list"
  issue_tags :: "(int \<times> ustr) list"
  activity :: "activity_row list"
  endpoints :: "endpoint list"
  outbox :: "outbox_row list"
  outbox_seq :: int

record notification =
  n_content :: ustr
  n_event :: ustr
  n_project :: ustr
  n_issue_id :: int
  n_event_id :: ustr
  n_fingerprint :: ustr
  n_title :: ustr
  n_issue_url :: "ustr option"

record 'n ingest_env =
  from_slice :: "nat list \<Rightarrow> ustr + 'n json"
  deserialize :: "'n json \<Rightarrow> ustr + 'n event"
  rfc3339 :: "ustr \<Rightarrow> int option"
  from_utf8 :: "nat list \<Rightarrow> ustr option"
  sha256_hex :: "nat list \<Rightarrow> ustr"
  blake3_hex :: "nat list \<Rightarrow> ustr"
  show_value :: "'n json \<Rightarrow> ustr"
  json_text :: "notification \<Rightarrow> ustr"
  public_url :: "ustr option"
  row_not_found :: ustr
  unique_violation :: ustr

subsection \<open>Authentication\<close>

fun split_once :: "nat \<Rightarrow> ustr \<Rightarrow> (ustr \<times> ustr) option" where
  "split_once c [] = None"
| "split_once c (x # xs) = (if x = c then Some ([], xs) else map_option (apfst (Cons x)) (split_once c xs))"

text \<open>The value of the \<open>Authorization\<close> header, if it is text.\<close>

definition bearer :: "ustr option \<Rightarrow> ustr app_result" where
  "bearer header =
     (case Option.bind header (split_once 32) of
        None \<Rightarrow> Inl Unauthorized
      | Some (scheme, credential) \<Rightarrow>
          if map ascii_lower scheme \<noteq> lit ''bearer'' then Inl Unauthorized
          else if rs_trim credential = [] then Inl Unauthorized
          else Inr (rs_trim credential))"

definition ingest_key_project ::
  "'n ingest_env \<Rightarrow> store \<Rightarrow> ustr option \<Rightarrow> ustr \<Rightarrow> (int \<times> int) app_result" where
  "ingest_key_project env st header slug =
     and_then (bearer header) (\<lambda>b.
       (case find (\<lambda>k. k_hash k = sha256_hex env (utf8 b) \<and> k_revoked k = None \<and>
               list_ex (\<lambda>p. fst p = k_project k \<and> same_slug (snd p) slug) (projects st)) (ingest_keys st) of
          None \<Rightarrow> Inl Unauthorized
        | Some k \<Rightarrow> Inr (k_id k, k_project k)))"

subsection \<open>Ingestion\<close>

definition decode_event :: "'n ingest_env \<Rightarrow> nat list \<Rightarrow> ('n json \<times> 'n event \<times> ustr) app_result" where
  "decode_event env body =
     (case from_slice env body of
        Inl e \<Rightarrow> Inl (BadRequest (lit ''invalid JSON: '' @ e))
      | Inr v \<Rightarrow>
          (case deserialize env v of
             Inl e \<Rightarrow> Inl (BadRequest (lit ''invalid event: '' @ e))
           | Inr ev \<Rightarrow>
               (case validate (rfc3339 env) ev of
                  Inl (field, m) \<Rightarrow> Inl (Unprocessable (Some field) m)
                | Inr _ \<Rightarrow>
                    (case from_utf8 env body of
                       None \<Rightarrow> Inl (BadRequest (lit ''event body must be UTF-8 JSON''))
                     | Some payload \<Rightarrow> Inr (v, ev, payload)))))"

definition touch_key :: "int \<Rightarrow> int \<Rightarrow> store \<Rightarrow> store" where
  "touch_key now k st =
     st\<lparr>ingest_keys := map (\<lambda>x. if k_id x = k then x\<lparr>k_used := Some now\<rparr> else x) (ingest_keys st)\<rparr>"

record ingest_response =
  rs_id :: ustr
  rs_issue :: int
  rs_fingerprint :: ustr
  rs_duplicate :: bool

text \<open>The join of the stored event with its raw row.\<close>

definition stored_event :: "store \<Rightarrow> int \<Rightarrow> ustr \<Rightarrow> (raw_row \<times> event_row) option" where
  "stored_event st project producer =
     find (\<lambda>(r, e). raw_project r = project \<and> raw_producer r = producer \<and> ev_id e = raw_id r)
       (List.product (raws st) (events st))"

definition known_event :: "store \<Rightarrow> int \<Rightarrow> ustr \<Rightarrow> bool" where
  "known_event st project producer \<longleftrightarrow> list_ex (\<lambda>r. raw_project r = project \<and> raw_producer r = producer) (raws st)"

definition duplicate_event ::
  "'n ingest_env \<Rightarrow> int \<Rightarrow> int \<Rightarrow> int \<Rightarrow> ustr \<Rightarrow> ustr \<Rightarrow> store \<Rightarrow> ingest_response app_result \<times> store" where
  "duplicate_event env now key project producer body_hash st =
     (case stored_event st project producer of
        None \<Rightarrow> (Inl (Database (row_not_found env)), st)
      | Some (r, e) \<Rightarrow>
          if (case raw_hash r of None \<Rightarrow> False | Some h \<Rightarrow> h \<noteq> body_hash)
          then (Inl (EventConflict producer), st)
          else (Inr \<lparr>rs_id = producer, rs_issue = ev_issue e, rs_fingerprint = ev_fingerprint e, rs_duplicate = True\<rparr>,
                touch_key now key st))"

text \<open>The issue of an event: found by project and fingerprint, or created.\<close>

definition bump_issue :: "int \<Rightarrow> issue_row \<Rightarrow> issue_row" where
  "bump_issue now i =
     i\<lparr>is_count := is_count i + 1, is_last := now,
       is_status := (if is_status i = Resolved then Unresolved else is_status i)\<rparr>"

definition find_issue :: "store \<Rightarrow> int \<Rightarrow> ustr \<Rightarrow> issue_row option" where
  "find_issue st project fp = find (\<lambda>i. is_project i = project \<and> is_fingerprint i = fp) (issues st)"

definition update_issue :: "int \<Rightarrow> (issue_row \<Rightarrow> issue_row) \<Rightarrow> issue_row list \<Rightarrow> issue_row list" where
  "update_issue i f xs = map (\<lambda>x. if is_id x = i then f x else x) xs"

definition group_event ::
  "int \<Rightarrow> int \<Rightarrow> ustr \<Rightarrow> ustr \<Rightarrow> ustr \<Rightarrow> store \<Rightarrow> (int \<times> ustr option) \<times> store" where
  "group_event now project fp title producer st =
     (case find_issue st project fp of
        Some i \<Rightarrow>
          (let regression = (is_status i = Resolved) in
           ((is_id i, if regression then Some (lit ''issue.regressed'') else None),
            st\<lparr>issues := update_issue (is_id i) (bump_issue now) (issues st),
              activity := (if regression
                 then activity st @ [\<lparr>ac_issue = is_id i, ac_user = None, ac_kind = Regression producer, ac_at = now\<rparr>]
                 else activity st)\<rparr>))
      | None \<Rightarrow>
          ((issue_seq st, Some (lit ''issue.created'')),
           st\<lparr>issues := issues st @ [\<lparr>is_id = issue_seq st, is_project = project, is_fingerprint = fp,
                is_title = title, is_status = Unresolved, is_count = 1, is_first = now, is_last = now\<rparr>],
             issue_seq := issue_seq st + 1\<rparr>))"

text \<open>The labels of an event: added while the issue has room.\<close>

fun add_labels :: "int \<Rightarrow> int \<Rightarrow> ustr list \<Rightarrow> (int \<times> ustr) list \<Rightarrow> (int \<times> ustr) list" where
  "add_labels i room [] tags = tags"
| "add_labels i room (l # ls) tags =
     (if room \<le> 0 then tags
      else if (i, l) \<in> set tags then add_labels i room ls tags
      else add_labels i (room - 1) ls (tags @ [(i, l)]))"

definition tags_of :: "int \<Rightarrow> (int \<times> ustr) list \<Rightarrow> ustr list" where
  "tags_of i tags = map snd (filter (\<lambda>t. fst t = i) tags)"

definition seed_tags :: "int \<Rightarrow> ustr list \<Rightarrow> store \<Rightarrow> store" where
  "seed_tags i labels st =
     (if labels = [] then st
      else st\<lparr>issue_tags :=
        add_labels i (int max_tags - int (length (tags_of i (issue_tags st)))) labels (issue_tags st)\<rparr>)"

definition issue_link :: "'n ingest_env \<Rightarrow> ustr \<Rightarrow> int \<Rightarrow> ustr option" where
  "issue_link env slug i =
     map_option (\<lambda>base. strip_end (\<lambda>c. c = 47) base @ lit ''/projects/'' @ slug @ lit ''/issues/'' @
       (if i < 0 then 45 # dec (nat (- i)) else dec (nat i))) (public_url env)"

definition notification_of ::
  "'n ingest_env \<Rightarrow> ustr \<Rightarrow> ustr \<Rightarrow> int \<Rightarrow> ustr \<Rightarrow> ustr \<Rightarrow> ustr \<Rightarrow> notification" where
  "notification_of env kind slug i producer fp title =
     (let link = issue_link env slug i in
      \<lparr>n_content =
         (if kind = lit ''issue.created'' then lit ''New issue'' else lit ''Issue regressed'') @
         lit '' in '' @ slug @ lit '': '' @ title @ (case link of None \<Rightarrow> [] | Some l \<Rightarrow> 10 # l),
       n_event = kind, n_project = slug, n_issue_id = i, n_event_id = producer, n_fingerprint = fp,
       n_title = title, n_issue_url = link\<rparr>)"

definition outbox_rows :: "int \<Rightarrow> int \<Rightarrow> ustr \<Rightarrow> ustr \<Rightarrow> endpoint list \<Rightarrow> outbox_row list" where
  "outbox_rows now seq kind payload eps =
     map (\<lambda>(n, e). \<lparr>ob_id = seq + int n, ob_endpoint = ep_id e, ob_event_type = kind, ob_payload = payload,
       ob_attempts = 0, ob_available = now, ob_locked = None, ob_delivered = None, ob_error = None\<rparr>)
       (enumerate 0 eps)"

definition listening :: "int \<Rightarrow> endpoint \<Rightarrow> bool" where
  "listening project e \<longleftrightarrow> ep_project e = project \<and> ep_enabled e = 1"

definition notify :: "int \<Rightarrow> int \<Rightarrow> ustr \<Rightarrow> ustr \<Rightarrow> store \<Rightarrow> store" where
  "notify now project kind payload st =
     (let eps = filter (listening project) (endpoints st) in
      st\<lparr>outbox := outbox st @ outbox_rows now (outbox_seq st) kind payload eps,
        outbox_seq := outbox_seq st + int (length eps)\<rparr>)"

definition store_event ::
  "'n ingest_env \<Rightarrow> int \<Rightarrow> ustr \<Rightarrow> int \<Rightarrow> int \<Rightarrow> ustr \<Rightarrow> nat list \<Rightarrow> 'n json \<times> 'n event \<times> ustr \<Rightarrow> store
     \<Rightarrow> ingest_response \<times> store" where
  "store_event env now uuid key project slug body = (\<lambda>(v, ev, payload) st.
     (let fp = event_fingerprint (blake3_hex env) (show_value env) v;
          title = take 200 (message ev);
          producer = event_id ev;
          st = st\<lparr>raws := raws st @ [\<lparr>raw_id = uuid, raw_project = project, raw_key = key, raw_body = body,
                 raw_producer = producer, raw_hash = Some (sha256_hex env body)\<rparr>]\<rparr>;
          ((i, kind), st) = group_event now project fp title producer st;
          st = seed_tags i (labels_from_event_tags (event_tags ev)) st;
          st = st\<lparr>events := events st @ [\<lparr>ev_id = uuid, ev_project = project, ev_issue = i,
                 ev_fingerprint = fp, ev_payload = payload\<rparr>]\<rparr>;
          st = touch_key now key st;
          st = (case kind of None \<Rightarrow> st
                | Some k \<Rightarrow> notify now project k (json_text env (notification_of env k slug i producer fp title)) st)
      in (\<lparr>rs_id = producer, rs_issue = i, rs_fingerprint = fp, rs_duplicate = False\<rparr>, st)))"

definition ingest ::
  "'n ingest_env \<Rightarrow> int \<Rightarrow> ustr \<Rightarrow> int \<Rightarrow> int \<Rightarrow> ustr \<Rightarrow> nat list \<Rightarrow> store \<Rightarrow> ingest_response app_result \<times> store" where
  "ingest env now uuid key project slug body st =
     (case decode_event env body of
        Inl e \<Rightarrow> (Inl e, st)
      | Inr (v, ev, payload) \<Rightarrow>
          if known_event st project (event_id ev)
          then duplicate_event env now key project (event_id ev) (sha256_hex env body) st
          else if list_ex (\<lambda>r. raw_id r = uuid) (raws st) then (Inl (Database (unique_violation env)), st)
          else apfst Inr (store_event env now uuid key project slug body (v, ev, payload) st))"

text \<open>The whole request: authentication first, then the body.\<close>

definition ingest_request ::
  "'n ingest_env \<Rightarrow> int \<Rightarrow> ustr \<Rightarrow> ustr option \<Rightarrow> ustr \<Rightarrow> nat list \<Rightarrow> store \<Rightarrow> ingest_response app_result \<times> store" where
  "ingest_request env now uuid header slug body st =
     (case ingest_key_project env st header slug of
        Inl e \<Rightarrow> (Inl e, st)
      | Inr (key, project) \<Rightarrow> ingest env now uuid key project slug body st)"

subsection \<open>Status and tags\<close>

definition set_issue_status ::
  "int \<Rightarrow> int \<Rightarrow> ustr \<Rightarrow> ustr \<Rightarrow> ustr \<Rightarrow> int \<Rightarrow> issue_status \<Rightarrow> store \<Rightarrow> unit app_result \<times> store" where
  "set_issue_status now user session_token slug supplied i wanted st =
     (case (if secure_eq session_token supplied
            then require_project_role (projects st) (members st) user slug Developer else Inl Forbidden) of
        Inl e \<Rightarrow> (Inl e, st)
      | Inr project \<Rightarrow>
          (case find (\<lambda>x. is_id x = i \<and> is_project x = project) (issues st) of
             None \<Rightarrow> (Inl NotFound, st)
           | Some x \<Rightarrow>
               (Inr (),
                if is_status x = wanted then st
                else st\<lparr>issues := map (\<lambda>y. if is_id y = i \<and> is_project y = project then y\<lparr>is_status := wanted\<rparr> else y) (issues st),
                  activity := activity st @
                    [\<lparr>ac_issue = i, ac_user = Some user, ac_kind = StatusChange (is_status x) wanted, ac_at = now\<rparr>]\<rparr>)))"

definition change_issue_status ::
  "int \<Rightarrow> int \<Rightarrow> ustr \<Rightarrow> ustr \<Rightarrow> ustr \<Rightarrow> int \<Rightarrow> ustr \<Rightarrow> store \<Rightarrow> unit app_result \<times> store" where
  "change_issue_status now user session_token slug supplied i wanted st =
     (case parse_status wanted of
        None \<Rightarrow> (Inl (BadRequest (lit ''invalid issue status'')), st)
      | Some s \<Rightarrow> set_issue_status now user session_token slug supplied i s st)"

definition stored_tags :: "int \<Rightarrow> store \<Rightarrow> ustr list" where
  "stored_tags i st = sort (tags_of i (issue_tags st))"

fun insert_tags :: "int \<Rightarrow> ustr list \<Rightarrow> (int \<times> ustr) list \<Rightarrow> (int \<times> ustr) list" where
  "insert_tags i [] tags = tags"
| "insert_tags i (l # ls) tags = insert_tags i ls (if (i, l) \<in> set tags then tags else tags @ [(i, l)])"

definition replace_issue_tags ::
  "int \<Rightarrow> int \<Rightarrow> int \<Rightarrow> int option \<Rightarrow> ustr list \<Rightarrow> store \<Rightarrow> ustr list app_result \<times> store" where
  "replace_issue_tags now project i user tags st =
     (if \<not> list_ex (\<lambda>x. is_id x = i \<and> is_project x = project) (issues st) then (Inl NotFound, st)
      else
        (let previous = stored_tags i st; canonical = sort tags in
         if canonical = previous then (Inr previous, st)
         else
           (let st = st\<lparr>issue_tags := insert_tags i tags (filter (\<lambda>t. fst t \<noteq> i) (issue_tags st)),
                  activity := activity st @ [\<lparr>ac_issue = i, ac_user = user, ac_kind = TagsChange previous canonical, ac_at = now\<rparr>]\<rparr>
            in (Inr (stored_tags i st), st))))"

definition update_issue_tags_form ::
  "int \<Rightarrow> int \<Rightarrow> ustr \<Rightarrow> ustr \<Rightarrow> ustr \<Rightarrow> int \<Rightarrow> ustr \<Rightarrow> store \<Rightarrow> ustr list app_result \<times> store" where
  "update_issue_tags_form now user session_token slug supplied i text st =
     (case (if secure_eq session_token supplied
            then require_project_role (projects st) (members st) user slug Developer else Inl Forbidden) of
        Inl e \<Rightarrow> (Inl e, st)
      | Inr project \<Rightarrow>
          (case normalize_comma_separated text of
             Inl m \<Rightarrow> (Inl (BadRequest m), st)
           | Inr tags \<Rightarrow> replace_issue_tags now project i (Some user) tags st))"

definition resolve_issue :: "int \<Rightarrow> int \<Rightarrow> ustr \<Rightarrow> ustr \<Rightarrow> ustr \<Rightarrow> int \<Rightarrow> store \<Rightarrow> unit app_result \<times> store" where
  "resolve_issue now user session_token slug supplied i = set_issue_status now user session_token slug supplied i Resolved"

definition reopen_issue :: "int \<Rightarrow> int \<Rightarrow> ustr \<Rightarrow> ustr \<Rightarrow> ustr \<Rightarrow> int \<Rightarrow> store \<Rightarrow> unit app_result \<times> store" where
  "reopen_issue now user session_token slug supplied i = set_issue_status now user session_token slug supplied i Unresolved"

text \<open>The same change of tags through the JSON interface, for the owner of a token.\<close>

definition update_issue_tags ::
  "int \<Rightarrow> int \<Rightarrow> ustr \<Rightarrow> int \<Rightarrow> ustr list \<Rightarrow> store \<Rightarrow> ustr list app_result \<times> store" where
  "update_issue_tags now user slug i payload st =
     (case require_project_role (projects st) (members st) user slug Developer of
        Inl e \<Rightarrow> (Inl e, st)
      | Inr project \<Rightarrow>
          (case normalize_tags payload of
             Inl m \<Rightarrow> (Inl (Unprocessable (Some (lit ''tags'')) m), st)
           | Inr tags \<Rightarrow> replace_issue_tags now project i (Some user) tags st))"

end
