(* ===== verification/Issues.thy ===== *)
theory Issues
  imports Ingest OutboxRun
begin

text \<open>
  What the tables of \<open>Ingest\<close> keep true over any sequence of requests: events and issues agree, a
  retried event is recognised for ever, and the worker's table only ever receives fresh rows.
\<close>

subsection \<open>The invariant\<close>

definition issues_ok :: "int \<Rightarrow> issue_row list \<Rightarrow> bool" where
  "issues_ok n xs \<longleftrightarrow>
     distinct (map is_id xs) \<and> distinct (map (\<lambda>i. (is_project i, is_fingerprint i)) xs) \<and> (\<forall>i \<in> set xs. is_id i < n)"

definition raws_ok :: "raw_row list \<Rightarrow> event_row list \<Rightarrow> bool" where
  "raws_ok rs es \<longleftrightarrow>
     distinct (map raw_id rs) \<and> distinct (map (\<lambda>r. (raw_project r, raw_producer r)) rs) \<and>
     map (\<lambda>e. (ev_id e, ev_project e)) es = map (\<lambda>r. (raw_id r, raw_project r)) rs"

definition grouped :: "issue_row list \<Rightarrow> event_row \<Rightarrow> bool" where
  "grouped xs e \<longleftrightarrow> (ev_issue e, ev_project e, ev_fingerprint e) \<in> (\<lambda>i. (is_id i, is_project i, is_fingerprint i)) ` set xs"

definition count_ok :: "event_row list \<Rightarrow> issue_row \<Rightarrow> bool" where
  "count_ok es i \<longleftrightarrow> is_count i = int (length (filter (\<lambda>e. ev_issue e = is_id i) es))"

definition tags_ok :: "int \<Rightarrow> (int \<times> ustr) list \<Rightarrow> bool" where
  "tags_ok n tags \<longleftrightarrow>
     distinct tags \<and> (\<forall>t \<in> set tags. fst t < n \<and> valid_tag (snd t)) \<and> (\<forall>i. length (tags_of i tags) \<le> max_tags)"

definition store_ok :: "store \<Rightarrow> bool" where
  "store_ok st \<longleftrightarrow>
     issues_ok (issue_seq st) (issues st) \<and> raws_ok (raws st) (events st) \<and>
     list_all (grouped (issues st)) (events st) \<and> list_all (count_ok (events st)) (issues st) \<and>
     tags_ok (issue_seq st) (issue_tags st)"

subsection \<open>Issues\<close>

lemma update_issue_keeps:
  "(\<And>i. f i = i\<lparr>is_count := g i, is_last := l i, is_status := s i\<rparr>) \<Longrightarrow>
   map (\<lambda>i. (is_id i, is_project i, is_fingerprint i)) (update_issue n f xs) =
   map (\<lambda>i. (is_id i, is_project i, is_fingerprint i)) xs"
  by (simp add: update_issue_def)

lemma bump_fields [simp]:
  "is_id (bump_issue now i) = is_id i" "is_project (bump_issue now i) = is_project i"
  "is_fingerprint (bump_issue now i) = is_fingerprint i" "is_count (bump_issue now i) = is_count i + 1"
  by (simp_all add: bump_issue_def)

lemma keys_bump: "map (\<lambda>i. (is_id i, is_project i, is_fingerprint i)) (update_issue n (bump_issue now) xs) =
   map (\<lambda>i. (is_id i, is_project i, is_fingerprint i)) xs"
  by (simp add: update_issue_def)

lemma issues_ok_keys:
  "issues_ok n xs \<longleftrightarrow>
     (let ks = map (\<lambda>i. (is_id i, is_project i, is_fingerprint i)) xs in
      distinct (map fst ks) \<and> distinct (map snd ks) \<and> (\<forall>k \<in> set ks. fst k < n))"
  by (simp add: issues_ok_def comp_def Let_def)

lemma grouped_keys:
  "grouped xs e \<longleftrightarrow>
     (ev_issue e, ev_project e, ev_fingerprint e) \<in> set (map (\<lambda>i. (is_id i, is_project i, is_fingerprint i)) xs)"
  by (simp add: grouped_def)

lemma find_issue_Some:
  "find_issue st project fp = Some i \<Longrightarrow> i \<in> set (issues st) \<and> is_project i = project \<and> is_fingerprint i = fp"
  by (auto simp: find_issue_def dest: find_SomeD)

lemma find_issue_None:
  "find_issue st project fp = None \<Longrightarrow> \<forall>i \<in> set (issues st). (is_project i, is_fingerprint i) \<noteq> (project, fp)"
  by (auto simp: find_issue_def find_None_iff)

text \<open>What \<open>group_event\<close> returns and keeps, with the event that is appended afterwards.\<close>

lemma group_event_ok:
  assumes "issues_ok (issue_seq st) (issues st)" "list_all (grouped (issues st)) (events st)"
    and "list_all (count_ok (events st)) (issues st)"
    and g: "group_event now project fp title producer st = ((i, kind), st')"
    and e: "ev_issue e = i" "ev_project e = project" "ev_fingerprint e = fp"
  shows "issues_ok (issue_seq st') (issues st')" and "list_all (grouped (issues st')) (events st @ [e])"
    and "list_all (count_ok (events st @ [e])) (issues st')"
    and "issue_seq st \<le> issue_seq st'" and "i < issue_seq st'"
proof -
  let ?k = "\<lambda>i. (is_id i, is_project i, is_fingerprint i)"
  have "issues_ok (issue_seq st') (issues st') \<and> list_all (grouped (issues st')) (events st @ [e]) \<and>
    list_all (count_ok (events st @ [e])) (issues st') \<and> issue_seq st \<le> issue_seq st' \<and> i < issue_seq st'"
  proof (cases "find_issue st project fp")
    case (Some x)
    then have x: "x \<in> set (issues st)" "is_project x = project" "is_fingerprint x = fp"
      using find_issue_Some by blast+
    have st': "i = is_id x" "issues st' = update_issue (is_id x) (bump_issue now) (issues st)" "issue_seq st' = issue_seq st"
      using g Some by (auto simp: group_event_def Let_def)
    have keys: "map ?k (issues st') = map ?k (issues st)" by (simp add: st' keys_bump)
    have "count_ok (events st @ [e]) (if is_id y = is_id x then bump_issue now y else y)"
      if "count_ok (events st) y" for y
      using that by (cases "is_id y = is_id x") (simp_all add: count_ok_def e(1) st'(1))
    then have "\<forall>y \<in> set (issues st). count_ok (events st @ [e]) (if is_id y = is_id x then bump_issue now y else y)"
      using assms(3) by (simp only: list_all_iff) simp
    then have "list_all (count_ok (events st @ [e])) (issues st')"
      unfolding st'(2) update_issue_def by (simp only: list_all_iff set_map ball_simps)
    moreover have "issues_ok (issue_seq st') (issues st')"
      using assms(1) unfolding issues_ok_keys keys by (simp add: st')
    moreover have "grouped (issues st') = grouped (issues st)" unfolding grouped_keys [abs_def] keys by (rule refl)
    moreover have "grouped (issues st) e" using x e by (force simp: grouped_def st'(1))
    moreover have "i < issue_seq st'" using assms(1) x(1) by (simp add: issues_ok_def st')
    ultimately show ?thesis using assms(2) by (simp add: st'(3))
  next
    case None
    then have st': "i = issue_seq st" "issue_seq st' = issue_seq st + 1"
      "issues st' = issues st @ [\<lparr>is_id = issue_seq st, is_project = project, is_fingerprint = fp,
         is_title = title, is_status = Unresolved, is_count = 1, is_first = now, is_last = now\<rparr>]"
      using g by (auto simp: group_event_def)
    have old: "is_id x < issue_seq st" if "x \<in> set (issues st)" for x
      using assms(1) that by (simp add: issues_ok_def)
    have "ev_issue x < issue_seq st" if "x \<in> set (events st)" for x
      using assms(2) old that by (auto simp: list_all_iff grouped_def)
    then have none: "filter (\<lambda>x. ev_issue x = issue_seq st) (events st) = []" by (force simp: filter_empty_conv)
    have "count_ok (events st @ [e]) y" if "y \<in> set (issues st)" for y
      using assms(3) old [OF that] that e(1) by (simp add: list_all_iff count_ok_def st'(1))
    then have "list_all (count_ok (events st @ [e])) (issues st')"
      using none e(1) by (simp add: st' list_all_iff count_ok_def)
    moreover have "issues_ok (issue_seq st') (issues st')"
      using assms(1) old find_issue_None [OF None] by (force simp: st' issues_ok_def)
    moreover have "list_all (grouped (issues st')) (events st @ [e])"
      using assms(2) e by (auto simp: st' list_all_iff grouped_def)
    ultimately show ?thesis by (simp add: st'(1,2))
  qed
  then show "issues_ok (issue_seq st') (issues st')" and "list_all (grouped (issues st')) (events st @ [e])"
    and "list_all (count_ok (events st @ [e])) (issues st')"
    and "issue_seq st \<le> issue_seq st'" and "i < issue_seq st'" by blast+
qed

subsection \<open>Events\<close>

lemma known_event_iff:
  "known_event st project producer \<longleftrightarrow> (project, producer) \<in> (\<lambda>r. (raw_project r, raw_producer r)) ` set (raws st)"
  by (auto simp: known_event_def list_ex_iff)

lemma stored_event_Some:
  "stored_event st project producer = Some (r, e) \<Longrightarrow>
   r \<in> set (raws st) \<and> e \<in> set (events st) \<and> raw_project r = project \<and> raw_producer r = producer \<and> ev_id e = raw_id r"
  by (auto simp: stored_event_def dest!: find_SomeD)

text \<open>Under the invariant the join has exactly one row.\<close>

lemma stored_event_eq:
  assumes "raws_ok (raws st) (events st)" "r \<in> set (raws st)" "e \<in> set (events st)" "ev_id e = raw_id r"
  shows "stored_event st (raw_project r) (raw_producer r) = Some (r, e)"
proof -
  have uniq: "r' = r \<and> e' = e"
    if "r' \<in> set (raws st)" "e' \<in> set (events st)" "raw_project r' = raw_project r" "raw_producer r' = raw_producer r"
      "ev_id e' = raw_id r'" for r' e'
  proof -
    have "r' = r" using assms(1,2) that by (auto simp: raws_ok_def distinct_map inj_on_def)
    moreover have "map ev_id (events st) = map raw_id (raws st)"
      using assms(1) by (metis (no_types, lifting) map_map comp_def fst_conv map_eq_conv raws_ok_def)
    then have "distinct (map ev_id (events st))" using assms(1) by (simp add: raws_ok_def)
    ultimately show ?thesis using assms(3,4) that by (auto simp: distinct_map inj_on_def)
  qed
  have "stored_event st (raw_project r) (raw_producer r) \<noteq> None"
    using assms by (auto simp: stored_event_def find_None_iff)
  then obtain r' e' where "stored_event st (raw_project r) (raw_producer r) = Some (r', e')" by fastforce
  then show ?thesis using stored_event_Some uniq by blast
qed

lemma known_event_stored:
  assumes "raws_ok (raws st) (events st)" "known_event st project producer"
  obtains r e where "stored_event st project producer = Some (r, e)"
proof -
  obtain r where r: "r \<in> set (raws st)" "raw_project r = project" "raw_producer r = producer"
    using assms(2) by (auto simp: known_event_iff)
  have "raw_id ` set (raws st) = ev_id ` set (events st)"
    using assms(1) unfolding raws_ok_def by (metis (no_types, lifting) image_image fst_conv image_cong list.set_map)
  then obtain e where "e \<in> set (events st)" "ev_id e = raw_id r" using r(1) by (metis imageE imageI)
  then show ?thesis using that stored_event_eq [OF assms(1) r(1)] r by blast
qed

lemma raws_ok_snoc:
  assumes "raws_ok rs es" "raw_id r \<notin> raw_id ` set rs"
    and "(raw_project r, raw_producer r) \<notin> (\<lambda>r. (raw_project r, raw_producer r)) ` set rs"
    and "ev_id e = raw_id r" "ev_project e = raw_project r"
  shows "raws_ok (rs @ [r]) (es @ [e])"
  using assms by (auto simp: raws_ok_def)

subsection \<open>Tags\<close>

lemma tags_of_simps [simp]:
  "tags_of i [] = []" "tags_of i (ts @ us) = tags_of i ts @ tags_of i us"
  "tags_of i ((j, l) # ts) = (if j = i then l # tags_of i ts else tags_of i ts)"
  by (simp_all add: tags_of_def)

lemma add_labels_distinct: "distinct tags \<Longrightarrow> distinct (add_labels i room ls tags)"
  by (induction i room ls tags rule: add_labels.induct) auto

lemma add_labels_set: "set (add_labels i room ls tags) \<subseteq> set tags \<union> Pair i ` set ls"
proof (induction i room ls tags rule: add_labels.induct)
  case (2 i room l ls tags)
  then show ?case by (cases "room \<le> 0"; cases "(i, l) \<in> set tags") auto
qed simp

lemma add_labels_others: "j \<noteq> i \<Longrightarrow> tags_of j (add_labels i room ls tags) = tags_of j tags"
  by (induction i room ls tags rule: add_labels.induct) simp_all

lemma add_labels_room:
  "int (length (tags_of i (add_labels i room ls tags))) \<le> int (length (tags_of i tags)) + max 0 room"
proof (induction i room ls tags rule: add_labels.induct)
  case (2 i room l ls tags)
  then show ?case by (cases "room \<le> 0"; cases "(i, l) \<in> set tags") simp_all
qed simp

lemma tags_ok_mono: "tags_ok n tags \<Longrightarrow> n \<le> m \<Longrightarrow> tags_ok m tags"
  by (force simp: tags_ok_def)

lemma seed_tags_ok:
  assumes "tags_ok n (issue_tags st)" "list_all valid_tag ls" "i < n"
  shows "tags_ok n (issue_tags (seed_tags i ls st))"
proof -
  let ?room = "int max_tags - int (length (tags_of i (issue_tags st)))"
  let ?t = "add_labels i ?room ls (issue_tags st)"
  have "0 \<le> ?room" using assms(1) by (simp add: tags_ok_def)
  then have "length (tags_of i ?t) \<le> max_tags" using add_labels_room [of i ?room ls "issue_tags st"] by linarith
  then have "length (tags_of j ?t) \<le> max_tags" for j
    using assms(1) by (cases "j = i") (simp_all add: tags_ok_def add_labels_others)
  moreover have "\<forall>t \<in> set ?t. fst t < n \<and> valid_tag (snd t)"
    using add_labels_set [of i ?room ls "issue_tags st"] assms by (force simp: tags_ok_def list_all_iff)
  ultimately have "tags_ok n ?t" using assms(1) by (simp add: tags_ok_def add_labels_distinct)
  then show ?thesis using assms(1) by (simp add: seed_tags_def)
qed

lemma seed_tags_frame [simp]:
  "issues (seed_tags i ls st) = issues st" "issue_seq (seed_tags i ls st) = issue_seq st"
  "raws (seed_tags i ls st) = raws st" "events (seed_tags i ls st) = events st"
  "outbox (seed_tags i ls st) = outbox st" "outbox_seq (seed_tags i ls st) = outbox_seq st"
  "endpoints (seed_tags i ls st) = endpoints st" "activity (seed_tags i ls st) = activity st"
  by (simp_all add: seed_tags_def)

subsection \<open>Requests\<close>

lemma touch_key_frame [simp]:
  "issues (touch_key now k st) = issues st" "issue_seq (touch_key now k st) = issue_seq st"
  "raws (touch_key now k st) = raws st" "events (touch_key now k st) = events st"
  "issue_tags (touch_key now k st) = issue_tags st" "outbox (touch_key now k st) = outbox st"
  "outbox_seq (touch_key now k st) = outbox_seq st" "endpoints (touch_key now k st) = endpoints st"
  "activity (touch_key now k st) = activity st"
  by (simp_all add: touch_key_def)

lemma notify_frame [simp]:
  "issues (notify now p k x st) = issues st" "issue_seq (notify now p k x st) = issue_seq st"
  "raws (notify now p k x st) = raws st" "events (notify now p k x st) = events st"
  "issue_tags (notify now p k x st) = issue_tags st" "endpoints (notify now p k x st) = endpoints st"
  "activity (notify now p k x st) = activity st"
  by (simp_all add: notify_def Let_def)

lemma group_event_frame:
  assumes "group_event now project fp title producer st = (ik, st')"
  shows "raws st' = raws st" "events st' = events st" "issue_tags st' = issue_tags st"
    "outbox st' = outbox st" "outbox_seq st' = outbox_seq st" "endpoints st' = endpoints st"
  using assms by (auto simp: group_event_def Let_def split: option.splits)

text \<open>A stored event, step by step.\<close>

lemma store_event_cases:
  assumes "store_event env now uuid key project slug body (v, ev, payload) st = (rs, st')"
  obtains i kind st1 where
    "group_event now project (event_fingerprint (blake3_hex env) (show_value env) v) (take 200 (message ev)) (event_id ev)
       (st\<lparr>raws := raws st @ [\<lparr>raw_id = uuid, raw_project = project, raw_key = key, raw_body = body,
         raw_producer = event_id ev, raw_hash = Some (sha256_hex env body)\<rparr>]\<rparr>) = ((i, kind), st1)"
    "rs = \<lparr>rs_id = event_id ev, rs_issue = i,
       rs_fingerprint = event_fingerprint (blake3_hex env) (show_value env) v, rs_duplicate = False\<rparr>"
    "issues st' = issues st1" "issue_seq st' = issue_seq st1" "activity st' = activity st1"
    "raws st' = raws st @ [\<lparr>raw_id = uuid, raw_project = project, raw_key = key, raw_body = body,
         raw_producer = event_id ev, raw_hash = Some (sha256_hex env body)\<rparr>]"
    "events st' = events st @ [\<lparr>ev_id = uuid, ev_project = project, ev_issue = i,
       ev_fingerprint = event_fingerprint (blake3_hex env) (show_value env) v, ev_payload = payload\<rparr>]"
    "issue_tags st' = issue_tags (seed_tags i (labels_from_event_tags (event_tags ev)) st1)"
    "issue_tags st1 = issue_tags st"
    "case kind of None \<Rightarrow> outbox st' = outbox st \<and> outbox_seq st' = outbox_seq st
     | Some k \<Rightarrow>
         (let eps = filter (listening project) (endpoints st);
              x = json_text env (notification_of env k slug i (event_id ev) (rs_fingerprint rs) (take 200 (message ev))) in
          outbox st' = outbox st @ outbox_rows now (outbox_seq st) k x eps \<and>
          outbox_seq st' = outbox_seq st + int (length eps))"
proof -
  let ?st = "st\<lparr>raws := raws st @ [\<lparr>raw_id = uuid, raw_project = project, raw_key = key, raw_body = body,
         raw_producer = event_id ev, raw_hash = Some (sha256_hex env body)\<rparr>]\<rparr>"
  obtain i kind st1 where g: "group_event now project (event_fingerprint (blake3_hex env) (show_value env) v)
      (take 200 (message ev)) (event_id ev) ?st = ((i, kind), st1)" by (metis surj_pair)
  note f = group_event_frame [OF g]
  show ?thesis
    by (rule that [OF g]) (use assms g f in \<open>auto simp: store_event_def Let_def notify_def split: option.splits\<close>)
qed

lemma group_event_raws:
  "group_event now project fp title producer (st\<lparr>raws := r\<rparr>) =
     (let (x, st') = group_event now project fp title producer st in (x, st'\<lparr>raws := r\<rparr>))"
  by (simp add: group_event_def find_issue_def Let_def split: option.split)

lemma store_event_ok:
  assumes ok: "store_ok st" and new: "\<not> known_event st project (event_id ev)" "\<not> list_ex (\<lambda>r. raw_id r = uuid) (raws st)"
    and s: "store_event env now uuid key project slug body (v, ev, payload) st = (rs, st')"
  shows "store_ok st'"
proof -
  let ?fp = "event_fingerprint (blake3_hex env) (show_value env) v"
  let ?r = "\<lparr>raw_id = uuid, raw_project = project, raw_key = key, raw_body = body,
         raw_producer = event_id ev, raw_hash = Some (sha256_hex env body)\<rparr>"
  obtain i kind st1 where
    g: "group_event now project ?fp (take 200 (message ev)) (event_id ev) (st\<lparr>raws := raws st @ [?r]\<rparr>) = ((i, kind), st1)"
    and f: "issues st' = issues st1" "issue_seq st' = issue_seq st1" "raws st' = raws st @ [?r]"
      "events st' = events st @ [\<lparr>ev_id = uuid, ev_project = project, ev_issue = i, ev_fingerprint = ?fp, ev_payload = payload\<rparr>]"
      "issue_tags st' = issue_tags (seed_tags i (labels_from_event_tags (event_tags ev)) st1)" "issue_tags st1 = issue_tags st"
    by (rule store_event_cases [OF s]) blast
  let ?e = "\<lparr>ev_id = uuid, ev_project = project, ev_issue = i, ev_fingerprint = ?fp, ev_payload = payload\<rparr>"
  note [simp] = store_ok_def
  have "issues_ok (issue_seq st1) (issues st1)" "list_all (grouped (issues st1)) (events st @ [?e])"
    "list_all (count_ok (events st @ [?e])) (issues st1)" "issue_seq st \<le> issue_seq st1" "i < issue_seq st1"
    using group_event_ok [OF _ _ _ g, of ?e] ok by simp_all
  moreover have "raws_ok (raws st') (events st')"
    unfolding f using ok new by (intro raws_ok_snoc) (auto simp: known_event_iff list_ex_iff)
  moreover have "tags_ok (issue_seq st1) (issue_tags st')"
    unfolding f using calculation ok by (intro seed_tags_ok) (auto simp: f(6) labels_valid intro: tags_ok_mono)
  ultimately show ?thesis by (simp add: f(1-4))
qed

lemma duplicate_frame:
  "duplicate_event env now key project producer h st = (x, st') \<Longrightarrow> st' = st \<or> st' = touch_key now key st"
  by (auto simp: duplicate_event_def split: option.splits if_splits)

lemma ingest_ok:
  assumes ok: "store_ok st" and i: "ingest env now uuid key project slug body st = (x, st')"
  shows "store_ok st'"
proof (cases "decode_event env body")
  case (Inr d)
  obtain v ev payload where d: "d = (v, ev, payload)" by (cases d) auto
  show ?thesis
  proof (cases "known_event st project (event_id ev)")
    case True
    then have "st' = st \<or> st' = touch_key now key st"
      using i Inr d by (auto simp: ingest_def dest: duplicate_frame)
    then show ?thesis using ok by (auto simp: store_ok_def)
  next
    case False
    then show ?thesis using i Inr d ok store_event_ok [OF ok False, of uuid env now key slug body v payload]
      by (auto simp: ingest_def split: if_splits) (metis prod.collapse apfst_conv snd_conv prod.inject)
  qed
qed (use assms in \<open>simp add: ingest_def\<close>)

lemma ingest_request_ok:
  "store_ok st \<Longrightarrow> ingest_request env now uuid header slug body st = (x, st') \<Longrightarrow> store_ok st'"
  by (auto simp: ingest_request_def split: sum.splits intro: ingest_ok)

lemma status_ok:
  assumes ok: "store_ok st" and s: "set_issue_status now user t slug u i w st = (x, st')"
  shows "store_ok st'"
proof -
  have "st' = st \<or> (\<exists>p. issues st' = map (\<lambda>y. if is_id y = i \<and> is_project y = p then y\<lparr>is_status := w\<rparr> else y) (issues st) \<and>
      issue_seq st' = issue_seq st \<and> raws st' = raws st \<and> events st' = events st \<and> issue_tags st' = issue_tags st)"
    using s by (auto simp: set_issue_status_def split: sum.splits option.splits if_splits)
  then show ?thesis
  proof
    assume "\<exists>p. issues st' = map (\<lambda>y. if is_id y = i \<and> is_project y = p then y\<lparr>is_status := w\<rparr> else y) (issues st) \<and>
      issue_seq st' = issue_seq st \<and> raws st' = raws st \<and> events st' = events st \<and> issue_tags st' = issue_tags st"
    then obtain p where st': "issues st' = map (\<lambda>y. if is_id y = i \<and> is_project y = p then y\<lparr>is_status := w\<rparr> else y) (issues st)"
      "issue_seq st' = issue_seq st" "raws st' = raws st" "events st' = events st" "issue_tags st' = issue_tags st" by blast
    have keys: "map (\<lambda>i. (is_id i, is_project i, is_fingerprint i)) (issues st') =
      map (\<lambda>i. (is_id i, is_project i, is_fingerprint i)) (issues st)" by (simp add: st'(1))
    have "list_all (count_ok (events st)) (issues st')" using ok by (auto simp: st'(1) store_ok_def list_all_iff count_ok_def)
    moreover have "grouped (issues st') = grouped (issues st)" unfolding grouped_keys [abs_def] keys by (rule refl)
    moreover have "issues_ok n (issues st') = issues_ok n (issues st)" for n unfolding issues_ok_keys keys by (rule refl)
    ultimately show ?thesis using ok by (simp add: store_ok_def st'(2-))
  qed (use ok in simp)
qed

lemma insert_tags_new: "distinct ls \<Longrightarrow> \<forall>l \<in> set ls. (i, l) \<notin> set tags \<Longrightarrow> insert_tags i ls tags = tags @ map (Pair i) ls"
  by (induction i ls tags rule: insert_tags.induct) auto

lemma tags_of_replaced:
  "tags_of j (filter (\<lambda>t. fst t \<noteq> i) ts @ map (Pair i) ls) = (if j = i then ls else tags_of j ts)"
  by (auto simp: tags_of_def filter_map comp_def intro!: arg_cong [where f = "map snd"] filter_cong)

lemma replace_tags_ok:
  assumes ok: "store_ok st" and tags: "distinct tags" "list_all valid_tag tags" "length tags \<le> max_tags"
    and r: "replace_issue_tags now project i user tags st = (x, st')"
  shows "store_ok st'"
proof -
  have "st' = st \<or> (\<exists>y \<in> set (issues st). is_id y = i) \<and> issues st' = issues st \<and>
      issue_seq st' = issue_seq st \<and> raws st' = raws st \<and> events st' = events st \<and>
      issue_tags st' = insert_tags i tags (filter (\<lambda>t. fst t \<noteq> i) (issue_tags st))"
    using r by (auto simp: replace_issue_tags_def Let_def list_ex_iff split: if_splits)
  then show ?thesis
  proof
    assume a: "(\<exists>y \<in> set (issues st). is_id y = i) \<and> issues st' = issues st \<and>
      issue_seq st' = issue_seq st \<and> raws st' = raws st \<and> events st' = events st \<and>
      issue_tags st' = insert_tags i tags (filter (\<lambda>t. fst t \<noteq> i) (issue_tags st))"
    then have i: "i < issue_seq st" using ok by (auto simp: store_ok_def issues_ok_def)
    have t: "issue_tags st' = filter (\<lambda>t. fst t \<noteq> i) (issue_tags st) @ map (Pair i) tags"
      using a tags(1) by (simp add: insert_tags_new)
    have "distinct (map (Pair i) tags)" using tags(1) by (simp add: distinct_map inj_on_def)
    moreover have "length (tags_of j (issue_tags st')) \<le> max_tags" for j
      unfolding t tags_of_replaced using ok tags(3) by (simp add: store_ok_def tags_ok_def)
    moreover have "\<forall>t \<in> set (issue_tags st'). fst t < issue_seq st \<and> valid_tag (snd t)"
      using ok tags(2) i by (auto simp: t tags_ok_def store_ok_def list_all_iff)
    ultimately have "tags_ok (issue_seq st) (issue_tags st')"
      using ok by (auto simp: tags_ok_def store_ok_def t)
    then show ?thesis using ok a by (simp add: store_ok_def)
  qed (use ok in simp)
qed

subsection \<open>Runs\<close>

text \<open>
  The requests that touch issues, in any order and with any arguments. The rest of the program may
  change projects, memberships, keys, endpoints and the outbox at will between them.
\<close>

inductive store_step :: "'n ingest_env \<Rightarrow> store \<Rightarrow> store \<Rightarrow> bool" for env where
  event: "ingest_request env now uuid header slug body st = (x, st') \<Longrightarrow> store_step env st st'"
| status: "change_issue_status now user t slug u i w st = (x, st') \<Longrightarrow> store_step env st st'"
| resolve: "resolve_issue now user t slug u i st = (x, st') \<Longrightarrow> store_step env st st'"
| reopen: "reopen_issue now user t slug u i st = (x, st') \<Longrightarrow> store_step env st st'"
| tags: "update_issue_tags_form now user t slug u i text st = (x, st') \<Longrightarrow> store_step env st st'"
| api_tags: "update_issue_tags now user slug i payload st = (x, st') \<Longrightarrow> store_step env st st'"
| others: "store_step env st
    (st\<lparr>projects := p, members := m, ingest_keys := k, endpoints := e, outbox := rows, outbox_seq := n\<rparr>)"

definition empty_store :: store where
  "empty_store = \<lparr>projects = [], members = [], ingest_keys = [], issues = [], issue_seq = 1, raws = [], events = [],
     issue_tags = [], activity = [], endpoints = [], outbox = [], outbox_seq = 1\<rparr>"

lemma empty_store_ok: "store_ok empty_store"
  by (simp add: store_ok_def empty_store_def issues_ok_def raws_ok_def tags_ok_def)

lemma normalized_list:
  "normalize_tags ts = Inr tags \<Longrightarrow> distinct tags \<and> list_all valid_tag tags \<and> length tags \<le> max_tags"
  by (blast dest: normalized)

lemma normalized_tags:
  "normalize_comma_separated text = Inr tags \<Longrightarrow> distinct tags \<and> list_all valid_tag tags \<and> length tags \<le> max_tags"
  unfolding normalize_comma_separated_def by (rule normalized_list)

lemma store_step_ok: "store_step env st st' \<Longrightarrow> store_ok st \<Longrightarrow> store_ok st'"
proof (induction rule: store_step.induct)
  case (event now uuid header slug body st x st')
  then show ?case by (blast intro: ingest_request_ok)
next
  case (status now user t slug u i w st x st')
  then show ?case by (auto simp: change_issue_status_def split: option.splits intro: status_ok)
next
  case (resolve now user t slug u i st x st')
  then show ?case unfolding resolve_issue_def by (blast intro: status_ok)
next
  case (reopen now user t slug u i st x st')
  then show ?case unfolding reopen_issue_def by (blast intro: status_ok)
next
  case (tags now user t slug u i field st x st')
  then show ?case
    by (auto simp: update_issue_tags_form_def dest!: normalized_tags split: sum.splits if_splits intro: replace_tags_ok)
next
  case (api_tags now user slug i payload st x st')
  then show ?case by (auto simp: update_issue_tags_def dest!: normalized_list split: sum.splits intro: replace_tags_ok)
qed (simp add: store_ok_def)

interpretation tables: machine "store_step env" store_ok
  by unfold_locales (rule store_step_ok)

abbreviation store_reach :: "'n ingest_env \<Rightarrow> store \<Rightarrow> store \<Rightarrow> bool" where
  "store_reach env \<equiv> (store_step env)\<^sup>*\<^sup>*"

lemma reached_ok: "store_reach env empty_store st \<Longrightarrow> store_ok st"
  using tables.runs empty_store_ok by blast

lemma grouped_unique:
  assumes "issues_ok n xs" "grouped xs e" "grouped xs e'"
  shows "ev_issue e = ev_issue e' \<longleftrightarrow> ev_project e = ev_project e' \<and> ev_fingerprint e = ev_fingerprint e'"
  using assms by (auto simp: grouped_def issues_ok_def distinct_map inj_on_def)

lemma distinct_tags_of: "distinct ts \<Longrightarrow> distinct (tags_of i ts)"
  by (induction ts) (auto simp: tags_of_def)

text \<open>C2:
  After any sequence of requests the tables agree: every event belongs to an issue, two events to the
  same issue exactly when project and fingerprint are the same, the counter of an issue is the
  number of its events, and its tags are valid, distinct and at most fifty.
\<close>

lemma tables_agree:
  assumes "store_reach env empty_store st"
  shows "(\<forall>e \<in> set (events st). ev_issue e \<in> is_id ` set (issues st)) \<and>
    (\<forall>e \<in> set (events st). \<forall>e' \<in> set (events st).
       ev_issue e = ev_issue e' \<longleftrightarrow> ev_project e = ev_project e' \<and> ev_fingerprint e = ev_fingerprint e') \<and>
    (\<forall>i \<in> set (issues st). is_count i = int (length (filter (\<lambda>e. ev_issue e = is_id i) (events st)))) \<and>
    (\<forall>i. distinct (tags_of i (issue_tags st)) \<and> length (tags_of i (issue_tags st)) \<le> 50 \<and>
       list_all valid_tag (tags_of i (issue_tags st)))"
proof -
  have ok: "store_ok st" by (rule reached_ok [OF assms])
  have g: "grouped (issues st) e" if "e \<in> set (events st)" for e
    using ok that by (simp add: store_ok_def list_all_iff)
  have "ev_issue e \<in> is_id ` set (issues st)" if "e \<in> set (events st)" for e
    using g [OF that] by (auto simp: grouped_def)
  moreover have "ev_issue e = ev_issue e' \<longleftrightarrow> ev_project e = ev_project e' \<and> ev_fingerprint e = ev_fingerprint e'"
    if "e \<in> set (events st)" "e' \<in> set (events st)" for e e'
    using ok g that grouped_unique by (metis store_ok_def)
  moreover have "is_count i = int (length (filter (\<lambda>e. ev_issue e = is_id i) (events st)))" if "i \<in> set (issues st)" for i
    using ok that by (simp add: store_ok_def list_all_iff count_ok_def)
  moreover have "distinct (tags_of i (issue_tags st)) \<and> length (tags_of i (issue_tags st)) \<le> 50 \<and>
      list_all valid_tag (tags_of i (issue_tags st))" for i
    using ok distinct_tags_of [of "issue_tags st" i]
    by (auto simp: store_ok_def tags_ok_def max_tags_def list_all_iff) (auto simp: tags_of_def)
  ultimately show ?thesis by blast
qed

subsection \<open>Retries\<close>

text \<open>Stored events are never lost or changed.\<close>

definition still_stored :: "raw_row \<Rightarrow> event_row \<Rightarrow> store \<Rightarrow> bool" where
  "still_stored r e st \<longleftrightarrow> r \<in> set (raws st) \<and> e \<in> set (events st)"

lemma ingest_keeps:
  assumes "ingest env now uuid key project slug body st = (x, st')"
  shows "set (raws st) \<subseteq> set (raws st') \<and> set (events st) \<subseteq> set (events st')"
proof (cases "decode_event env body")
  case (Inr d)
  obtain v ev payload where d: "d = (v, ev, payload)" by (cases d) auto
  have "set (raws st) \<subseteq> set (raws st1) \<and> set (events st) \<subseteq> set (events st1)"
    if s: "store_event env now uuid key project slug body (v, ev, payload) st = (rs, st1)" for rs st1
    by (rule store_event_cases [OF s]) auto
  then show ?thesis using assms Inr d
    by (auto simp: ingest_def dest: duplicate_frame split: if_splits) (metis apfst_conv prod.collapse snd_conv subsetD)+
qed (use assms in \<open>simp add: ingest_def\<close>)

lemma store_step_keeps: "store_step env st st' \<Longrightarrow> set (raws st) \<subseteq> set (raws st') \<and> set (events st) \<subseteq> set (events st')"
proof (induction rule: store_step.induct)
  case (event now uuid header slug body st x st')
  then show ?case by (auto simp: ingest_request_def split: sum.splits dest: ingest_keeps)
qed (auto simp: change_issue_status_def set_issue_status_def update_issue_tags_form_def replace_issue_tags_def Let_def
    resolve_issue_def reopen_issue_def update_issue_tags_def split: option.splits sum.splits if_splits)

text \<open>The timeline only grows.\<close>

lemma group_event_activity:
  "group_event now project fp title producer st = (ik, st') \<Longrightarrow> prefix (activity st) (activity st')"
  by (auto simp: group_event_def Let_def split: option.splits if_splits)

lemma ingest_activity:
  assumes "ingest env now uuid key project slug body st = (x, st')"
  shows "prefix (activity st) (activity st')"
proof (cases "decode_event env body")
  case (Inr d)
  obtain v ev payload where d: "d = (v, ev, payload)" by (cases d) auto
  have "prefix (activity st) (activity st1)"
    if s: "store_event env now uuid key project slug body (v, ev, payload) st = (rs, st1)" for rs st1
    by (rule store_event_cases [OF s]) (auto dest: group_event_activity)
  then show ?thesis using assms Inr d
    by (auto simp: ingest_def dest!: duplicate_frame split: if_splits) (metis apfst_conv prod.collapse snd_conv)
qed (use assms in \<open>simp add: ingest_def\<close>)

lemma store_step_activity: "store_step env st st' \<Longrightarrow> prefix (activity st) (activity st')"
proof (induction rule: store_step.induct)
  case (event now uuid header slug body st x st')
  then show ?case by (auto simp: ingest_request_def split: sum.splits dest: ingest_activity)
qed (auto simp: change_issue_status_def set_issue_status_def update_issue_tags_form_def replace_issue_tags_def Let_def
    resolve_issue_def reopen_issue_def update_issue_tags_def split: option.splits sum.splits if_splits)

lemma store_reach_keeps: "store_reach env st st' \<Longrightarrow> still_stored r e st \<Longrightarrow> still_stored r e st'"
  by (induction rule: rtranclp_induct) (auto simp: still_stored_def dest: store_step_keeps)

text \<open>The row an accepted request leaves or finds.\<close>

lemma accepted_stored:
  assumes ok: "store_ok st" and d: "decode_event env body = Inr (v, ev, payload)"
    and i: "ingest env now uuid key project slug body st = (Inr rs, st')"
  obtains r e where "still_stored r e st'" "raw_project r = project" "raw_producer r = event_id ev" "ev_id e = raw_id r"
    "raw_hash r = Some (sha256_hex env body) \<or> raw_hash r = None"
    "rs_id rs = event_id ev" "rs_issue rs = ev_issue e" "rs_fingerprint rs = ev_fingerprint e"
proof (cases "known_event st project (event_id ev)")
  case True
  then obtain r e where s: "stored_event st project (event_id ev) = Some (r, e)"
    using known_event_stored ok by (metis store_ok_def)
  then have "still_stored r e st'" using i d True stored_event_Some [OF s]
    by (auto simp: ingest_def duplicate_event_def still_stored_def split: if_splits)
  then show ?thesis using that i d True s stored_event_Some [OF s]
    by (auto simp: ingest_def duplicate_event_def split: if_splits option.splits)
next
  case False
  then obtain rs' where s: "store_event env now uuid key project slug body (v, ev, payload) st = (rs', st')" "rs = rs'"
    using i d by (auto simp: ingest_def split: if_splits) (metis apfst_conv fst_conv prod.collapse snd_conv sum.inject(2))
  show ?thesis
    by (rule store_event_cases [OF s(1)], rule that) (auto simp: still_stored_def s(2))
qed

text \<open>Rows from before the hash column have none; a table that starts empty never has such a row.\<close>

definition hashed :: "store \<Rightarrow> bool" where
  "hashed st \<longleftrightarrow> (\<forall>r \<in> set (raws st). raw_hash r \<noteq> None)"

lemma ingest_hashed:
  assumes "ingest env now uuid key project slug body st = (x, st')" "hashed st"
  shows "hashed st'"
proof (cases "decode_event env body")
  case (Inr d)
  obtain v ev payload where d: "d = (v, ev, payload)" by (cases d) auto
  have "hashed st1" if s: "store_event env now uuid key project slug body (v, ev, payload) st = (rs, st1)" for rs st1
    by (rule store_event_cases [OF s]) (use assms(2) in \<open>auto simp: hashed_def\<close>)
  then show ?thesis using assms Inr d
    by (auto simp: ingest_def hashed_def dest!: duplicate_frame split: if_splits) (metis apfst_conv prod.collapse snd_conv)+
qed (use assms in \<open>simp add: ingest_def\<close>)

lemma store_step_hashed: "store_step env st st' \<Longrightarrow> hashed st \<Longrightarrow> hashed st'"
proof (induction rule: store_step.induct)
  case (event now uuid header slug body st x st')
  then show ?case by (auto simp: ingest_request_def split: sum.splits dest: ingest_hashed)
qed (auto simp: hashed_def change_issue_status_def set_issue_status_def update_issue_tags_form_def replace_issue_tags_def
    Let_def resolve_issue_def reopen_issue_def update_issue_tags_def split: option.splits sum.splits if_splits)

lemma reached_hashed: "store_reach env empty_store st \<Longrightarrow> hashed st"
  using tables.runs_also [OF _ empty_store_ok, of env st hashed] store_step_hashed
  by (simp add: hashed_def empty_store_def) blast

lemma retry_answer:
  assumes "store_reach env empty_store st"
    and first: "ingest env now uuid key project slug body st = (Inr rs, st1)"
    and later: "store_reach env st1 st2"
    and d': "decode_event env body' = Inr (v', ev', payload')" "event_id ev' = rs_id rs"
  shows "ingest env now' uuid' key' project slug' body' st2 =
    (if sha256_hex env body' = sha256_hex env body
     then (Inr (rs\<lparr>rs_duplicate := True\<rparr>), touch_key now' key' st2)
     else (Inl (EventConflict (rs_id rs)), st2))"
proof -
  have ok: "store_ok st" by (rule reached_ok [OF assms(1)])
  obtain v ev payload where d: "decode_event env body = Inr (v, ev, payload)"
    using first by (auto simp: ingest_def split: sum.splits)
  obtain r e where re: "still_stored r e st1" "raw_project r = project" "raw_producer r = event_id ev" "ev_id e = raw_id r"
    and h: "raw_hash r = Some (sha256_hex env body) \<or> raw_hash r = None"
    and rs: "rs_id rs = event_id ev" "rs_issue rs = ev_issue e" "rs_fingerprint rs = ev_fingerprint e"
    by (rule accepted_stored [OF ok d first]) blast
  have ok1: "store_ok st1" by (rule ingest_ok [OF ok first])
  have "hashed st1" by (rule ingest_hashed [OF first reached_hashed [OF assms(1)]])
  then have hash: "raw_hash r = Some (sha256_hex env body)" using h re(1) by (auto simp: hashed_def still_stored_def)
  have ok2: "store_ok st2" using tables.runs [OF later ok1] .
  have in2: "r \<in> set (raws st2)" "e \<in> set (events st2)"
    using store_reach_keeps [OF later re(1)] by (simp_all add: still_stored_def)
  have "stored_event st2 project (rs_id rs) = Some (r, e)"
    using stored_event_eq [OF _ in2 re(4)] ok2 re(2,3) rs(1) by (simp add: store_ok_def)
  moreover have "known_event st2 project (rs_id rs)"
    using in2(1) re(2,3) rs(1) by (auto simp: known_event_iff image_iff)
  moreover have "rs\<lparr>rs_duplicate := True\<rparr> =
      \<lparr>rs_id = rs_id rs, rs_issue = ev_issue e, rs_fingerprint = ev_fingerprint e, rs_duplicate = True\<rparr>"
    using rs(2,3) by (cases rs) simp
  ultimately show ?thesis using d' hash
    by (simp add: ingest_def duplicate_event_def)
qed

text \<open>C11:
  An accepted event is recognised for ever: after any further requests, sending its identifier to the
  same project again answers with the same issue and fingerprint and changes nothing but the use of
  the key, if the body has the same digest; with another digest it is a conflict and nothing changes.
\<close>

lemma retry_recognised:
  assumes "store_reach env empty_store st"
    and first: "ingest env now uuid key project slug body st = (Inr rs, st1)"
    and later: "store_reach env st1 st2"
    and d': "decode_event env body' = Inr (v', ev', payload')" "event_id ev' = rs_id rs"
  shows "ingest env now' uuid' key' project slug' body' st2 =
    (if sha256_hex env body' = sha256_hex env body
     then (Inr (rs\<lparr>rs_duplicate := True\<rparr>), touch_key now' key' st2)
     else (Inl (EventConflict (rs_id rs)), st2))"
  by (rule retry_answer [OF assms])

subsection \<open>What an accepted event does\<close>

lemma find_bumped:
  "find_issue st project fp = Some i \<Longrightarrow> issues st' = update_issue (is_id i) (bump_issue now) (issues st) \<Longrightarrow>
   find_issue st' project fp = Some (bump_issue now i)"
  unfolding find_issue_def update_issue_def by (subst (asm) (2) eq_commute) (simp add: find_map)

lemma length_outbox_rows [simp]: "length (outbox_rows now n k x eps) = length eps"
  by (simp add: outbox_rows_def)

text \<open>What grouping did to the issues, the activity and the outbox.\<close>

definition issue_effect :: "int \<Rightarrow> int \<Rightarrow> ustr \<Rightarrow> ustr \<Rightarrow> ustr \<Rightarrow> int \<Rightarrow> store \<Rightarrow> store \<Rightarrow> bool" where
  "issue_effect now project fp title producer i st st' \<longleftrightarrow>
     (let told = (length (outbox st') = length (outbox st) + length (filter (listening project) (endpoints st))) in
      case find_issue st project fp of
        None \<Rightarrow>
          i = issue_seq st \<and> told \<and> activity st' = activity st \<and>
          find_issue st' project fp = Some \<lparr>is_id = i, is_project = project, is_fingerprint = fp, is_title = title,
            is_status = Unresolved, is_count = 1, is_first = now, is_last = now\<rparr>
      | Some x \<Rightarrow>
          i = is_id x \<and>
          find_issue st' project fp = Some (x\<lparr>is_count := is_count x + 1, is_last := now,
            is_status := (if is_status x = Ignored then Ignored else Unresolved)\<rparr>) \<and>
          (if is_status x = Resolved
           then told \<and> activity st' = activity st @ [\<lparr>ac_issue = i, ac_user = None, ac_kind = Regression producer, ac_at = now\<rparr>]
           else outbox st' = outbox st \<and> activity st' = activity st))"

lemma bump_issue_status:
  "bump_issue now x = x\<lparr>is_count := is_count x + 1, is_last := now,
     is_status := (if is_status x = Ignored then Ignored else Unresolved)\<rparr>"
  by (cases "is_status x") (simp_all add: bump_issue_def)


subsection \<open>The worker's table\<close>

lemma outbox_rows_Cons:
  "outbox_rows now n k x (e # es) =
     \<lparr>ob_id = n, ob_endpoint = ep_id e, ob_event_type = k, ob_payload = x, ob_attempts = 0, ob_available = now,
       ob_locked = None, ob_delivered = None, ob_error = None\<rparr> # outbox_rows now (n + 1) k x es"
  by (simp add: outbox_rows_def enumerate_eq_zip upt_conv_Cons zip_Cons1 del: upt_Suc)
    (simp add: map_Suc_upt [symmetric] zip_map1 comp_def case_prod_beta algebra_simps del: upt_Suc)

lemma enqueue_rows:
  assumes "ep_id ` set eps \<subseteq> ep_id ` set (w_eps w)"
  shows "worker_reach null_error wenv w
    (w\<lparr>w_rows := w_rows w @ outbox_rows (w_clock w) (w_seq w) k x eps, w_seq := w_seq w + int (length eps)\<rparr>)"
  using assms
proof (induction eps arbitrary: w)
  case Nil
  then show ?case by (simp add: outbox_rows_def)
next
  case (Cons e es)
  let ?r = "\<lparr>ob_id = w_seq w, ob_endpoint = ep_id e, ob_event_type = k, ob_payload = x, ob_attempts = 0,
    ob_available = w_clock w, ob_locked = None, ob_delivered = None, ob_error = None\<rparr>"
  let ?w = "w\<lparr>w_rows := w_rows w @ [?r], w_seq := w_seq w + 1\<rparr>"
  have "worker_step null_error wenv w ?w"
    using Cons.prems by (intro worker_step.enqueue) (auto simp: fresh_row_def)
  also have "worker_reach null_error wenv ?w
      (?w\<lparr>w_rows := w_rows ?w @ outbox_rows (w_clock ?w) (w_seq ?w) k x es, w_seq := w_seq ?w + int (length es)\<rparr>)"
    by (rule Cons.IH) (use Cons.prems in auto)
  finally show ?case by (simp add: outbox_rows_Cons algebra_simps)
qed


subsection \<open>A run\<close>

text \<open>A decoder whose events are identified by the first byte of their body.\<close>

definition plain_event :: "ustr \<Rightarrow> unit event" where
  "plain_event i = \<lparr>version = 1, event_id = i, timestamp = lit ''now'', message = lit ''boom'', error_of = None,
     severity_of = Error, release = None, environment = None, platform = None, stack_frames = [], breadcrumbs = [],
     event_tags = [(lit ''region'', lit ''eu'')], event_contexts = [], event_user = None, fingerprint_parts = None\<rparr>"

definition sample_env :: "unit ingest_env" where
  "sample_env = \<lparr>from_slice = (\<lambda>b. Inr (JStr b)),
     deserialize = (\<lambda>v. case v of JStr s \<Rightarrow> Inr (plain_event (take 1 s)) | _ \<Rightarrow> Inl []), rfc3339 = (\<lambda>s. Some 2026),
     from_utf8 = Some, sha256_hex = (\<lambda>b. b), blake3_hex = (\<lambda>b. b), show_value = (\<lambda>v. lit ''event''),
     json_text = n_content, public_url = None, row_not_found = [], unique_violation = []\<rparr>"

lemma sample_env_fields [simp]:
  "sha256_hex sample_env b = b" "blake3_hex sample_env b = b" "show_value sample_env v = lit ''event''"
  "public_url sample_env = None" "json_text sample_env n = n_content n"
  by (simp_all add: sample_env_def)

lemma plain_event_fields [simp]:
  "event_id (plain_event i) = i" "message (plain_event i) = lit ''boom''"
  "event_tags (plain_event i) = [(lit ''region'', lit ''eu'')]"
  by (simp_all add: plain_event_def)

lemma sample_decode: "decode_event sample_env [97, n] = Inr (JStr [97, n], plain_event [97], [97, n])"
proof -
  have "validate (\<lambda>s. Some 2026) (plain_event [97]) = Inr ()"
    by (simp add: validate_def validate_required_def validate_optional_def validate_timestamp_def validate_tags_def
        validate_parts_def validate_stack_frames_def refuse_def plain_event_def lit_def rs_trim_def strip_def
        strip_start_def strip_end_def rs_ws_def utf8_char_def)
  then show ?thesis by (simp add: decode_event_def sample_env_def)
qed

definition keyed_store :: store where
  "keyed_store = empty_store\<lparr>projects := [(1, lit ''app'')],
     ingest_keys := [\<lparr>k_id = 1, k_project = 1, k_hash = lit ''k'', k_revoked = None, k_used = None\<rparr>]\<rparr>"

lemma keyed_reach: "store_reach sample_env empty_store keyed_store"
proof -
  have "store_step sample_env empty_store keyed_store"
    using store_step.others [where env = sample_env and st = empty_store and p = "[(1, lit ''app'')]" and m = "[]"
        and k = "[\<lparr>k_id = 1, k_project = 1, k_hash = lit ''k'', k_revoked = None, k_used = None\<rparr>]"
        and e = "[]" and rows = "[]" and n = 1]
    by (simp add: keyed_store_def empty_store_def)
  then show ?thesis by blast
qed

lemma sample_key: "ingest_key_project sample_env keyed_store (Some (lit ''Bearer k'')) (lit ''APP'') = Inr (1, 1)"
  by (simp add: ingest_key_project_def bearer_def keyed_store_def lit_def char_class_defs rs_trim_def
      strip_def strip_start_def strip_end_def rs_ws_def same_slug_def utf8_char_def)

lemma first_event:
  obtains st where
    "ingest sample_env 5 [1] 1 1 (lit ''APP'') [97, 1] keyed_store =
       (Inr \<lparr>rs_id = [97], rs_issue = 1, rs_fingerprint = lit ''event'', rs_duplicate = False\<rparr>, st)"
    "store_reach sample_env empty_store st" "map is_count (issues st) = [1]" "tags_of 1 (issue_tags st) = [lit ''region:eu'']"
    "map (\<lambda>i. (is_id i, is_project i)) (issues st) = [(1, 1)]"
proof -
  have tag: "labels_from_event_tags [(lit ''region'', lit ''eu'')] = [lit ''region:eu'']"
    by (simp add: labels_from_event_tags_def List.map_filter_simps validate_tag_def max_tag_len_def rs_trim_def strip_def
        strip_start_def strip_end_def rs_ws_def lit_def)
  have fp: "event_fingerprint (blake3_hex sample_env) (show_value sample_env) (JStr s) = lit ''event''" for s
    by (simp add: event_fingerprint_def fingerprint_text_def explicit_parts_def lit_def utf8_char_def)
  have k: "\<not> known_event keyed_store 1 [97]" "raws keyed_store = []" "issues keyed_store = []" "issue_seq keyed_store = 1"
    "issue_tags keyed_store = []"
    by (simp_all add: known_event_def keyed_store_def empty_store_def)
  define r where "r = ingest sample_env 5 [1] 1 1 (lit ''APP'') [97, 1] keyed_store"
  have r: "fst r = Inr \<lparr>rs_id = [97], rs_issue = 1, rs_fingerprint = lit ''event'', rs_duplicate = False\<rparr>"
    "map is_count (issues (snd r)) = [1]" "tags_of 1 (issue_tags (snd r)) = [lit ''region:eu'']"
    "map (\<lambda>i. (is_id i, is_project i)) (issues (snd r)) = [(1, 1)]"
    unfolding r_def by (simp_all add: ingest_def sample_decode k store_event_def group_event_def find_issue_def Let_def
        fp tag seed_tags_def max_tags_def)
  have "ingest_request sample_env 5 [1] (Some (lit ''Bearer k'')) (lit ''APP'') [97, 1] keyed_store = (fst r, snd r)"
    by (simp add: ingest_request_def sample_key r_def)
  then have "store_step sample_env keyed_store (snd r)" by (rule store_step.event)
  with keyed_reach have run: "store_reach sample_env empty_store (snd r)" by auto
  have "r = (Inr \<lparr>rs_id = [97], rs_issue = 1, rs_fingerprint = lit ''event'', rs_duplicate = False\<rparr>, snd r)"
    by (simp add: prod_eq_iff r(1))
  then show ?thesis using that [of "snd r"] run r(2-) unfolding r_def by blast
qed

lemma tables_agree_witness:
  "\<exists>st. store_reach sample_env empty_store st \<and> issues st \<noteq> [] \<and> (\<forall>i. length (tags_of i (issue_tags st)) \<le> 50)"
proof (rule first_event)
  fix st
  assume run: "store_reach sample_env empty_store st" and n: "map is_count (issues st) = [1]"
  have "issues st \<noteq> []" using n by auto
  moreover have "\<forall>i. length (tags_of i (issue_tags st)) \<le> 50" using tables_agree [OF run] by blast
  ultimately show ?thesis using run by blast
qed

lemma retry_recognised_witness:
  "\<exists>st. ingest sample_env 9 [2] 1 1 (lit ''app'') [97, 1] st =
      (Inr \<lparr>rs_id = [97], rs_issue = 1, rs_fingerprint = lit ''event'', rs_duplicate = True\<rparr>, touch_key 9 1 st) \<and>
    ingest sample_env 9 [2] 1 1 (lit ''app'') [97, 2] st = (Inl (EventConflict [97]), st)"
proof (rule first_event)
  fix st
  assume a: "ingest sample_env 5 [1] 1 1 (lit ''APP'') [97, 1] keyed_store =
       (Inr \<lparr>rs_id = [97], rs_issue = 1, rs_fingerprint = lit ''event'', rs_duplicate = False\<rparr>, st)"
  show ?thesis
    using retry_recognised [OF keyed_reach a rtranclp.rtrancl_refl sample_decode [of 1]]
      retry_recognised [OF keyed_reach a rtranclp.rtrancl_refl sample_decode [of 2]]
    by (intro exI [of _ st]) simp
qed



end
