(* ===== verification/Members.thy ===== *)
theory Members
  imports Domain Forms Slug
begin

text \<open>
  Accounts, projects and memberships: \<open>bootstrap\<close>, \<open>create_project\<close> and \<open>create_member\<close> of
  \<open>src/handlers.rs\<close>. The handler of memberships reads the role of the actor before it opens its
  transaction, so it is two functions: the checks and the transaction. Argon2 is a parameter.
\<close>

subsection \<open>Tables\<close>

record account =
  a_id :: int
  a_email :: ustr
  a_name :: ustr
  a_password :: ustr

record team =
  accounts :: "account list"
  account_seq :: int
  team_projects :: "(int \<times> ustr) list"
  project_seq :: int
  memberships :: "membership list"

definition hash_password :: "(ustr \<Rightarrow> ustr app_result) \<Rightarrow> ustr \<Rightarrow> ustr app_result" where
  "hash_password argon2 password =
     (if length password < 12 \<or> 1024 < length password
      then Inl (BadRequest (lit ''password must contain between 12 and 1024 characters''))
      else argon2 password)"

definition add_account :: "ustr \<Rightarrow> ustr \<Rightarrow> ustr \<Rightarrow> team \<Rightarrow> int \<times> team" where
  "add_account email name hash t =
     (account_seq t,
      t\<lparr>accounts := accounts t @ [\<lparr>a_id = account_seq t, a_email = email, a_name = name, a_password = hash\<rparr>],
        account_seq := account_seq t + 1\<rparr>)"

text \<open>The column compares without regard to the case of ASCII letters.\<close>

definition account_by_email :: "team \<Rightarrow> ustr \<Rightarrow> int option" where
  "account_by_email t email =
     map_option a_id (find (\<lambda>a. map ascii_lower (a_email a) = map ascii_lower email) (accounts t))"

definition bootstrap ::
  "(ustr \<Rightarrow> ustr app_result) \<Rightarrow> ustr \<Rightarrow> ustr \<Rightarrow> ustr \<Rightarrow> team \<Rightarrow> int app_result \<times> team" where
  "bootstrap argon2 email name password t =
     (case and_then (validate_identity email name) (\<lambda>_. hash_password argon2 password) of
        Inl e \<Rightarrow> (Inl e, t)
      | Inr hash \<Rightarrow>
          if accounts t \<noteq> [] then (Inl NotFound, t)
          else apfst Inr (add_account (map ascii_lower (rs_trim email)) (rs_trim name) hash t))"

text \<open>A second project of the same slug violates the uniqueness of the column.\<close>

definition create_project ::
  "ustr \<Rightarrow> int \<Rightarrow> ustr \<Rightarrow> project_form \<Rightarrow> team \<Rightarrow> ustr app_result \<times> team" where
  "create_project unique_violation user session_csrf form t =
     (case project_fields session_csrf form of
        Inl e \<Rightarrow> (Inl e, t)
      | Inr (name, slug, description) \<Rightarrow>
          if list_ex (\<lambda>p. same_slug (snd p) slug) (team_projects t) then (Inl (Database unique_violation), t)
          else
            (Inr slug,
             t\<lparr>team_projects := team_projects t @ [(project_seq t, slug)], project_seq := project_seq t + 1,
               memberships := memberships t @ [(project_seq t, user, role_text Owner)]\<rparr>))"

subsection \<open>Memberships\<close>

record member_form =
  m_csrf :: ustr
  m_email :: ustr
  m_name :: ustr
  m_password :: ustr
  m_role :: ustr

definition set_role :: "int \<Rightarrow> int \<Rightarrow> ustr \<Rightarrow> membership list \<Rightarrow> membership list" where
  "set_role project user role ms =
     (if stored_role ms project user = None then ms @ [(project, user, role)]
      else map (\<lambda>(p, u, r). (p, u, if p = project \<and> u = user then role else r)) ms)"

text \<open>The checks before the transaction: project, role of the actor and role to give.\<close>

definition member_checks ::
  "ustr \<Rightarrow> int \<Rightarrow> ustr \<Rightarrow> ustr \<Rightarrow> member_form \<Rightarrow> team \<Rightarrow> (int \<times> project_role \<times> project_role) app_result" where
  "member_checks row_not_found user session_csrf slug form t =
     and_then (check_csrf session_csrf (m_csrf form)) (\<lambda>_.
     and_then (require_project_role (team_projects t) (memberships t) user slug Admin) (\<lambda>project.
     (case parse_role (m_role form) of
        None \<Rightarrow> Inl (BadRequest (lit ''role must be owner, admin, developer, or viewer''))
      | Some role \<Rightarrow>
          (case stored_role (memberships t) project user of
             None \<Rightarrow> Inl (Database row_not_found)
           | Some stored \<Rightarrow>
               (case parse_role stored of
                  None \<Rightarrow> Inl Forbidden
                | Some actor \<Rightarrow>
                    if actor < Owner \<and> Admin \<le> role then Inl Forbidden
                    else and_then (validate_identity (m_email form) (m_name form)) (\<lambda>_.
                      Inr (project, actor, role)))))))"

text \<open>The transaction, with the project and the roles the checks found.\<close>

definition member_transaction ::
  "(ustr \<Rightarrow> ustr app_result) \<Rightarrow> int \<Rightarrow> member_form \<Rightarrow> int \<times> project_role \<times> project_role \<Rightarrow> team
     \<Rightarrow> unit app_result \<times> team" where
  "member_transaction argon2 user form = (\<lambda>(project, actor, role) t.
     (let email = map ascii_lower (rs_trim (m_email form));
          found = (case account_by_email t email of
             Some u \<Rightarrow> Inr (u, t)
           | None \<Rightarrow> and_then (hash_password argon2 (m_password form)) (\<lambda>hash.
               Inr (add_account email (rs_trim (m_name form)) hash t)))
      in case found of
           Inl e \<Rightarrow> (Inl e, t)
         | Inr (u, t') \<Rightarrow>
             (let target = Option.bind (stored_role (memberships t') project u) parse_role in
              if actor < Owner \<and> (case target of None \<Rightarrow> False | Some existing \<Rightarrow> Admin \<le> existing)
              then (Inl Forbidden, t)
              else if u = user \<and> role \<noteq> Owner
              then (Inl (BadRequest (lit ''an owner cannot demote their own membership'')), t)
              else (Inr (), t'\<lparr>memberships := set_role project u (role_text role) (memberships t')\<rparr>))))"

definition create_member ::
  "ustr \<Rightarrow> (ustr \<Rightarrow> ustr app_result) \<Rightarrow> int \<Rightarrow> ustr \<Rightarrow> ustr \<Rightarrow> member_form \<Rightarrow> team \<Rightarrow> unit app_result \<times> team" where
  "create_member row_not_found argon2 user session_csrf slug form t =
     (case member_checks row_not_found user session_csrf slug form t of
        Inl e \<Rightarrow> (Inl e, t)
      | Inr c \<Rightarrow> member_transaction argon2 user form c t)"

subsection \<open>What a change may do\<close>

lemma stored_role_simps [simp]:
  "stored_role [] q v = None"
  "stored_role ((p, u, r) # ms) q v = (if p = q \<and> u = v then Some r else stored_role ms q v)"
  by (simp_all add: stored_role_def)

lemma stored_role_snoc:
  "stored_role (ms @ [(p, u, r)]) q v =
     (case stored_role ms q v of None \<Rightarrow> if p = q \<and> u = v then Some r else None | Some x \<Rightarrow> Some x)"
  by (induction ms) auto

lemma stored_role_map:
  "stored_role (map (\<lambda>(q, v, s). (q, v, if q = p \<and> v = u then r else s)) ms) q v =
     (if q = p \<and> v = u then map_option (\<lambda>s. r) (stored_role ms q v) else stored_role ms q v)"
  by (induction ms) auto

lemma stored_role_set:
  "stored_role (set_role p u r ms) q v = (if q = p \<and> v = u then Some r else stored_role ms q v)"
  by (auto simp: set_role_def stored_role_snoc stored_role_map split: option.split)

lemma role_less: "r < s \<longleftrightarrow> rank r < rank s" "r \<le> s \<longleftrightarrow> rank r \<le> rank s" for r s :: project_role
  by (simp_all add: less_project_role_def less_eq_project_role_def)

lemma not_below_owner: "\<not> r < Owner \<longleftrightarrow> r = Owner" for r :: project_role
  by (cases r) (simp_all add: role_less)

lemma checks_Inr:
  assumes "member_checks row_not_found user csrf slug form t = Inr (project, actor, role)"
  shows "stored_role (memberships t) project user = Some (role_text actor)" and "Admin \<le> actor"
    and "actor = Owner \<or> role < Admin" and "parse_role (m_role form) = Some role"
    and "project \<in> fst ` set (team_projects t)"
proof -
  obtain project' where r': "require_project_role (team_projects t) (memberships t) user slug Admin = Inr project'"
    and rest: "(case parse_role (m_role form) of
        None \<Rightarrow> Inl (BadRequest (lit ''role must be owner, admin, developer, or viewer''))
      | Some role \<Rightarrow>
          (case stored_role (memberships t) project' user of
             None \<Rightarrow> Inl (Database row_not_found)
           | Some stored \<Rightarrow>
               (case parse_role stored of
                  None \<Rightarrow> Inl Forbidden
                | Some actor \<Rightarrow>
                    if actor < Owner \<and> Admin \<le> role then Inl Forbidden
                    else and_then (validate_identity (m_email form) (m_name form)) (\<lambda>_.
                      Inr (project', actor, role))))) = Inr (project, actor, role)"
    using assms unfolding member_checks_def and_then_Inr_iff by blast
  obtain role' where p': "parse_role (m_role form) = Some role'" using rest by (cases "parse_role (m_role form)") simp_all
  obtain x where x: "stored_role (memberships t) project' user = Some x"
    using rest p' by (cases "stored_role (memberships t) project' user") simp_all
  obtain actor' where a': "parse_role x = Some actor'" using rest p' x by (cases "parse_role x") simp_all
  have e: "\<not> (actor' < Owner \<and> Admin \<le> role')" "project' = project" "actor' = actor" "role' = role"
    using rest by (simp_all add: p' x a' and_then_Inr_iff split: if_splits)
  note r = r' [unfolded e] and p = p' [unfolded e] and a = e(1) [unfolded e]
  have s: "\<exists>x. stored_role (memberships t) project user = Some x \<and> parse_role x = Some actor"
    using x a' by (simp add: e)
  from s show st: "stored_role (memberships t) project user = Some (role_text actor)" by (auto dest: parse_role_Some)
  obtain slug' role' where "(project, slug') \<in> set (team_projects t)"
    "stored_role (memberships t) project user = Some (role_text role')" "Admin \<le> role'"
    using require_role_Inr [OF r] by metis
  with st show "Admin \<le> actor" "project \<in> fst ` set (team_projects t)"
    by (metis option.inject parse_role_text, force)
  show "actor = Owner \<or> role < Admin" using a not_below_owner by (auto simp: not_le)
  show "parse_role (m_role form) = Some role" by (rule p)
qed

text \<open>The transaction alone, whatever the checks found earlier.\<close>

lemma transaction_Inr:
  assumes "member_transaction argon2 user form (project, actor, role) t = (Inr (), t')"
  obtains u where "memberships t' = set_role project u (role_text role) (memberships t)"
    "team_projects t' = team_projects t" "project_seq t' = project_seq t"
    "actor = Owner \<or> (\<forall>r. stored_role (memberships t) project u = Some (role_text r) \<longrightarrow> r < Admin)"
    "u = user \<longrightarrow> role = Owner"
    "account_by_email t' (map ascii_lower (rs_trim (m_email form))) = Some u \<or> u = account_seq t"
proof -
  let ?email = "map ascii_lower (rs_trim (m_email form))"
  obtain u t1 where f: "(case account_by_email t ?email of
             Some u \<Rightarrow> Inr (u, t)
           | None \<Rightarrow> and_then (hash_password argon2 (m_password form)) (\<lambda>hash.
               Inr (add_account ?email (rs_trim (m_name form)) hash t))) = Inr (u, t1)"
    using assms by (auto simp: member_transaction_def Let_def split: sum.splits)
  have t1: "memberships t1 = memberships t" "team_projects t1 = team_projects t" "project_seq t1 = project_seq t"
    "account_by_email t1 ?email = Some u \<or> u = account_seq t"
    using f by (auto simp: and_then_Inr_iff add_account_def split: option.splits)
  have g: "\<not> (actor < Owner \<and> (case Option.bind (stored_role (memberships t) project u) parse_role of
        None \<Rightarrow> False | Some existing \<Rightarrow> Admin \<le> existing))" "\<not> (u = user \<and> role \<noteq> Owner)"
    "t' = t1\<lparr>memberships := set_role project u (role_text role) (memberships t)\<rparr>"
    using assms f by (auto simp: member_transaction_def Let_def t1(1) split: if_splits)
  have "account_by_email t' ?email = account_by_email t1 ?email" by (simp add: g(3) account_by_email_def)
  moreover have "actor = Owner \<or> (\<forall>r. stored_role (memberships t) project u = Some (role_text r) \<longrightarrow> r < Admin)"
    using g(1) not_below_owner [of actor] by (auto simp: not_le)
  ultimately show ?thesis using that [of u] t1 g(2,3) by auto
qed

text \<open>Who may change a membership: a successful request changes the role of one user in one project; the
  actor is at least an administrator of it; an actor below owner neither gives nor touches a role of
  administrator or above; and nobody gives up their own ownership.
\<close>

lemma member_change_authorised:
  assumes "create_member row_not_found argon2 user csrf slug form t = (Inr (), t')"
  shows "\<exists>project actor role u. stored_role (memberships t) project user = Some (role_text actor) \<and> Admin \<le> actor \<and>
    (\<forall>q v. stored_role (memberships t') q v =
       (if q = project \<and> v = u then Some (role_text role) else stored_role (memberships t) q v)) \<and>
    (actor = Owner \<or> role < Admin \<and> (\<forall>r. stored_role (memberships t) project u = Some (role_text r) \<longrightarrow> r < Admin)) \<and>
    (u = user \<longrightarrow> role = Owner)"
proof -
  obtain project actor role where c: "member_checks row_not_found user csrf slug form t = Inr (project, actor, role)"
    and tr: "member_transaction argon2 user form (project, actor, role) t = (Inr (), t')"
    using assms by (auto simp: create_member_def split: sum.splits)
  obtain u where "memberships t' = set_role project u (role_text role) (memberships t)"
    "actor = Owner \<or> (\<forall>r. stored_role (memberships t) project u = Some (role_text r) \<longrightarrow> r < Admin)"
    "u = user \<longrightarrow> role = Owner"
    by (rule transaction_Inr [OF tr]) blast
  then show ?thesis using checks_Inr(1-3) [OF c]
    by (intro exI [of _ project] exI [of _ actor] exI [of _ role] exI [of _ u]) (auto simp: stored_role_set)
qed

subsection \<open>Owners\<close>

definition owned :: "membership list \<Rightarrow> int \<Rightarrow> bool" where
  "owned ms project \<longleftrightarrow> (\<exists>u. stored_role ms project u = Some (role_text Owner))"

definition team_ok :: "team \<Rightarrow> bool" where
  "team_ok t \<longleftrightarrow>
     (\<forall>p \<in> set (team_projects t). owned (memberships t) (fst p) \<and> fst p < project_seq t) \<and>
     (\<forall>m \<in> set (memberships t). fst m < project_seq t)"

text \<open>The handlers that write these tables, one after the other.\<close>

inductive team_step :: "team \<Rightarrow> team \<Rightarrow> bool" where
  first: "bootstrap argon2 email name password t = (x, t') \<Longrightarrow> team_step t t'"
| project: "create_project unique_violation user csrf form t = (y, t') \<Longrightarrow> team_step t t'"
| member: "create_member row_not_found argon2 user csrf slug form t = (z, t') \<Longrightarrow> team_step t t'"

definition empty_team :: team where
  "empty_team = \<lparr>accounts = [], account_seq = 1, team_projects = [], project_seq = 1, memberships = []\<rparr>"

lemma set_role_projects: "fst ` set (set_role p u r ms) \<subseteq> insert p (fst ` set ms)"
  by (auto simp: set_role_def)

lemma member_keeps_owner:
  assumes c: "member_checks row_not_found user csrf slug form t = Inr (project, actor, role)"
    and tr: "member_transaction argon2 user form (project, actor, role) t = (Inr (), t')"
    and o: "owned (memberships t) q"
  shows "owned (memberships t') q"
proof -
  obtain u where m: "memberships t' = set_role project u (role_text role) (memberships t)"
    and low: "actor = Owner \<or> (\<forall>r. stored_role (memberships t) project u = Some (role_text r) \<longrightarrow> r < Admin)"
    and self: "u = user \<longrightarrow> role = Owner"
    by (rule transaction_Inr [OF tr]) blast
  obtain v where v: "stored_role (memberships t) q v = Some (role_text Owner)" using o by (auto simp: owned_def)
  show ?thesis
  proof (cases "q = project \<and> v = u \<and> role \<noteq> Owner")
    case False
    then show ?thesis using v by (auto simp: owned_def m stored_role_set intro!: exI [of _ v])
  next
    case True
    then have "actor = Owner \<or> Owner < Admin" using low v by blast
    then have "actor = Owner" by (simp add: role_less)
    moreover have "user \<noteq> u" using self True by blast
    ultimately show ?thesis using checks_Inr(1) [OF c] True by (auto simp: owned_def m stored_role_set intro!: exI [of _ user])
  qed
qed

lemma unchanged_memberships:
  "bootstrap argon2 email name password t = (x, t') \<Longrightarrow>
   memberships t' = memberships t \<and> team_projects t' = team_projects t \<and> project_seq t' = project_seq t"
  by (auto simp: bootstrap_def add_account_def split: sum.splits if_splits)

lemma stored_role_None: "\<forall>m \<in> set ms. fst m \<noteq> p \<Longrightarrow> stored_role ms p u = None"
  by (induction ms) auto

lemma refused_unchanged: "create_member row_not_found argon2 user csrf slug form t = (Inl e, t') \<Longrightarrow> t' = t"
  by (auto simp: create_member_def member_transaction_def Let_def split: sum.splits if_splits)

lemma team_step_ok: "team_step t t' \<Longrightarrow> team_ok t \<Longrightarrow> team_ok t'"
proof (induction rule: team_step.induct)
  case (first argon2 email name password t x t')
  then show ?case using unchanged_memberships [OF first.hyps] by (simp add: team_ok_def)
next
  case (project unique_violation user csrf form t y t')
  have new: "stored_role (memberships t) (project_seq t) user = None"
    using project.prems by (intro stored_role_None) (force simp: team_ok_def)
  let ?ms = "memberships t @ [(project_seq t, user, role_text Owner)]"
  have "stored_role ?ms (project_seq t) user = Some (role_text Owner)" using new by (simp add: stored_role_snoc)
  then have "owned ?ms (project_seq t)" unfolding owned_def by blast
  moreover have "owned ?ms q" if "owned (memberships t) q" for q
  proof -
    from that obtain u where "stored_role (memberships t) q u = Some (role_text Owner)" unfolding owned_def by blast
    then have "stored_role ?ms q u = Some (role_text Owner)" by (simp add: stored_role_snoc)
    then show ?thesis unfolding owned_def by blast
  qed
  ultimately have owned: "\<forall>p \<in> set (team_projects t). owned ?ms (fst p)" "owned ?ms (project_seq t)"
    using project.prems by (auto simp: team_ok_def simp del: role_text.simps)
  have "t' = t \<or> (\<exists>slug. t' = t\<lparr>team_projects := team_projects t @ [(project_seq t, slug)],
      project_seq := project_seq t + 1, memberships := ?ms\<rparr>)"
    using project.hyps by (auto simp: create_project_def split: sum.splits if_splits)
  then show ?case using project.prems owned by (fastforce simp: team_ok_def simp del: role_text.simps)
next
  case (member row_not_found argon2 user csrf slug form t z t')
  show ?case
  proof (cases z)
    case (Inl e)
    then show ?thesis using member.prems refused_unchanged member.hyps by blast
  next
    case (Inr y)
    then obtain project actor role where c: "member_checks row_not_found user csrf slug form t = Inr (project, actor, role)"
      and tr: "member_transaction argon2 user form (project, actor, role) t = (Inr (), t')"
      using member.hyps by (auto simp: create_member_def split: sum.splits)
    obtain u where "memberships t' = set_role project u (role_text role) (memberships t)"
      "team_projects t' = team_projects t" "project_seq t' = project_seq t" by (rule transaction_Inr [OF tr]) blast
    moreover have "project < project_seq t" using checks_Inr(5) [OF c] member.prems by (auto simp: team_ok_def)
    ultimately show ?thesis
      using member.prems member_keeps_owner [OF c tr] set_role_projects [of project u "role_text role" "memberships t"]
      by (fastforce simp: team_ok_def)
  qed
qed

interpretation teams: machine team_step team_ok
  by unfold_locales (rule team_step_ok)

text \<open>C6:
  As long as the handlers run one after the other, every project always has an owner.
\<close>

lemma owners_remain:
  assumes "team_step\<^sup>*\<^sup>* empty_team t" and "p \<in> set (team_projects t)"
  shows "\<exists>u. stored_role (memberships t) (fst p) u = Some (role_text Owner)"
proof -
  have "team_ok empty_team" by (simp add: team_ok_def empty_team_def)
  then have "team_ok t" using teams.runs assms(1) by blast
  then show ?thesis using assms(2) by (auto simp: team_ok_def owned_def)
qed

definition app_form :: project_form where
  "app_form = \<lparr>pf_csrf = lit ''t'', pf_name = lit ''App'', pf_slug = Some (lit ''app''), pf_description = None\<rparr>"

lemma first_project:
  "create_project [] 1 (lit ''t'') app_form empty_team =
     (Inr (lit ''app''), empty_team\<lparr>team_projects := [(1, lit ''app'')], project_seq := 2,
        memberships := [(1, 1, role_text Owner)]\<rparr>)"
proof -
  have "project_fields (lit ''t'') app_form = Inr (lit ''App'', lit ''app'', [])"
    unfolding project_fields_accepts app_form_def
    by (simp add: chosen_slug_def rs_trim_def strip_def strip_start_def strip_end_def rs_ws_def char_class_defs lit_def slug_char_def)
  then show ?thesis by (simp add: create_project_def empty_team_def)
qed

lemma owners_remain_witness:
  "\<exists>t. team_step\<^sup>*\<^sup>* empty_team t \<and> (1, lit ''app'') \<in> set (team_projects t) \<and>
     (\<exists>u. stored_role (memberships t) 1 u = Some (role_text Owner))"
proof -
  obtain t where t: "create_project [] 1 (lit ''t'') app_form empty_team = (Inr (lit ''app''), t)"
    "(1, lit ''app'') \<in> set (team_projects t)"
    using first_project by auto
  then have run: "team_step\<^sup>*\<^sup>* empty_team t" by (blast intro: team_step.project)
  then show ?thesis using owners_remain [OF run t(2)] t(2) by auto
qed

subsection \<open>Well-formed tables\<close>

definition team_typed :: "team \<Rightarrow> bool" where
  "team_typed t \<longleftrightarrow>
     distinct (map (\<lambda>a. map ascii_lower (a_email a)) (accounts t)) \<and>
     distinct (map (\<lambda>m. (fst m, fst (snd m))) (memberships t)) \<and>
     (\<forall>m \<in> set (memberships t). fst m \<in> fst ` set (team_projects t) \<and> snd (snd m) \<in> range role_text)"

lemma lower_lower [simp]: "map ascii_lower (map ascii_lower s) = map ascii_lower s"
  by (simp add: char_class_defs)

lemma distinct_set_role:
  "distinct (map (\<lambda>m. (fst m, fst (snd m))) ms) \<Longrightarrow> distinct (map (\<lambda>m. (fst m, fst (snd m))) (set_role p u r ms))"
proof (cases "stored_role ms p u = None")
  case True
  then have "(p, u) \<notin> (\<lambda>m. (fst m, fst (snd m))) ` set ms" by (auto simp: stored_role_def find_None_iff)
  then show "distinct (map (\<lambda>m. (fst m, fst (snd m))) ms) \<Longrightarrow> ?thesis" using True by (simp add: set_role_def)
next
  case False
  have e: "map ((\<lambda>m. (fst m, fst (snd m))) \<circ> (\<lambda>(q, v, s). (q, v, if q = p \<and> v = u then r else s))) ms =
      map (\<lambda>m. (fst m, fst (snd m))) ms" by auto
  then show "distinct (map (\<lambda>m. (fst m, fst (snd m))) ms) \<Longrightarrow> ?thesis"
    by (simp only: set_role_def False if_False map_map e)
qed

lemma set_role_typed:
  "(\<forall>m \<in> set ms. fst m \<in> P \<and> snd (snd m) \<in> R) \<Longrightarrow> p \<in> P \<Longrightarrow> r \<in> R \<Longrightarrow>
   \<forall>m \<in> set (set_role p u r ms). fst m \<in> P \<and> snd (snd m) \<in> R"
  by (auto simp: set_role_def)

lemma account_new:
  "account_by_email t email = None \<Longrightarrow>
   map ascii_lower email \<notin> (\<lambda>a. map ascii_lower (a_email a)) ` set (accounts t)"
  by (auto simp: account_by_email_def find_None_iff)

lemma transaction_accounts:
  assumes "member_transaction argon2 user form c t = (Inr (), t')"
  shows "accounts t' = accounts t \<or>
    (\<exists>a. accounts t' = accounts t @ [a] \<and> account_by_email t (a_email a) = None)"
  using assms
  by (auto simp: member_transaction_def Let_def add_account_def and_then_Inr_iff case_prod_beta
      split: option.splits sum.splits if_splits)

lemma team_step_typed: "team_step t t' \<Longrightarrow> team_ok t \<Longrightarrow> team_typed t \<Longrightarrow> team_typed t'"
proof (induction rule: team_step.induct)
  case (first argon2 email name password t x t')
  have "t' = t \<or> accounts t = [] \<and> (\<exists>a. accounts t' = [a])"
    using first.hyps by (auto simp: bootstrap_def add_account_def split: sum.splits if_splits)
  then show ?case using first.prems unchanged_memberships [OF first.hyps] by (auto simp: team_typed_def)
next
  case (project unique_violation user csrf form t y t')
  have "(project_seq t, user) \<notin> (\<lambda>m. (fst m, fst (snd m))) ` set (memberships t)"
    using project.prems(1) by (force simp: team_ok_def)
  moreover have "t' = t \<or> (\<exists>slug. t' = t\<lparr>team_projects := team_projects t @ [(project_seq t, slug)],
      project_seq := project_seq t + 1, memberships := memberships t @ [(project_seq t, user, role_text Owner)]\<rparr>)"
    using project.hyps by (auto simp: create_project_def split: sum.splits if_splits)
  ultimately show ?case using project.prems(2) by (fastforce simp: team_typed_def simp del: role_text.simps)
next
  case (member row_not_found argon2 user csrf slug form t z t')
  show ?case
  proof (cases z)
    case (Inl e)
    then show ?thesis using member.prems(2) refused_unchanged member.hyps by blast
  next
    case (Inr y)
    then obtain project actor role where c: "member_checks row_not_found user csrf slug form t = Inr (project, actor, role)"
      and tr: "member_transaction argon2 user form (project, actor, role) t = (Inr (), t')"
      using member.hyps by (auto simp: create_member_def split: sum.splits)
    obtain u where m: "memberships t' = set_role project u (role_text role) (memberships t)"
      "team_projects t' = team_projects t" by (rule transaction_Inr [OF tr]) blast
    have "distinct (map (\<lambda>a. map ascii_lower (a_email a)) (accounts t'))"
      using transaction_accounts [OF tr] member.prems(2) account_new by (auto simp: team_typed_def)
    moreover have "\<forall>m \<in> set (memberships t'). fst m \<in> fst ` set (team_projects t') \<and> snd (snd m) \<in> range role_text"
      unfolding m by (rule set_role_typed) (use member.prems(2) checks_Inr(5) [OF c] in \<open>simp_all add: team_typed_def\<close>)
    ultimately show ?thesis using member.prems(2) by (simp add: team_typed_def m distinct_set_role)
  qed
qed

text \<open>C35:
  After any sequence of requests no two accounts have the same address up to the case of letters, a
  user has at most one role in a project, only in a project that exists, and every stored role is
  one of the four spellings, so that no check fails on an unknown role.
\<close>

lemma memberships_typed:
  assumes "team_step\<^sup>*\<^sup>* empty_team t"
  shows "distinct (map (\<lambda>a. map ascii_lower (a_email a)) (accounts t)) \<and>
    distinct (map (\<lambda>(project, user, role). (project, user)) (memberships t)) \<and>
    (\<forall>(project, user, role) \<in> set (memberships t).
       project \<in> fst ` set (team_projects t) \<and> parse_role role \<noteq> None)"
proof -
  have "team_ok empty_team" "team_typed empty_team" by (simp_all add: team_ok_def team_typed_def empty_team_def)
  then have "team_typed t" using teams.runs_also [OF assms, of team_typed] team_step_typed by blast
  moreover have "parse_role r \<noteq> None" if "r \<in> range role_text" for r using that by auto
  ultimately show ?thesis unfolding team_typed_def case_prod_beta by (intro conjI ballI) (simp_all del: role_text.simps)
qed

lemma memberships_typed_witness:
  "\<exists>t. team_step\<^sup>*\<^sup>* empty_team t \<and> memberships t \<noteq> [] \<and>
     (\<forall>(project, user, role) \<in> set (memberships t). parse_role role \<noteq> None)"
proof -
  obtain t where t: "create_project [] 1 (lit ''t'') app_form empty_team = (Inr (lit ''app''), t)" "memberships t \<noteq> []"
    using first_project by auto
  then have run: "team_step\<^sup>*\<^sup>* empty_team t" by (blast intro: team_step.project)
  show ?thesis using memberships_typed [OF run] run t(2) by fast
qed

subsection \<open>Two owners at once\<close>

definition two_owners :: team where
  "two_owners = \<lparr>accounts = map (\<lambda>(i, e). \<lparr>a_id = i, a_email = lit e, a_name = lit e, a_password = []\<rparr>) [(1, ''a@x''), (2, ''b@x'')],
     account_seq = 3, team_projects = [(1, lit ''app'')], project_seq = 2,
     memberships = [(1, 1, role_text Owner), (1, 2, role_text Owner)]\<rparr>"

definition demote :: "string \<Rightarrow> member_form" where
  "demote email = \<lparr>m_csrf = lit ''t'', m_email = lit email, m_name = lit ''x'', m_password = [], m_role = lit ''viewer''\<rparr>"

lemma account_by_email_memberships [simp]: "account_by_email (t\<lparr>memberships := ms\<rparr>) e = account_by_email t e"
  by (simp add: account_by_email_def)

lemma demote_fields [simp]:
  "m_csrf (demote e) = lit ''t''" "m_email (demote e) = lit e" "m_name (demote e) = lit ''x''"
  "m_password (demote e) = []" "m_role (demote e) = lit ''viewer''"
  by (simp_all add: demote_def)

lemma demote_email: "map ascii_lower (rs_trim (lit ''a@x'')) = lit ''a@x''" "map ascii_lower (rs_trim (lit ''b@x'')) = lit ''b@x''"
  by (simp_all add: lit_def rs_trim_def strip_def strip_start_def strip_end_def rs_ws_def char_class_defs)

lemma two_owners_accounts: "account_by_email two_owners (lit ''a@x'') = Some 1" "account_by_email two_owners (lit ''b@x'') = Some 2"
  by (simp_all add: account_by_email_def two_owners_def lit_def char_class_defs)

lemma demote_checks:
  "member_checks [] 1 (lit ''t'') (lit ''app'') (demote ''b@x'') two_owners = Inr (1, Owner, Viewer)"
  "member_checks [] 2 (lit ''t'') (lit ''app'') (demote ''a@x'') two_owners = Inr (1, Owner, Viewer)"
proof -
  have id: "validate_identity (lit ''a@x'') (lit ''x'') = Inr ()" "validate_identity (lit ''b@x'') (lit ''x'') = Inr ()"
    by (simp_all add: validate_identity_def required_text_def lit_def rs_trim_def strip_def strip_start_def strip_end_def
        rs_ws_def char_class_defs)
  have role: "require_project_role (team_projects two_owners) (memberships two_owners) u (lit ''app'') Admin = Inr 1"
    if "u = 1 \<or> u = 2" for u
    using that by (auto simp: require_project_role_def membership_of_def two_owners_def same_slug_def role_less
        simp del: role_text.simps)
  have viewer: "parse_role (lit ''viewer'') = Some Viewer" by (simp add: parse_role_def)
  show "member_checks [] 1 (lit ''t'') (lit ''app'') (demote ''b@x'') two_owners = Inr (1, Owner, Viewer)"
    "member_checks [] 2 (lit ''t'') (lit ''app'') (demote ''a@x'') two_owners = Inr (1, Owner, Viewer)"
    using role [of 1] role [of 2]
    by (simp_all add: member_checks_def check_csrf_def secure_eq_def viewer id role_less)
      (simp_all add: two_owners_def parse_role_def id)
qed

lemma demote_second:
  "member_transaction argon2 1 (demote ''b@x'') (1, Owner, Viewer) two_owners =
     (Inr (), two_owners\<lparr>memberships := [(1, 1, role_text Owner), (1, 2, role_text Viewer)]\<rparr>)"
  by (simp add: member_transaction_def demote_email two_owners_accounts Let_def set_role_def) (simp add: two_owners_def)

lemma member_change_authorised_witness:
  "\<exists>t'. create_member [] Inr 1 (lit ''t'') (lit ''app'') (demote ''b@x'') two_owners = (Inr (), t') \<and>
     (\<exists>project actor role u. stored_role (memberships two_owners) project 1 = Some (role_text actor) \<and> Admin \<le> actor \<and>
       (\<forall>q v. stored_role (memberships t') q v =
          (if q = project \<and> v = u then Some (role_text role) else stored_role (memberships two_owners) q v)) \<and>
       (actor = Owner \<or> role < Admin \<and>
          (\<forall>r. stored_role (memberships two_owners) project u = Some (role_text r) \<longrightarrow> r < Admin)) \<and>
       (u = 1 \<longrightarrow> role = Owner))"
proof -
  have t': "create_member [] Inr 1 (lit ''t'') (lit ''app'') (demote ''b@x'') two_owners =
      (Inr (), two_owners\<lparr>memberships := [(1, 1, role_text Owner), (1, 2, role_text Viewer)]\<rparr>)"
    by (simp add: create_member_def demote_checks demote_second)
  show ?thesis by (rule exI, rule conjI, rule t', rule member_change_authorised [OF t'])
qed

text \<open>The checks read the actor's role outside the transaction. When the requests of two owners who
  demote each other both pass the checks before either writes, both succeed and the project has no
  owner, and no one who could appoint one.
\<close>

lemma concurrent_demotion:
  "member_checks [] 1 (lit ''t'') (lit ''app'') (demote ''b@x'') two_owners = Inr (1, Owner, Viewer) \<and>
   member_checks [] 2 (lit ''t'') (lit ''app'') (demote ''a@x'') two_owners = Inr (1, Owner, Viewer) \<and>
   (let (x, t1) = member_transaction argon2 1 (demote ''b@x'') (1, Owner, Viewer) two_owners;
        (y, t2) = member_transaction argon2 2 (demote ''a@x'') (1, Owner, Viewer) t1
    in x = Inr () \<and> y = Inr () \<and> (\<forall>u. stored_role (memberships t2) 1 u \<in> {None, Some (role_text Viewer)}))"
proof -
  have "member_transaction argon2 2 (demote ''a@x'') (1, Owner, Viewer)
        (two_owners\<lparr>memberships := [(1, 1, role_text Owner), (1, 2, role_text Viewer)]\<rparr>) =
      (Inr (), two_owners\<lparr>memberships := [(1, 1, role_text Viewer), (1, 2, role_text Viewer)]\<rparr>)"
    by (simp add: member_transaction_def demote_email two_owners_accounts Let_def set_role_def)
  then show ?thesis by (simp add: demote_checks demote_second del: role_text.simps)
qed

end
