(* ===== verification/Comments.thy ===== *)
theory Comments
  imports Issues
begin

text \<open>
  Comments of issues (\<open>src/handlers.rs\<close> 1182--1418, 2684--2842): the browser's forms and the JSON
  interface over the same three transactions, with the timeline they write. The table of users is
  the function \<open>names\<close> from a number to a display name.
\<close>

subsection \<open>Tables\<close>

record comment_row =
  cm_id :: int
  cm_issue :: int
  cm_user :: int
  cm_body :: ustr
  cm_created :: int
  cm_updated :: "int option"
  cm_editor :: "int option"
  cm_deleted :: "int option"

record board =
  tables :: store
  comments :: "comment_row list"
  comment_seq :: int

abbreviation role_in :: "board \<Rightarrow> int \<Rightarrow> ustr \<Rightarrow> project_role \<Rightarrow> int app_result" where
  "role_in b \<equiv> require_project_role (projects (tables b)) (members (tables b))"

definition has_issue :: "int \<Rightarrow> int \<Rightarrow> store \<Rightarrow> bool" where
  "has_issue project issue st \<longleftrightarrow> list_ex (\<lambda>i. is_id i = issue \<and> is_project i = project) (issues st)"

definition log_activity :: "int \<Rightarrow> int \<Rightarrow> int \<Rightarrow> activity_kind \<Rightarrow> board \<Rightarrow> board" where
  "log_activity now user issue kind b =
     b\<lparr>tables := (tables b)\<lparr>activity := activity (tables b) @
       [\<lparr>ac_issue = issue, ac_user = Some user, ac_kind = kind, ac_at = now\<rparr>]\<rparr>\<rparr>"

subsection \<open>Checks\<close>

definition can_modify_comment :: "project_role \<Rightarrow> int \<Rightarrow> int \<Rightarrow> bool" where
  "can_modify_comment role actor author \<longleftrightarrow> actor = author \<or> Admin \<le> role"

definition validate_comment_body :: "ustr \<Rightarrow> ustr app_result" where
  "validate_comment_body raw =
     (let trimmed = rs_trim raw in
      if trimmed = [] \<or> 10000 < length trimmed
      then Inl (Unprocessable (Some (lit ''body'')) (lit ''comment must contain 1 to 10,000 characters''))
      else Inr trimmed)"

definition load_comment_access :: "int \<Rightarrow> int \<Rightarrow> int \<Rightarrow> board \<Rightarrow> (int \<times> int option) app_result" where
  "load_comment_access project issue comment b =
     (case find (\<lambda>c. cm_id c = comment \<and> cm_issue c = issue \<and> has_issue project issue (tables b)) (comments b) of
        None \<Rightarrow> Inl NotFound
      | Some c \<Rightarrow> Inr (cm_user c, cm_deleted c))"

definition actor_role_in_project :: "ustr \<Rightarrow> int \<Rightarrow> int \<Rightarrow> board \<Rightarrow> project_role app_result" where
  "actor_role_in_project no_row project user b =
     (case stored_role (members (tables b)) project user of
        None \<Rightarrow> Inl (Database no_row)
      | Some raw \<Rightarrow> (case parse_role raw of None \<Rightarrow> Inl Forbidden | Some role \<Rightarrow> Inr role))"

text \<open>What an edit and a removal check before they write.\<close>

definition comment_guard :: "ustr \<Rightarrow> int \<Rightarrow> ustr \<Rightarrow> int \<Rightarrow> int \<Rightarrow> board \<Rightarrow> unit app_result" where
  "comment_guard no_row user slug issue comment b =
     and_then (role_in b user slug Developer) (\<lambda>project.
     and_then (load_comment_access project issue comment b) (\<lambda>(author, deleted).
     if deleted \<noteq> None then Inl NotFound
     else and_then (actor_role_in_project no_row project user b) (\<lambda>role.
       if can_modify_comment role user author then Inr () else Inl Forbidden)))"

subsection \<open>Transactions\<close>

definition insert_comment_in_project ::
  "int \<Rightarrow> int \<Rightarrow> ustr \<Rightarrow> int \<Rightarrow> ustr \<Rightarrow> board \<Rightarrow> int app_result \<times> board" where
  "insert_comment_in_project now user slug issue body b =
     (case role_in b user slug Developer of
        Inl e \<Rightarrow> (Inl e, b)
      | Inr project \<Rightarrow>
          if \<not> has_issue project issue (tables b) then (Inl NotFound, b)
          else
            (Inr (comment_seq b),
             log_activity now user issue (CommentAdded (comment_seq b) body)
               (b\<lparr>comments := comments b @ [\<lparr>cm_id = comment_seq b, cm_issue = issue, cm_user = user, cm_body = body,
                    cm_created = now, cm_updated = None, cm_editor = None, cm_deleted = None\<rparr>],
                  comment_seq := comment_seq b + 1\<rparr>)))"

definition write_comment :: "int \<Rightarrow> (comment_row \<Rightarrow> comment_row) \<Rightarrow> comment_row list \<Rightarrow> comment_row list" where
  "write_comment comment f cs = map (\<lambda>c. if cm_id c = comment \<and> cm_deleted c = None then f c else c) cs"

definition change_comment ::
  "ustr \<Rightarrow> int \<Rightarrow> int \<Rightarrow> ustr \<Rightarrow> int \<Rightarrow> int \<Rightarrow> (comment_row \<Rightarrow> comment_row) \<Rightarrow> activity_kind \<Rightarrow> board
     \<Rightarrow> unit app_result \<times> board" where
  "change_comment no_row now user slug issue comment f kind b =
     (case comment_guard no_row user slug issue comment b of
        Inl e \<Rightarrow> (Inl e, b)
      | Inr _ \<Rightarrow>
          if \<not> list_ex (\<lambda>c. cm_id c = comment \<and> cm_deleted c = None) (comments b) then (Inl NotFound, b)
          else (Inr (), log_activity now user issue kind (b\<lparr>comments := write_comment comment f (comments b)\<rparr>)))"

definition update_comment_in_project ::
  "ustr \<Rightarrow> int \<Rightarrow> int \<Rightarrow> ustr \<Rightarrow> int \<Rightarrow> int \<Rightarrow> ustr \<Rightarrow> board \<Rightarrow> unit app_result \<times> board" where
  "update_comment_in_project no_row now user slug issue comment body =
     change_comment no_row now user slug issue comment
       (\<lambda>c. c\<lparr>cm_body := body, cm_updated := Some now, cm_editor := Some user\<rparr>) (CommentEdited comment)"

definition delete_comment_in_project ::
  "ustr \<Rightarrow> int \<Rightarrow> int \<Rightarrow> ustr \<Rightarrow> int \<Rightarrow> int \<Rightarrow> board \<Rightarrow> unit app_result \<times> board" where
  "delete_comment_in_project no_row now user slug issue comment =
     change_comment no_row now user slug issue comment
       (\<lambda>c. c\<lparr>cm_deleted := Some now, cm_editor := Some user\<rparr>) (CommentDeleted comment)"

subsection \<open>Forms\<close>

definition form_body :: "ustr \<Rightarrow> ustr \<Rightarrow> ustr \<Rightarrow> ustr app_result" where
  "form_body session_csrf supplied body =
     and_then (check_csrf session_csrf supplied) (\<lambda>_. required_text (lit ''comment'') body 10000)"

definition add_comment ::
  "int \<Rightarrow> int \<Rightarrow> ustr \<Rightarrow> ustr \<Rightarrow> int \<Rightarrow> ustr \<Rightarrow> ustr \<Rightarrow> board \<Rightarrow> int app_result \<times> board" where
  "add_comment now user session_csrf slug issue supplied body b =
     (case form_body session_csrf supplied body of
        Inl e \<Rightarrow> (Inl e, b)
      | Inr text \<Rightarrow> insert_comment_in_project now user slug issue text b)"

definition edit_comment_form ::
  "ustr \<Rightarrow> int \<Rightarrow> int \<Rightarrow> ustr \<Rightarrow> ustr \<Rightarrow> int \<Rightarrow> int \<Rightarrow> ustr \<Rightarrow> ustr \<Rightarrow> board \<Rightarrow> unit app_result \<times> board" where
  "edit_comment_form no_row now user session_csrf slug issue comment supplied body b =
     (case form_body session_csrf supplied body of
        Inl e \<Rightarrow> (Inl e, b)
      | Inr text \<Rightarrow> update_comment_in_project no_row now user slug issue comment text b)"

definition delete_comment_form ::
  "ustr \<Rightarrow> int \<Rightarrow> int \<Rightarrow> ustr \<Rightarrow> ustr \<Rightarrow> int \<Rightarrow> int \<Rightarrow> ustr \<Rightarrow> board \<Rightarrow> unit app_result \<times> board" where
  "delete_comment_form no_row now user session_csrf slug issue comment supplied b =
     (case check_csrf session_csrf supplied of
        Inl e \<Rightarrow> (Inl e, b)
      | Inr _ \<Rightarrow> delete_comment_in_project no_row now user slug issue comment b)"

subsection \<open>The JSON interface\<close>

record comment_json =
  cj_id :: int
  cj_author :: ustr
  cj_user :: int
  cj_body :: "ustr option"
  cj_created :: int
  cj_updated :: "int option"
  cj_updated_by :: "ustr option"
  cj_deleted :: "int option"

text \<open>The join with the author drops a row without one; the text of a tombstone is left out.\<close>

definition comment_view :: "(int \<Rightarrow> ustr option) \<Rightarrow> comment_row \<Rightarrow> comment_json option" where
  "comment_view names c =
     map_option (\<lambda>author. \<lparr>cj_id = cm_id c, cj_author = author, cj_user = cm_user c,
       cj_body = (if cm_deleted c \<noteq> None then None else Some (cm_body c)), cj_created = cm_created c,
       cj_updated = cm_updated c, cj_updated_by = Option.bind (cm_editor c) names, cj_deleted = cm_deleted c\<rparr>)
       (names (cm_user c))"

definition fetch_comment_json :: "(int \<Rightarrow> ustr option) \<Rightarrow> int \<Rightarrow> board \<Rightarrow> comment_json app_result" where
  "fetch_comment_json names comment b =
     (case Option.bind (find (\<lambda>c. cm_id c = comment) (comments b)) (comment_view names) of
        None \<Rightarrow> Inl NotFound
      | Some j \<Rightarrow> Inr j)"

definition issue_comments :: "int \<Rightarrow> board \<Rightarrow> comment_row list" where
  "issue_comments issue b =
     sort_key cm_created (sort_key cm_id (filter (\<lambda>c. cm_issue c = issue) (comments b)))"

definition list_comments ::
  "(int \<Rightarrow> ustr option) \<Rightarrow> int \<Rightarrow> ustr \<Rightarrow> int \<Rightarrow> board \<Rightarrow> comment_json list app_result" where
  "list_comments names user slug issue b =
     and_then (role_in b user slug Viewer) (\<lambda>project.
     if \<not> has_issue project issue (tables b) then Inl NotFound
     else Inr (List.map_filter (comment_view names) (issue_comments issue b)))"

definition create_comment ::
  "(int \<Rightarrow> ustr option) \<Rightarrow> int \<Rightarrow> int \<Rightarrow> ustr \<Rightarrow> int \<Rightarrow> ustr \<Rightarrow> board \<Rightarrow> comment_json app_result \<times> board" where
  "create_comment names now user slug issue raw b =
     (case validate_comment_body raw of
        Inl e \<Rightarrow> (Inl e, b)
      | Inr body \<Rightarrow>
          (case insert_comment_in_project now user slug issue body b of
             (Inl e, b') \<Rightarrow> (Inl e, b')
           | (Inr comment, b') \<Rightarrow> (fetch_comment_json names comment b', b')))"

definition update_comment ::
  "ustr \<Rightarrow> (int \<Rightarrow> ustr option) \<Rightarrow> int \<Rightarrow> int \<Rightarrow> ustr \<Rightarrow> int \<Rightarrow> int \<Rightarrow> ustr \<Rightarrow> board
     \<Rightarrow> comment_json app_result \<times> board" where
  "update_comment no_row names now user slug issue comment raw b =
     (case validate_comment_body raw of
        Inl e \<Rightarrow> (Inl e, b)
      | Inr body \<Rightarrow>
          (case update_comment_in_project no_row now user slug issue comment body b of
             (Inl e, b') \<Rightarrow> (Inl e, b')
           | (Inr _, b') \<Rightarrow> (fetch_comment_json names comment b', b')))"

definition delete_comment ::
  "ustr \<Rightarrow> int \<Rightarrow> int \<Rightarrow> ustr \<Rightarrow> int \<Rightarrow> int \<Rightarrow> board \<Rightarrow> unit app_result \<times> board" where
  "delete_comment no_row now user slug issue comment b =
     delete_comment_in_project no_row now user slug issue comment b"

subsection \<open>What a request may do\<close>

text \<open>A comment keeps its number, issue, author and time; a removed one keeps everything.\<close>

definition row_later :: "comment_row \<Rightarrow> comment_row \<Rightarrow> bool" where
  "row_later c c' \<longleftrightarrow>
     cm_id c' = cm_id c \<and> cm_issue c' = cm_issue c \<and> cm_user c' = cm_user c \<and> cm_created c' = cm_created c \<and>
     (cm_deleted c \<noteq> None \<longrightarrow> c' = c)"

definition rows_later :: "board \<Rightarrow> board \<Rightarrow> bool" where
  "rows_later b b' \<longleftrightarrow> (\<exists>old new. comments b' = old @ new \<and> list_all2 row_later (comments b) old \<and>
     map cm_id new = [comment_seq b..comment_seq b' - 1] \<and> comment_seq b \<le> comment_seq b')"

definition evolves :: "board \<Rightarrow> board \<Rightarrow> bool" where
  "evolves b b' \<longleftrightarrow> rows_later b b' \<and> prefix (activity (tables b)) (activity (tables b'))"

lemma row_later_refl: "row_later c c"
  by (simp add: row_later_def)

lemma same_comments_later: "comments b' = comments b \<Longrightarrow> comment_seq b' = comment_seq b \<Longrightarrow> rows_later b b'"
  unfolding rows_later_def by (intro exI [of _ "comments b"] exI [of _ "[]"]) (simp add: list_all2_refl row_later_refl)

lemma evolves_refl: "evolves b b"
  by (simp add: evolves_def same_comments_later)

lemma log_activity_frame [simp]:
  "comments (log_activity now u i k b) = comments b" "comment_seq (log_activity now u i k b) = comment_seq b"
  "activity (tables (log_activity now u i k b)) =
     activity (tables b) @ [\<lparr>ac_issue = i, ac_user = Some u, ac_kind = k, ac_at = now\<rparr>]"
  by (simp_all add: log_activity_def)

lemma insert_evolves:
  assumes "insert_comment_in_project now user slug issue body b = (x, b')"
  shows "evolves b b'"
proof -
  have "b' = b \<or> (\<exists>c. comments b' = comments b @ [c] \<and> cm_id c = comment_seq b \<and> comment_seq b' = comment_seq b + 1 \<and>
      prefix (activity (tables b)) (activity (tables b')))"
    using assms by (auto simp: insert_comment_in_project_def split: sum.splits if_splits)
  then show ?thesis
  proof
    assume "\<exists>c. comments b' = comments b @ [c] \<and> cm_id c = comment_seq b \<and> comment_seq b' = comment_seq b + 1 \<and>
      prefix (activity (tables b)) (activity (tables b'))"
    then obtain c where c: "comments b' = comments b @ [c]" "cm_id c = comment_seq b" "comment_seq b' = comment_seq b + 1"
      "prefix (activity (tables b)) (activity (tables b'))" by blast
    have "rows_later b b'" unfolding rows_later_def
      by (intro exI [of _ "comments b"] exI [of _ "[c]"]) (simp add: c list_all2_refl row_later_refl)
    then show ?thesis using c(4) by (simp add: evolves_def)
  qed (simp add: evolves_refl)
qed

lemma change_evolves:
  assumes "change_comment no_row now user slug issue comment f kind b = (x, b')"
    and f: "\<And>c. cm_deleted c = None \<Longrightarrow> row_later c (f c)"
  shows "evolves b b'"
proof -
  have "b' = b \<or> comments b' = write_comment comment f (comments b) \<and> comment_seq b' = comment_seq b \<and>
      prefix (activity (tables b)) (activity (tables b'))"
    using assms(1) by (auto simp: change_comment_def split: sum.splits if_splits)
  then show ?thesis
  proof
    assume c: "comments b' = write_comment comment f (comments b) \<and> comment_seq b' = comment_seq b \<and>
      prefix (activity (tables b)) (activity (tables b'))"
    have "list_all2 row_later cs (write_comment comment f cs)" for cs
      by (induction cs) (simp_all add: write_comment_def f row_later_refl)
    then have "rows_later b b'" unfolding rows_later_def
      by (intro exI [of _ "comments b'"] exI [of _ "[]"]) (simp add: c)
    then show ?thesis using c by (simp add: evolves_def)
  qed (simp add: evolves_refl)
qed

lemma update_evolves: "update_comment_in_project no_row now user slug issue comment body b = (x, b') \<Longrightarrow> evolves b b'"
  unfolding update_comment_in_project_def by (erule change_evolves) (simp add: row_later_def)

lemma delete_evolves: "delete_comment_in_project no_row now user slug issue comment b = (x, b') \<Longrightarrow> evolves b b'"
  unfolding delete_comment_in_project_def by (erule change_evolves) (simp add: row_later_def)

subsection \<open>Runs\<close>

text \<open>Both interfaces, beside all requests that touch the other tables.\<close>

inductive board_step :: "'n ingest_env \<Rightarrow> board \<Rightarrow> board \<Rightarrow> bool" for env where
  form_add: "add_comment now user csrf slug issue t body b = (x, b') \<Longrightarrow> board_step env b b'"
| form_edit: "edit_comment_form no_row now user csrf slug issue comment t body b = (y, b') \<Longrightarrow> board_step env b b'"
| form_delete: "delete_comment_form no_row now user csrf slug issue comment t b = (y, b') \<Longrightarrow> board_step env b b'"
| api_add: "create_comment names now user slug issue body b = (z, b') \<Longrightarrow> board_step env b b'"
| api_edit: "update_comment no_row names now user slug issue comment body b = (z, b') \<Longrightarrow> board_step env b b'"
| api_delete: "delete_comment no_row now user slug issue comment b = (y, b') \<Longrightarrow> board_step env b b'"
| other: "store_step env (tables b) st \<Longrightarrow> board_step env b (b\<lparr>tables := st\<rparr>)"

definition empty_board :: board where
  "empty_board = \<lparr>tables = empty_store, comments = [], comment_seq = 1\<rparr>"

definition board_ok :: "board \<Rightarrow> bool" where
  "board_ok b \<longleftrightarrow> distinct (map cm_id (comments b)) \<and> (\<forall>c \<in> set (comments b). cm_id c < comment_seq b)"

lemma board_step_evolves: "board_step env b b' \<Longrightarrow> evolves b b'"
proof (induction rule: board_step.induct)
  case (other b st)
  then show ?case by (simp add: evolves_def same_comments_later store_step_activity)
qed (auto simp: add_comment_def edit_comment_form_def delete_comment_form_def create_comment_def update_comment_def
    delete_comment_def split: sum.splits prod.splits
    intro: evolves_refl insert_evolves update_evolves delete_evolves)

lemma later_ids: "list_all2 row_later cs ds \<Longrightarrow> map cm_id ds = map cm_id cs"
  by (induction rule: list_all2_induct) (simp_all add: row_later_def)

lemma evolves_ok: "evolves b b' \<Longrightarrow> board_ok b \<Longrightarrow> board_ok b'"
proof -
  assume "evolves b b'" and ok: "board_ok b"
  then obtain old new where o: "comments b' = old @ new" "list_all2 row_later (comments b) old"
    "map cm_id new = [comment_seq b..comment_seq b' - 1]" "comment_seq b \<le> comment_seq b'"
    by (auto simp: evolves_def rows_later_def)
  have ids: "map cm_id old = map cm_id (comments b)" by (rule later_ids [OF o(2)])
  have new: "cm_id ` set new = {comment_seq b..comment_seq b' - 1}" using arg_cong [OF o(3), of set] by simp
  have old: "cm_id ` set old = cm_id ` set (comments b)" using arg_cong [OF ids, of set] by simp
  have "\<forall>i \<in> cm_id ` set old. i < comment_seq b" unfolding old using ok by (simp add: board_ok_def)
  moreover have "distinct (map cm_id new)" by (simp add: o(3))
  ultimately have "distinct (map cm_id (comments b'))" "\<forall>i \<in> cm_id ` set (comments b'). i < comment_seq b'"
    using ok new o(4) by (auto simp: o(1) ids board_ok_def image_Un simp del: distinct_map)
  then show ?thesis by (simp add: board_ok_def)
qed

interpretation boards: machine "board_step env" board_ok
  by unfold_locales (blast intro: evolves_ok board_step_evolves)

abbreviation board_reach :: "'n ingest_env \<Rightarrow> board \<Rightarrow> board \<Rightarrow> bool" where
  "board_reach env \<equiv> (board_step env)\<^sup>*\<^sup>*"

lemma empty_board_ok: "board_ok empty_board"
  by (simp add: board_ok_def empty_board_def)

lemma reached_board_ok: "board_reach env empty_board b \<Longrightarrow> board_ok b"
  using boards.runs empty_board_ok by blast

subsection \<open>Who may change a comment\<close>

lemma board_unique:
  "board_ok b \<Longrightarrow> c \<in> set (comments b) \<Longrightarrow> d \<in> set (comments b) \<Longrightarrow> cm_id c = cm_id d \<Longrightarrow> c = d"
  by (auto simp: board_ok_def distinct_map inj_on_def)

lemma find_comment:
  assumes "board_ok b" "c \<in> set (comments b)" "P c"
  shows "find (\<lambda>d. cm_id d = cm_id c \<and> P d) (comments b) = Some c"
proof -
  have "find (\<lambda>d. cm_id d = cm_id c \<and> P d) (comments b) \<noteq> None" using assms by (auto simp: find_None_iff)
  then obtain d where d: "find (\<lambda>d. cm_id d = cm_id c \<and> P d) (comments b) = Some d" by blast
  then show ?thesis using board_unique [OF assms(1) _ assms(2)] by (auto dest: find_SomeD)
qed

definition may_change :: "int \<Rightarrow> ustr \<Rightarrow> int \<Rightarrow> int \<Rightarrow> board \<Rightarrow> bool" where
  "may_change user slug issue comment b \<longleftrightarrow>
     (\<exists>project role c. role_in b user slug Developer = Inr project \<and>
        stored_role (members (tables b)) project user = Some (role_text role) \<and>
        has_issue project issue (tables b) \<and>
        c \<in> set (comments b) \<and> cm_id c = comment \<and> cm_issue c = issue \<and> cm_deleted c = None \<and>
        (cm_user c = user \<or> Admin \<le> role))"

lemma access_iff:
  assumes "board_ok b"
  shows "load_comment_access project issue comment b = Inr (author, deleted) \<longleftrightarrow>
    has_issue project issue (tables b) \<and>
    (\<exists>c \<in> set (comments b). cm_id c = comment \<and> cm_issue c = issue \<and> cm_user c = author \<and> cm_deleted c = deleted)"
proof
  assume "load_comment_access project issue comment b = Inr (author, deleted)"
  then show "has_issue project issue (tables b) \<and>
    (\<exists>c \<in> set (comments b). cm_id c = comment \<and> cm_issue c = issue \<and> cm_user c = author \<and> cm_deleted c = deleted)"
    by (auto simp: load_comment_access_def split: option.splits dest!: find_SomeD)
next
  assume "has_issue project issue (tables b) \<and>
    (\<exists>c \<in> set (comments b). cm_id c = comment \<and> cm_issue c = issue \<and> cm_user c = author \<and> cm_deleted c = deleted)"
  then show "load_comment_access project issue comment b = Inr (author, deleted)"
    using find_comment [OF assms, where P = "\<lambda>c. cm_issue c = issue \<and> has_issue project issue (tables b)"]
    by (auto simp: load_comment_access_def)
qed

lemma actor_role_iff:
  "actor_role_in_project no_row project user b = Inr role \<longleftrightarrow>
     stored_role (members (tables b)) project user = Some (role_text role)"
  by (auto simp: actor_role_in_project_def split: option.splits dest: parse_role_Some)

lemma guard_iff:
  "board_ok b \<Longrightarrow> comment_guard no_row user slug issue comment b = Inr () \<longleftrightarrow> may_change user slug issue comment b"
  unfolding comment_guard_def may_change_def
  by (auto simp: and_then_Inr_iff access_iff actor_role_iff can_modify_comment_def split: if_splits)

lemma change_iff:
  assumes "board_ok b"
  shows "fst (change_comment no_row now user slug issue comment f kind b) = Inr () \<longleftrightarrow> may_change user slug issue comment b"
proof -
  have "may_change user slug issue comment b \<Longrightarrow> list_ex (\<lambda>c. cm_id c = comment \<and> cm_deleted c = None) (comments b)"
    by (auto simp: may_change_def list_ex_iff)
  then show ?thesis using guard_iff [OF assms, of no_row user slug issue comment]
    by (auto simp: change_comment_def split: sum.split)
qed

text \<open>C25:
  An edit or a removal is accepted exactly for a comment that is there, has not been removed and
  belongs to an issue of the project, from its author or an administrator, where both are at least
  developers of the project now; and it leaves every other comment as it was.
\<close>

lemma comment_change_authorised:
  assumes "board_reach env empty_board b"
  shows "(fst (update_comment_in_project no_row now user slug issue comment body b) = Inr () \<longleftrightarrow>
      may_change user slug issue comment b) \<and>
    (fst (delete_comment_in_project no_row now user slug issue comment b) = Inr () \<longleftrightarrow>
      may_change user slug issue comment b) \<and>
    filter (\<lambda>c. cm_id c \<noteq> comment) (comments (snd (update_comment_in_project no_row now user slug issue comment body b))) =
      filter (\<lambda>c. cm_id c \<noteq> comment) (comments b) \<and>
    filter (\<lambda>c. cm_id c \<noteq> comment) (comments (snd (delete_comment_in_project no_row now user slug issue comment b))) =
      filter (\<lambda>c. cm_id c \<noteq> comment) (comments b)"
proof -
  have others: "filter (\<lambda>c. cm_id c \<noteq> comment) (comments (snd (change_comment no_row now user slug issue comment f kind b))) =
      filter (\<lambda>c. cm_id c \<noteq> comment) (comments b)" if "\<And>c. cm_id (f c) = cm_id c" for f kind
  proof -
    have "filter (\<lambda>c. cm_id c \<noteq> comment) (write_comment comment f cs) = filter (\<lambda>c. cm_id c \<noteq> comment) cs" for cs
      by (induction cs) (simp_all add: write_comment_def that)
    then show ?thesis by (simp add: change_comment_def split: sum.split)
  qed
  show ?thesis unfolding update_comment_in_project_def delete_comment_in_project_def
    by (intro conjI change_iff reached_board_ok [OF assms] others) simp_all
qed

subsection \<open>Removed comments\<close>

lemma reach_later:
  "board_reach env b b' \<Longrightarrow> c \<in> set (comments b) \<Longrightarrow> \<exists>c' \<in> set (comments b'). row_later c c'"
proof (induction rule: rtranclp_induct)
  case base
  then show ?case using row_later_refl by blast
next
  case (step d e)
  then obtain c' where c': "c' \<in> set (comments d)" "row_later c c'" by blast
  obtain old new where "comments e = old @ new" "list_all2 row_later (comments d) old"
    using board_step_evolves [OF step.hyps(2)] by (auto simp: evolves_def rows_later_def)
  then obtain c'' where "c'' \<in> set (comments e)" "row_later c' c''"
    using c'(1) by (metis UnCI in_set_conv_nth list_all2_conv_all_nth nth_mem set_append)
  then show ?case using c'(2) by (auto simp: row_later_def)
qed

lemma reach_activity: "board_reach env b b' \<Longrightarrow> prefix (activity (tables b)) (activity (tables b'))"
proof (induction rule: rtranclp_induct)
  case (step d e)
  then have "prefix (activity (tables d)) (activity (tables e))" using board_step_evolves evolves_def by blast
  then show ?case using step.IH by (rule prefix_order.trans [rotated])
qed simp

text \<open>C7:
  No comment is ever lost, moved or given to another author, and a removed comment is final: from
  then on it is stored unchanged, can be neither edited nor removed again, and its text is in no
  answer of the comment interface.
\<close>

lemma tombstone_final:
  assumes "board_reach env empty_board b" "board_reach env b b'" "c \<in> set (comments b)"
  shows "(\<exists>c' \<in> set (comments b'). cm_id c' = cm_id c \<and> cm_issue c' = cm_issue c \<and> cm_user c' = cm_user c \<and>
      cm_created c' = cm_created c) \<and>
    (cm_deleted c \<noteq> None \<longrightarrow> c \<in> set (comments b') \<and>
      fst (update_comment_in_project no_row now user slug issue (cm_id c) body b') \<noteq> Inr () \<and>
      fst (delete_comment_in_project no_row now user slug issue (cm_id c) b') \<noteq> Inr () \<and>
      (\<forall>j. fetch_comment_json names (cm_id c) b' = Inr j \<longrightarrow> cj_body j = None) \<and>
      (\<forall>js. list_comments names user slug issue b' = Inr js \<longrightarrow>
         (\<forall>j \<in> set js. cj_id j = cm_id c \<longrightarrow> cj_body j = None)))"
proof -
  obtain c' where c': "c' \<in> set (comments b')" "row_later c c'" using reach_later [OF assms(2,3)] by blast
  have ok: "board_ok b'" using reached_board_ok [OF assms(1)] boards.runs [OF assms(2)] by blast
  have final: "c \<in> set (comments b') \<and> \<not> may_change user slug issue (cm_id c) b' \<and>
      (\<forall>j. fetch_comment_json names (cm_id c) b' = Inr j \<longrightarrow> cj_body j = None) \<and>
      (\<forall>js. list_comments names user slug issue b' = Inr js \<longrightarrow>
         (\<forall>j \<in> set js. cj_id j = cm_id c \<longrightarrow> cj_body j = None))" if d: "cm_deleted c \<noteq> None"
  proof -
    have c: "c \<in> set (comments b')" using c' d by (simp add: row_later_def)
    have same: "d = c" if "d \<in> set (comments b')" "cm_id d = cm_id c" for d
      using board_unique [OF ok that(1) c that(2)] .
    have "\<not> may_change user slug issue (cm_id c) b'" using same d unfolding may_change_def by metis
    moreover have "cj_body j = None" if "fetch_comment_json names (cm_id c) b' = Inr j" for j
    proof -
      from that obtain e where "e \<in> set (comments b')" "cm_id e = cm_id c" "comment_view names e = Some j"
        by (auto simp: fetch_comment_json_def bind_eq_Some_conv split: option.splits dest!: find_SomeD)
      then show ?thesis using d same [of e] by (auto simp: comment_view_def)
    qed
    moreover have "cj_body j = None"
      if js: "list_comments names user slug issue b' = Inr js" and j: "j \<in> set js" "cj_id j = cm_id c" for js j
    proof -
      have "set (issue_comments issue b') \<subseteq> set (comments b')" by (auto simp: issue_comments_def)
      then obtain e where "e \<in> set (comments b')" "comment_view names e = Some j"
        using js j(1) by (auto simp: list_comments_def and_then_Inr_iff List.map_filter_def split: if_splits) blast
      then show ?thesis using j(2) d same [of e] by (auto simp: comment_view_def)
    qed
    ultimately show ?thesis using c by blast
  qed
  show ?thesis unfolding update_comment_in_project_def delete_comment_in_project_def
    using c' final change_iff [OF ok] by (auto simp: row_later_def)
qed

subsection \<open>A run with a comment\<close>

lemma demo_role: "require_project_role [(1, lit ''app'')] [(1, 1, lit ''developer'')] 1 (lit ''app'') Developer = Inr 1"
  by (simp add: require_project_role_def membership_of_def same_slug_def stored_role_def parse_role_def)

lemma board_lift:
  "store_reach env st st' \<Longrightarrow> board_reach env (b\<lparr>tables := st\<rparr>) (b\<lparr>tables := st'\<rparr>)"
proof (induction rule: rtranclp_induct)
  case (step y z)
  have "board_step env (b\<lparr>tables := y\<rparr>) (b\<lparr>tables := y\<rparr>\<lparr>tables := z\<rparr>)"
    by (rule board_step.other) (simp add: step.hyps(2))
  then show ?case using step.IH by simp
qed simp

lemma demo_comment:
  obtains b c where "board_reach sample_env empty_board b" "comments b = [c]" "cm_id c = 1" "cm_issue c = 1" "cm_user c = 1"
    "cm_deleted c = None" "may_change 1 (lit ''app'') 1 1 b"
proof (rule first_event)
  fix st
  assume run: "store_reach sample_env empty_store st" and i: "map (\<lambda>i. (is_id i, is_project i)) (issues st) = [(1, 1)]"
  define st' where "st' = st\<lparr>projects := [(1, lit ''app'')], members := [(1, 1, lit ''developer'')],
    ingest_keys := [], endpoints := [], outbox := [], outbox_seq := 1\<rparr>"
  have "store_step sample_env st st'" unfolding st'_def by (rule store_step.others)
  with run have "store_reach sample_env empty_store st'" by simp
  from board_lift [OF this, of empty_board]
  have r0: "board_reach sample_env empty_board (empty_board\<lparr>tables := st'\<rparr>)" by (simp add: empty_board_def)
  have issue: "has_issue 1 1 st'" using i by (cases "issues st") (auto simp: has_issue_def st'_def)
  have role: "require_project_role (projects st') (members st') 1 (lit ''app'') Developer = Inr 1"
    "stored_role (members st') 1 1 = Some (role_text Developer)"
    by (simp_all add: st'_def demo_role stored_role_def)
  obtain b c where ins: "insert_comment_in_project 5 1 (lit ''app'') 1 (lit ''hi'') (empty_board\<lparr>tables := st'\<rparr>) = (Inr 1, b)"
    and b: "comments b = [c]" "cm_id c = 1" "cm_issue c = 1" "cm_user c = 1" "cm_deleted c = None"
      "projects (tables b) = projects st'" "members (tables b) = members st'" "issues (tables b) = issues st'"
    by (simp add: insert_comment_in_project_def role issue log_activity_def empty_board_def)
  have "validate_comment_body (lit ''hi'') = Inr (lit ''hi'')"
    by (simp add: validate_comment_body_def rs_trim_def strip_def strip_start_def strip_end_def rs_ws_def lit_def)
  then have "\<exists>z. create_comment (\<lambda>u. None) 5 1 (lit ''app'') 1 (lit ''hi'') (empty_board\<lparr>tables := st'\<rparr>) = (z, b)"
    by (simp add: create_comment_def ins)
  then have "board_reach sample_env empty_board b"
    using r0 board_step.api_add by (metis rtranclp.rtrancl_into_rtrancl)
  moreover have "may_change 1 (lit ''app'') 1 1 b"
    unfolding may_change_def b(6,7)
    using role issue b(1-5,8) by (intro exI [of _ 1] exI [of _ Developer] exI [of _ c]) (simp add: has_issue_def)
  ultimately show thesis using that b by blast
qed

lemma comment_change_authorised_witness:
  "\<exists>b. may_change 1 (lit ''app'') 1 1 b \<and>
     fst (update_comment_in_project [] 7 1 (lit ''app'') 1 1 (lit ''new'') b) = Inr () \<and>
     fst (delete_comment_in_project [] 7 1 (lit ''app'') 1 1 b) = Inr ()"
proof (rule demo_comment)
  fix b c
  assume r: "board_reach sample_env empty_board b" and m: "may_change 1 (lit ''app'') 1 1 b"
  show ?thesis using comment_change_authorised [OF r, of "[]" 7 1 "lit ''app''" 1 1 "lit ''new''"] m by blast
qed

lemma tombstone_final_witness:
  "\<exists>b c. board_reach sample_env empty_board b \<and> comments b = [c] \<and> cm_deleted c = Some 7 \<and>
     fst (update_comment_in_project [] 8 1 (lit ''app'') 1 (cm_id c) (lit ''new'') b) \<noteq> Inr ()"
proof (rule demo_comment)
  fix b c
  assume r: "board_reach sample_env empty_board b" and c: "comments b = [c]" "cm_id c = 1" "cm_deleted c = None"
    and m: "may_change 1 (lit ''app'') 1 1 b"
  obtain b' where d: "delete_comment_in_project [] 7 1 (lit ''app'') 1 1 b = (Inr (), b')"
    "comments b' = [c\<lparr>cm_deleted := Some 7, cm_editor := Some 1\<rparr>]"
    using guard_iff [OF reached_board_ok [OF r], of "[]" 1 "lit ''app''" 1 1] m c
    by (simp add: delete_comment_in_project_def change_comment_def write_comment_def)
  have "board_step sample_env b b'" by (rule board_step.api_delete) (use d in \<open>simp add: delete_comment_def\<close>)
  then have r': "board_reach sample_env empty_board b'" using r by simp
  have "c\<lparr>cm_deleted := Some 7, cm_editor := Some 1\<rparr> \<in> set (comments b')" by (simp add: d(2))
  from tombstone_final [OF r' rtranclp.rtrancl_refl this, of "[]" 8 1 "lit ''app''" 1 "lit ''new''"]
  show ?thesis using r' d(2) by (intro exI [of _ b'] exI [of _ "c\<lparr>cm_deleted := Some 7, cm_editor := Some 1\<rparr>"]) simp
qed

end
