(* ===== verification/IssueExport.thy ===== *)
theory IssueExport
  imports Comments
begin

text \<open>
  The Markdown export of an issue (\<open>issue_markdown\<close> of \<open>src/handlers.rs\<close> with \<open>fence_for\<close>), the queries
  that load comments and timeline, and the views of an event's payload. The text of a JSON value,
  the whole number a JSON number is, and the format of a time are parameters.
\<close>

subsection \<open>Fences\<close>

fun longest_run :: "nat \<Rightarrow> nat \<Rightarrow> ustr \<Rightarrow> nat" where
  "longest_run longest current [] = longest"
| "longest_run longest current (c # cs) =
     (if c = 96 then longest_run (max longest (current + 1)) (current + 1) cs else longest_run longest 0 cs)"

definition fence_for :: "ustr \<Rightarrow> ustr" where
  "fence_for content = replicate (max (longest_run 0 0 content) 2 + 1) 96"

subsection \<open>Views of a payload\<close>

record 'n show_env =
  value_string :: "'n json \<Rightarrow> ustr"
  int_value :: "'n \<Rightarrow> int option"
  format_unix :: "int \<Rightarrow> ustr"
  number :: "int \<Rightarrow> 'n"

text \<open>\<open>as_u64\<close> and \<open>as_i64\<close> agree on the numbers up to \<open>2 ^ 63 - 1\<close>; larger ones are only \<open>u64\<close>.\<close>

fun as_int :: "('n \<Rightarrow> int option) \<Rightarrow> 'n json \<Rightarrow> int option" where
  "as_int f (JNum n) = f n"
| "as_int f v = None"

definition int_text :: "int \<Rightarrow> ustr" where
  "int_text i = (if i < 0 then 45 # dec (nat (- i)) else dec (nat i))"

definition str_field :: "ustr \<Rightarrow> 'n json \<Rightarrow> ustr option" where
  "str_field k v = Option.bind (value_get k v) as_str"

definition selected_frames :: "'n json \<Rightarrow> 'n json list option" where
  "selected_frames payload =
     Option.bind
       (case Option.bind (value_get (lit ''error'') payload) (value_get (lit ''stack_frames'')) of
          Some v \<Rightarrow> Some v
        | None \<Rightarrow> value_get (lit ''stack_frames'') payload)
       as_array"

definition unknown_or :: "ustr option \<Rightarrow> ustr" where
  "unknown_or x = (case x of None \<Rightarrow> lit ''<unknown>'' | Some s \<Rightarrow> s)"

definition frame_text :: "'n show_env \<Rightarrow> 'n json \<Rightarrow> ustr" where
  "frame_text env frame =
     unknown_or (str_field (lit ''function'') frame) @ lit '' at '' @ unknown_or (str_field (lit ''filename'') frame) @
     (case Option.bind (value_get (lit ''line'') frame) (as_int (int_value env)) of
        Some n \<Rightarrow> if 0 \<le> n then 58 # int_text n else []
      | None \<Rightarrow> [])"

definition format_stacktrace :: "'n show_env \<Rightarrow> 'n json \<Rightarrow> ustr" where
  "format_stacktrace env payload =
     (case selected_frames payload of None \<Rightarrow> [] | Some frames \<Rightarrow> join [10] (map (frame_text env) frames))"

definition error_field_view :: "string \<Rightarrow> 'n json \<Rightarrow> ustr" where
  "error_field_view k payload =
     (case Option.bind (value_get (lit ''error'') payload) (str_field (lit k)) of None \<Rightarrow> [] | Some s \<Rightarrow> s)"

definition error_type_view :: "'n json \<Rightarrow> ustr" where
  "error_type_view = error_field_view ''type''"

definition error_value_view :: "'n json \<Rightarrow> ustr" where
  "error_value_view = error_field_view ''value''"

subsection \<open>The issue as it is loaded\<close>

record event_view =
  vw_id :: ustr
  vw_payload :: ustr
  vw_occurred :: ustr
  vw_environment :: ustr
  vw_release :: "ustr option"

record comment_line =
  cl_author :: ustr
  cl_created :: int
  cl_body :: ustr
  cl_deleted :: "int option"
  cl_updated :: "int option"
  cl_editor :: "ustr option"

record activity_line =
  al_kind :: ustr
  al_details :: ustr
  al_actor :: "ustr option"
  al_created :: int

record 'n issue_details =
  de_name :: ustr
  de_slug :: ustr
  de_issue :: "'n json"
  de_events :: "event_view list"
  de_comments :: "comment_line list"
  de_activity :: "activity_line list"

definition load_comments :: "(int \<Rightarrow> ustr option) \<Rightarrow> int \<Rightarrow> board \<Rightarrow> comment_line list" where
  "load_comments names issue b =
     List.map_filter (\<lambda>c. map_option (\<lambda>author. \<lparr>cl_author = author, cl_created = cm_created c, cl_body = cm_body c,
         cl_deleted = cm_deleted c, cl_updated = cm_updated c, cl_editor = Option.bind (cm_editor c) names\<rparr>)
       (names (cm_user c))) (issue_comments issue b)"

text \<open>What the handlers write into the columns \<open>kind\<close> and \<open>details_json\<close>.\<close>

fun kind_text :: "activity_kind \<Rightarrow> ustr" where
  "kind_text (StatusChange x y) = lit ''status''"
| "kind_text (Regression e) = lit ''regression''"
| "kind_text (TagsChange x y) = lit ''tags''"
| "kind_text (CommentAdded c body) = lit ''comment''"
| "kind_text (CommentEdited c) = lit ''comment_edited''"
| "kind_text (CommentDeleted c) = lit ''comment_deleted''"

fun kind_details :: "'n show_env \<Rightarrow> activity_kind \<Rightarrow> 'n json" where
  "kind_details env (StatusChange x y) =
     JObj [(lit ''from'', JStr (status_text x)), (lit ''to'', JStr (status_text y))]"
| "kind_details env (Regression e) = JObj [(lit ''event_id'', JStr e)]"
| "kind_details env (TagsChange x y) = JObj [(lit ''from'', JArr (map JStr x)), (lit ''to'', JArr (map JStr y))]"
| "kind_details env (CommentAdded c body) =
     JObj [(lit ''body'', JStr body), (lit ''comment_id'', JNum (number env c))]"
| "kind_details env (CommentEdited c) = JObj [(lit ''comment_id'', JNum (number env c))]"
| "kind_details env (CommentDeleted c) = JObj [(lit ''comment_id'', JNum (number env c))]"

definition activity_line_of :: "'n show_env \<Rightarrow> (int \<Rightarrow> ustr option) \<Rightarrow> activity_row \<Rightarrow> activity_line" where
  "activity_line_of env names a =
     \<lparr>al_kind = kind_text (ac_kind a), al_details = value_string env (kind_details env (ac_kind a)),
      al_actor = Option.bind (ac_user a) names, al_created = ac_at a\<rparr>"

text \<open>Newest first; rows of the same second by their number, which is their position.\<close>

definition load_activity :: "'n show_env \<Rightarrow> (int \<Rightarrow> ustr option) \<Rightarrow> int \<Rightarrow> board \<Rightarrow> activity_line list" where
  "load_activity env names issue b =
     map (activity_line_of env names)
       (sort_key (\<lambda>a. - ac_at a) (rev (filter (\<lambda>a. ac_issue a = issue) (activity (tables b)))))"

subsection \<open>The document\<close>

fun value_text :: "'n show_env \<Rightarrow> 'n json \<Rightarrow> ustr" where
  "value_text env JNull = []"
| "value_text env (JStr s) = s"
| "value_text env v = value_string env v"

definition issue_field :: "'n show_env \<Rightarrow> 'n json \<Rightarrow> string \<Rightarrow> ustr" where
  "issue_field env issue k = (case value_get (lit k) issue of None \<Rightarrow> [] | Some v \<Rightarrow> value_text env v)"

definition writeln :: "ustr \<Rightarrow> ustr" where
  "writeln s = s @ [10]"

definition bullet :: "string \<Rightarrow> ustr \<Rightarrow> ustr" where
  "bullet label x = writeln (lit ''- **'' @ lit label @ lit '':** '' @ x)"

definition bullet_unless_empty :: "string \<Rightarrow> ustr \<Rightarrow> ustr" where
  "bullet_unless_empty label x = (if x = [] then [] else bullet label x)"

definition md_head :: "'n show_env \<Rightarrow> 'n issue_details \<Rightarrow> ustr" where
  "md_head env d =
     (let issue = de_issue d; field = issue_field env issue; title = field ''title'';
          tags = (case Option.bind (value_get (lit ''tags'') issue) as_array of
             None \<Rightarrow> [] | Some vs \<Rightarrow> List.map_filter as_str vs);
          seen = (\<lambda>label k. case Option.bind (value_get (lit k) issue) (as_int (int_value env)) of
             None \<Rightarrow> [] | Some t \<Rightarrow> bullet label (format_unix env t)) in
      writeln (lit ''# '' @ (if title = [] then lit ''Untitled issue'' else title) @ [10]) @
      bullet ''Project'' (de_name d @ lit '' ('' @ de_slug d @ lit '')'') @
      bullet ''Issue ID'' (field ''id'') @
      bullet_unless_empty ''Status'' (field ''status'') @
      (if tags = [] then [] else bullet ''Tags'' (join (lit '', '') tags)) @
      bullet_unless_empty ''Severity'' (field ''severity'') @
      (if field ''fingerprint'' = [] then [] else bullet ''Fingerprint'' ([96] @ field ''fingerprint'' @ [96])) @
      bullet ''Events'' (field ''event_count'') @
      seen ''First seen'' ''first_seen_at'' @ seen ''Last seen'' ''last_seen_at'' @
      bullet_unless_empty ''Environment'' (field ''environment'') @
      bullet_unless_empty ''Release'' (field ''release'') @ writeln [])"

definition fenced :: "ustr \<Rightarrow> ustr \<Rightarrow> ustr" where
  "fenced info content =
     (let fence = fence_for content in writeln (fence @ info) @ writeln content @ writeln (fence @ [10]))"

definition heading :: "string \<Rightarrow> ustr" where
  "heading s = writeln (lit ''## '' @ lit s @ [10])"

definition md_problem :: "'n show_env \<Rightarrow> 'n issue_details \<Rightarrow> ustr" where
  "md_problem env d =
     (let field = issue_field env (de_issue d); message = field ''message'';
          type = field ''error_type''; value = field ''error_value''; trace = field ''stacktrace'' in
      (if message = [] then [] else heading ''Message'' @ writeln (message @ [10])) @
      (if type = [] then []
       else heading ''Error'' @
         (if value = [] then writeln ([96] @ type @ [96, 10])
          else fenced [] (type @ lit '': '' @ value))) @
      (if trace = [] then [] else heading ''Stack trace'' @ fenced [] trace))"

definition md_event :: "event_view \<Rightarrow> ustr" where
  "md_event e =
     (let meta = vw_occurred e @
            (if vw_environment e = [] then [] else [32, 183, 32] @ vw_environment e) @
            (case vw_release e of None \<Rightarrow> [] | Some r \<Rightarrow> if r = [] then [] else [32, 183, 32] @ r) in
      writeln (lit ''### '' @ [96] @ vw_id e @ [96, 32, 8212, 32] @ meta) @ fenced (lit ''json'') (vw_payload e))"

definition md_comment :: "'n show_env \<Rightarrow> comment_line \<Rightarrow> ustr" where
  "md_comment env c =
     writeln (lit ''### '' @ cl_author c @ [32, 8212, 32] @ format_unix env (cl_created c)) @
     (if cl_deleted c \<noteq> None then writeln (lit ''_Comment removed._'' @ [10])
      else
        (if cl_updated c = None then []
         else (case cl_editor c of
             Some editor \<Rightarrow> writeln (lit ''_edited by '' @ editor @ lit ''_'')
           | None \<Rightarrow> writeln (lit ''_edited_''))) @
        writeln (cl_body c @ [10]))"

definition md_activity :: "'n show_env \<Rightarrow> activity_line \<Rightarrow> ustr" where
  "md_activity env a =
     (let details = rs_trim (al_details a) in
      lit ''- **'' @ (case al_actor a of None \<Rightarrow> lit ''System'' | Some n \<Rightarrow> n) @ lit ''** '' @ al_kind a @
      [32, 8212, 32] @ format_unix env (al_created a) @
      (if details \<noteq> [] \<and> details \<noteq> lit ''{}'' \<and> details \<noteq> lit ''null''
       then [32, 8212, 32] @ lit ''details: '' @ [96] @ details @ [96] else []) @ [10])"

definition issue_markdown :: "'n show_env \<Rightarrow> 'n issue_details \<Rightarrow> ustr" where
  "issue_markdown env d =
     md_head env d @ md_problem env d @
     (if de_events d = [] then [] else heading ''Recent events'' @ concat (map md_event (de_events d))) @
     (if de_comments d = [] then [] else heading ''Comments'' @ concat (map (md_comment env) (de_comments d))) @
     (if de_activity d = [] then []
      else heading ''Activity'' @ concat (map (md_activity env) (de_activity d)) @ writeln [])"

subsection \<open>A fence is longer than any run inside it\<close>

lemma sublist_split:
  assumes "x \<notin> set ys"
  shows "sublist ys (a @ x # b) \<longleftrightarrow> sublist ys a \<or> sublist ys b"
proof
  assume "sublist ys (a @ x # b)"
  then obtain p q where e: "a @ x # b = p @ ys @ q" by (auto simp: sublist_def)
  then consider us where "a = p @ us" "us @ x # b = ys @ q" | us where "p = a @ us" "x # b = us @ ys @ q"
    unfolding append_eq_append_conv2 by blast
  then show "sublist ys a \<or> sublist ys b"
  proof cases
    case (1 us)
    then consider vs where "us = ys @ vs" | vs where "ys = us @ vs" "x # b = vs @ q"
      unfolding append_eq_append_conv2 by blast
    then show ?thesis
    proof cases
      case (2 vs)
      then have "vs = []" using assms by (cases vs) auto
      then show ?thesis using 1(1) 2(1) by (simp add: sublist_append_leftI)
    qed (use 1(1) in \<open>auto simp: sublist_def\<close>)
  next
    case (2 us)
    show ?thesis
    proof (cases us)
      case Nil
      then have "ys = []" using 2(2) assms by (cases ys) auto
      then show ?thesis by simp
    next
      case (Cons y us')
      then have "b = us' @ ys @ q" using 2(2) by simp
      then show ?thesis by (auto simp: sublist_def)
    qed
  qed
next
  assume "sublist ys a \<or> sublist ys b"
  then obtain p q where "a = p @ ys @ q \<or> b = p @ ys @ q" by (auto simp: sublist_def)
  then have "a @ x # b = p @ ys @ (q @ x # b) \<or> a @ x # b = (a @ x # p) @ ys @ q" by auto
  then show "sublist ys (a @ x # b)" unfolding sublist_def by blast
qed

lemma sublist_replicate: "sublist (replicate n x) (replicate m x) \<longleftrightarrow> n \<le> m"
proof
  assume "sublist (replicate n x) (replicate m x)"
  then show "n \<le> m" using sublist_length_le by fastforce
next
  assume "n \<le> m"
  then have "replicate m x = replicate n x @ replicate (m - n) x" by (simp add: replicate_add [symmetric])
  then show "sublist (replicate n x) (replicate m x)" by simp
qed

lemma longest_run_iff:
  "current \<le> longest \<Longrightarrow>
   n \<le> longest_run longest current s \<longleftrightarrow> n \<le> longest \<or> sublist (replicate n 96) (replicate current 96 @ s)"
proof (induction longest current s rule: longest_run.induct)
  case (1 longest current)
  then show ?case by (auto simp: sublist_replicate)
next
  case (2 longest current c cs)
  show ?case
  proof (cases "c = 96")
    case True
    have e: "replicate current 96 @ c # cs = replicate (current + 1) 96 @ cs"
      using replicate_append_same [of current "96::nat"] True by simp
    have "sublist (replicate n 96) (replicate (current + 1) 96 @ cs)" if "n \<le> current + 1"
    proof -
      have "replicate (current + 1) (96::nat) = replicate n 96 @ replicate (current + 1 - n) 96"
        using that by (simp add: replicate_add [symmetric])
      then show ?thesis by (simp only: append_assoc sublist_append_rightI)
    qed
    then show ?thesis unfolding e using 2(1,3) True by (auto simp: le_max_iff_disj simp del: replicate_Suc)
  next
    case False
    then have "sublist (replicate n 96) (replicate current 96 @ c # cs) \<longleftrightarrow>
        n \<le> current \<or> sublist (replicate n 96) cs"
      by (subst sublist_split) (auto simp: sublist_replicate)
    then show ?thesis using 2 False by auto
  qed
qed

text \<open>The fence around a text is at least three backticks and longer than any run of backticks in it,
  and no longer than needed, so that no payload, message or stack trace can end its block early.
\<close>

lemma fence_exact:
  "\<not> sublist (fence_for s) s \<and>
   (fence_for s = replicate 3 96 \<or>
    (\<exists>n. 3 \<le> n \<and> fence_for s = replicate (n + 1) 96 \<and> sublist (replicate n 96) s))"
proof -
  let ?m = "longest_run 0 0 s"
  have run: "n \<le> ?m \<longleftrightarrow> n = 0 \<or> sublist (replicate n 96) s" for n
    using longest_run_iff [of 0 0 n s] by simp
  show ?thesis
  proof (cases "3 \<le> ?m")
    case True
    then show ?thesis using run [of "?m + 1"] run [of ?m]
      by (auto simp: fence_for_def max_def simp del: replicate_Suc)
  next
    case False
    then have "max ?m 2 + 1 = 3" by simp
    then have "fence_for s = replicate 3 96" by (simp only: fence_for_def)
    moreover have "\<not> sublist (replicate 3 96) s" using run [of 3] False by (simp del: replicate_Suc)
    ultimately show ?thesis by (simp only: simp_thms)
  qed
qed

subsection \<open>Removed comments in the export\<close>

lemma sublist_concat: "xs \<in> set xss \<Longrightarrow> sublist xs (concat xss)"
  by (auto simp: in_set_conv_decomp)

lemma sublist_in: "sublist x y \<Longrightarrow> sublist x (p @ y @ q)"
  by (rule sublist_order.order.trans [OF _ sublist_appendI])

lemma activity_exported:
  assumes "a \<in> set (activity (tables b))" "de_activity d = load_activity env names (ac_issue a) b"
  shows "sublist (md_activity env (activity_line_of env names a)) (issue_markdown env d)"
proof -
  have a: "activity_line_of env names a \<in> set (de_activity d)" using assms by (simp add: load_activity_def)
  then have "sublist (md_activity env (activity_line_of env names a)) (concat (map (md_activity env) (de_activity d)))"
    by (intro sublist_concat) simp
  moreover have "issue_markdown env d = (md_head env d @ md_problem env d @
     (if de_events d = [] then [] else heading ''Recent events'' @ concat (map md_event (de_events d))) @
     (if de_comments d = [] then [] else heading ''Comments'' @ concat (map (md_comment env) (de_comments d))) @
     heading ''Activity'') @ concat (map (md_activity env) (de_activity d)) @ writeln []"
    using a by (auto simp: issue_markdown_def)
  ultimately show ?thesis by (simp only: sublist_in)
qed

lemma details_exported:
  assumes "rs_trim x = x" "x \<noteq> []" "x \<noteq> lit ''{}''" "x \<noteq> lit ''null''" "al_details a = x"
  shows "sublist x (md_activity env a)"
proof -
  have "md_activity env a = (lit ''- **'' @ (case al_actor a of None \<Rightarrow> lit ''System'' | Some n \<Rightarrow> n) @ lit ''** '' @ al_kind a @
      [32, 8212, 32] @ format_unix env (al_created a) @ [32, 8212, 32] @ lit ''details: '' @ [96]) @ x @ [96, 10]"
    using assms by (simp add: md_activity_def)
  then show ?thesis by (simp only: sublist_appendI)
qed

text \<open>C21:
  The export shows what a comment said after it was removed: whatever happens after a comment was
  added, its removal included, the timeline of the exported issue holds the comment's text. The
  hypothesis on the text of JSON values is that an object with members is written in braces.
\<close>

lemma removed_body_exported:
  assumes braces: "\<And>m ms. \<exists>mid. mid \<noteq> [] \<and> value_string env (JObj (m # ms)) = 123 # mid @ [125]"
    and ins: "insert_comment_in_project now user slug issue body b = (Inr comment, b1)"
    and later: "board_reach ienv b1 b2"
    and d: "de_activity d = load_activity env names issue b2"
  shows "sublist (value_string env (JObj [(lit ''body'', JStr body), (lit ''comment_id'', JNum (number env comment))]))
    (issue_markdown env d)"
proof -
  let ?a = "\<lparr>ac_issue = issue, ac_user = Some user, ac_kind = CommentAdded comment body, ac_at = now\<rparr>"
  let ?x = "value_string env (JObj [(lit ''body'', JStr body), (lit ''comment_id'', JNum (number env comment))])"
  have "?a \<in> set (activity (tables b1))"
    using ins by (auto simp: insert_comment_in_project_def split: sum.splits if_splits)
  then have a: "?a \<in> set (activity (tables b2))" using set_mono_prefix [OF reach_activity [OF later]] by blast
  obtain mid where x: "?x = 123 # mid @ [125]" "mid \<noteq> []" using braces by blast
  have trim: "rs_trim ?x = ?x" unfolding rs_trim_def x(1) by (rule strip_id) (simp_all add: rs_ws_def)
  have "?x \<noteq> []" "?x \<noteq> lit ''{}''" "?x \<noteq> lit ''null''" using x(2) unfolding x(1) by (simp_all add: lit_def)
  then have "sublist ?x (md_activity env (activity_line_of env names ?a))"
    by (rule details_exported [OF trim]) (simp add: activity_line_of_def)
  moreover have "sublist (md_activity env (activity_line_of env names ?a)) (issue_markdown env d)"
    by (rule activity_exported [OF a]) (simp add: d)
  ultimately show ?thesis by (rule sublist_order.order.trans)
qed

text \<open>A comment that is added and removed again, and the export afterwards.\<close>

definition demo_board :: board where
  "demo_board = \<lparr>tables = empty_store\<lparr>projects := [(1, lit ''app'')], members := [(1, 1, lit ''developer'')],
     issues := [\<lparr>is_id = 1, is_project = 1, is_fingerprint = [], is_title = lit ''boom'', is_status = Unresolved,
       is_count = 1, is_first = 0, is_last = 0\<rparr>], issue_seq := 2\<rparr>, comments = [], comment_seq = 1\<rparr>"

definition demo_show :: "nat show_env" where
  "demo_show = \<lparr>value_string = stringify dec [], int_value = (\<lambda>n. Some (int n)), format_unix = int_text, number = nat\<rparr>"

definition demo_details :: "board \<Rightarrow> nat issue_details" where
  "demo_details b = \<lparr>de_name = lit ''App'', de_slug = lit ''app'', de_issue = JObj [], de_events = [],
     de_comments = load_comments (\<lambda>u. Some (lit ''Ada'')) 1 b, de_activity = load_activity demo_show (\<lambda>u. Some (lit ''Ada'')) 1 b\<rparr>"

lemma removed_body_exported_witness:
  "\<exists>b1 b2. insert_comment_in_project 5 1 (lit ''app'') 1 (lit ''secret'') demo_board = (Inr 1, b1) \<and>
     delete_comment_in_project [] 6 1 (lit ''app'') 1 1 b1 = (Inr (), b2) \<and>
     map cm_deleted (comments b2) = [Some 6] \<and>
     sublist (lit ''{\"body\":\"secret\",\"comment_id\":1}'') (issue_markdown demo_show (demo_details b2))"
proof -
  obtain b1 where b1: "insert_comment_in_project 5 1 (lit ''app'') 1 (lit ''secret'') demo_board = (Inr 1, b1)"
    "projects (tables b1) = [(1, lit ''app'')]" "members (tables b1) = [(1, 1, lit ''developer'')]"
    "has_issue 1 1 (tables b1)"
    "comments b1 = [\<lparr>cm_id = 1, cm_issue = 1, cm_user = 1, cm_body = lit ''secret'', cm_created = 5, cm_updated = None,
       cm_editor = None, cm_deleted = None\<rparr>]"
    by (simp add: demo_role insert_comment_in_project_def demo_board_def has_issue_def log_activity_def empty_store_def)
  have "comment_guard [] 1 (lit ''app'') 1 1 b1 = Inr ()"
    by (simp add: comment_guard_def demo_role b1 load_comment_access_def actor_role_in_project_def stored_role_def
        parse_role_def can_modify_comment_def)
  then obtain b2 where b2: "delete_comment_in_project [] 6 1 (lit ''app'') 1 1 b1 = (Inr (), b2)"
    "map cm_deleted (comments b2) = [Some 6]"
    by (simp add: delete_comment_in_project_def change_comment_def b1 write_comment_def)
  have "board_step sample_env b1 b2" by (rule board_step.api_delete) (use b2 in \<open>simp add: delete_comment_def\<close>)
  then have run: "board_reach sample_env b1 b2" by blast
  have braces: "\<exists>mid. mid \<noteq> [] \<and> value_string demo_show (JObj (m # ms)) = 123 # mid @ [125]" for m ms
    by (cases ms) (auto simp: demo_show_def stringify_def wrapped_def quote_def)
  have "value_string demo_show (JObj [(lit ''body'', JStr (lit ''secret'')), (lit ''comment_id'', JNum (number demo_show 1))]) =
      lit ''{\"body\":\"secret\",\"comment_id\":1}''"
    by (simp add: demo_show_def stringify_def wrapped_def quote_def lit_def lead_surrogate_def trail_surrogate_def
        quote_unit_def dec.simps [of "Suc 0"])
  moreover have "de_activity (demo_details b2) = load_activity demo_show (\<lambda>u. Some (lit ''Ada'')) 1 b2"
    by (simp add: demo_details_def)
  ultimately show ?thesis using removed_body_exported [OF braces b1(1) run] b1(1) b2 by metis
qed

end
