(* ===== verification/Sessions.thy ===== *)
theory Sessions
  imports Ingest Members
begin

text \<open>
  Sign-in state (\<open>src/auth.rs\<close> 151--295, \<open>src/handlers.rs\<close> 433--489, 1476--1585, 1764--1824): sessions,
  passwords and personal API tokens, and the handlers that create and revoke them. The digest, the
  password functions and the random tokens are parameters; the rows of the audit log are left out.
\<close>

subsection \<open>Tables\<close>

record session_row =
  se_id :: int
  se_hash :: ustr
  se_user :: int
  se_csrf :: ustr
  se_expires :: int

record token_row =
  tk_id :: int
  tk_user :: int
  tk_name :: ustr
  tk_prefix :: ustr
  tk_hash :: ustr
  tk_revoked :: "int option"
  tk_used :: "int option"

record vault =
  people :: "account list"
  sessions :: "session_row list"
  session_seq :: int
  api_tokens :: "token_row list"
  token_seq :: int

record auth_env =
  digest :: "nat list \<Rightarrow> ustr"
  verifies :: "ustr \<Rightarrow> ustr \<Rightarrow> bool"
  argon :: "ustr \<Rightarrow> ustr app_result"
  session_days :: int
  missing_row :: ustr
  taken :: ustr

definition token_hash :: "auth_env \<Rightarrow> ustr \<Rightarrow> ustr" where
  "token_hash env token = digest env (utf8 token)"

subsection \<open>Sessions\<close>

text \<open>The user and the CSRF token of the session a cookie names.\<close>

definition session :: "auth_env \<Rightarrow> int \<Rightarrow> ustr option \<Rightarrow> vault \<Rightarrow> (int \<times> ustr) option" where
  "session env now cookie v =
     (case cookie of
        None \<Rightarrow> None
      | Some c \<Rightarrow>
          map_option (\<lambda>s. (se_user s, se_csrf s))
            (find (\<lambda>s. se_user s \<in> a_id ` set (people v) \<and> se_hash s = token_hash env c \<and> now < se_expires s)
              (sessions v)))"

definition require_session :: "auth_env \<Rightarrow> int \<Rightarrow> ustr option \<Rightarrow> vault \<Rightarrow> (int \<times> ustr) app_result" where
  "require_session env now cookie v =
     (case session env now cookie v of None \<Rightarrow> Inl Unauthorized | Some s \<Rightarrow> Inr s)"

definition create_session :: "auth_env \<Rightarrow> int \<Rightarrow> ustr \<Rightarrow> ustr \<Rightarrow> int \<Rightarrow> vault \<Rightarrow> unit app_result \<times> vault" where
  "create_session env now token csrf user v =
     (if token_hash env token \<in> se_hash ` set (sessions v) then (Inl (Database (taken env)), v)
      else
        (Inr (),
         v\<lparr>sessions := sessions v @ [\<lparr>se_id = session_seq v, se_hash = token_hash env token, se_user = user,
              se_csrf = csrf, se_expires = now + session_days env * 86400\<rparr>],
           session_seq := session_seq v + 1\<rparr>))"

definition destroy_session :: "auth_env \<Rightarrow> ustr option \<Rightarrow> vault \<Rightarrow> vault" where
  "destroy_session env cookie v =
     (case cookie of
        None \<Rightarrow> v
      | Some c \<Rightarrow> v\<lparr>sessions := filter (\<lambda>s. se_hash s \<noteq> token_hash env c) (sessions v)\<rparr>)"

text \<open>The extractor of every handler of the interface, and its first line.\<close>

definition ui_session :: "auth_env \<Rightarrow> int \<Rightarrow> ustr option \<Rightarrow> ustr \<Rightarrow> vault \<Rightarrow> int app_result" where
  "ui_session env now cookie supplied v =
     and_then (require_session env now cookie v) (\<lambda>(user, csrf).
     and_then (check_csrf csrf supplied) (\<lambda>_. Inr user))"

definition logout :: "auth_env \<Rightarrow> int \<Rightarrow> ustr option \<Rightarrow> ustr \<Rightarrow> vault \<Rightarrow> unit app_result \<times> vault" where
  "logout env now cookie supplied v =
     (case ui_session env now cookie supplied v of
        Inl e \<Rightarrow> (Inl e, v)
      | Inr _ \<Rightarrow> (Inr (), destroy_session env cookie v))"

text \<open>The password check of \<open>login\<close> and the session it ends with; its throttle is in \<open>Throttle\<close>.\<close>

definition sign_in ::
  "auth_env \<Rightarrow> int \<Rightarrow> ustr \<Rightarrow> ustr \<Rightarrow> ustr \<Rightarrow> ustr \<Rightarrow> vault \<Rightarrow> unit app_result \<times> vault" where
  "sign_in env now email password token csrf v =
     (case find (\<lambda>a. map ascii_lower (a_email a) = map ascii_lower (rs_trim email)) (people v) of
        None \<Rightarrow> (Inl Unauthorized, v)
      | Some a \<Rightarrow>
          if \<not> verifies env password (a_password a) then (Inl Unauthorized, v)
          else create_session env now token csrf (a_id a) v)"

definition current_hash :: "auth_env \<Rightarrow> ustr option \<Rightarrow> ustr" where
  "current_hash env cookie = (case cookie of None \<Rightarrow> [] | Some c \<Rightarrow> token_hash env c)"

definition keep_current :: "int \<Rightarrow> ustr \<Rightarrow> session_row list \<Rightarrow> session_row list" where
  "keep_current user current ss = filter (\<lambda>s. \<not> (se_user s = user \<and> se_hash s \<noteq> current)) ss"

definition self_service :: "auth_env \<Rightarrow> int \<Rightarrow> ustr option \<Rightarrow> ustr \<Rightarrow> int \<Rightarrow> vault \<Rightarrow> int app_result" where
  "self_service env now cookie supplied user v =
     and_then (ui_session env now cookie supplied v) (\<lambda>actor.
     if user \<noteq> actor then Inl Forbidden else Inr actor)"

definition revoke_other_sessions ::
  "auth_env \<Rightarrow> int \<Rightarrow> ustr option \<Rightarrow> ustr \<Rightarrow> int \<Rightarrow> vault \<Rightarrow> unit app_result \<times> vault" where
  "revoke_other_sessions env now cookie supplied user v =
     (case self_service env now cookie supplied user v of
        Inl e \<Rightarrow> (Inl e, v)
      | Inr actor \<Rightarrow> (Inr (), v\<lparr>sessions := keep_current actor (current_hash env cookie) (sessions v)\<rparr>))"

definition revoke_session ::
  "auth_env \<Rightarrow> int \<Rightarrow> ustr option \<Rightarrow> ustr \<Rightarrow> int \<Rightarrow> int \<Rightarrow> vault \<Rightarrow> unit app_result \<times> vault" where
  "revoke_session env now cookie supplied user i v =
     (case self_service env now cookie supplied user v of
        Inl e \<Rightarrow> (Inl e, v)
      | Inr actor \<Rightarrow>
          (Inr (), v\<lparr>sessions := filter (\<lambda>s. \<not> (se_id s = i \<and> se_user s = actor)) (sessions v)\<rparr>))"

subsection \<open>Passwords\<close>

definition change_password ::
  "auth_env \<Rightarrow> int \<Rightarrow> ustr option \<Rightarrow> ustr \<Rightarrow> int \<Rightarrow> ustr \<Rightarrow> ustr \<Rightarrow> vault \<Rightarrow> unit app_result \<times> vault" where
  "change_password env now cookie supplied user current new v =
     (case and_then (self_service env now cookie supplied user v) (\<lambda>actor.
         (case find (\<lambda>a. a_id a = actor) (people v) of
            None \<Rightarrow> Inl (Database (missing_row env))
          | Some a \<Rightarrow>
              if \<not> verifies env current (a_password a) then Inl Unauthorized
              else and_then (hash_password (argon env) new) (\<lambda>hash. Inr (actor, hash)))) of
        Inl e \<Rightarrow> (Inl e, v)
      | Inr (actor, hash) \<Rightarrow>
          (Inr (), v\<lparr>people := map (\<lambda>a. if a_id a = actor then a\<lparr>a_password := hash\<rparr> else a) (people v),
             sessions := keep_current actor (current_hash env cookie) (sessions v)\<rparr>))"

subsection \<open>Personal tokens\<close>

definition api_token_prefix :: ustr where
  "api_token_prefix = lit ''zpat_''"

definition create_api_token ::
  "auth_env \<Rightarrow> int \<Rightarrow> ustr option \<Rightarrow> ustr \<Rightarrow> ustr \<Rightarrow> ustr \<Rightarrow> vault \<Rightarrow> ustr app_result \<times> vault" where
  "create_api_token env now cookie supplied raw random v =
     (case and_then (ui_session env now cookie supplied v) (\<lambda>actor.
         and_then (required_text (lit ''name'') raw 100) (\<lambda>name. Inr (actor, name))) of
        Inl e \<Rightarrow> (Inl e, v)
      | Inr (actor, name) \<Rightarrow>
          (let token = api_token_prefix @ random; hash = token_hash env token in
           if hash \<in> tk_hash ` set (api_tokens v) then (Inl (Database (taken env)), v)
           else
             (Inr token,
              v\<lparr>api_tokens := api_tokens v @ [\<lparr>tk_id = token_seq v, tk_user = actor, tk_name = name,
                   tk_prefix = take (length api_token_prefix + 6) token, tk_hash = hash, tk_revoked = None, tk_used = None\<rparr>],
                token_seq := token_seq v + 1\<rparr>)))"

definition revoke_api_token ::
  "auth_env \<Rightarrow> int \<Rightarrow> ustr option \<Rightarrow> ustr \<Rightarrow> int \<Rightarrow> vault \<Rightarrow> unit app_result \<times> vault" where
  "revoke_api_token env now cookie supplied i v =
     (case ui_session env now cookie supplied v of
        Inl e \<Rightarrow> (Inl e, v)
      | Inr actor \<Rightarrow>
          (Inr (), v\<lparr>api_tokens := map (\<lambda>t. if tk_id t = i \<and> tk_user t = actor \<and> tk_revoked t = None
             then t\<lparr>tk_revoked := Some now\<rparr> else t) (api_tokens v)\<rparr>))"

definition api_token_user :: "auth_env \<Rightarrow> int \<Rightarrow> ustr option \<Rightarrow> vault \<Rightarrow> int app_result \<times> vault" where
  "api_token_user env now header v =
     (case bearer header of
        Inl e \<Rightarrow> (Inl e, v)
      | Inr credential \<Rightarrow>
          if \<not> prefix api_token_prefix credential then (Inl Unauthorized, v)
          else
            (let hash = token_hash env credential in
             case find (\<lambda>t. tk_hash t = hash \<and> tk_revoked t = None) (api_tokens v) of
               None \<Rightarrow> (Inl Unauthorized, v)
             | Some t \<Rightarrow>
                 (Inr (tk_user t),
                  v\<lparr>api_tokens := map (\<lambda>t. if tk_hash t = hash then t\<lparr>tk_used := Some now\<rparr> else t) (api_tokens v)\<rparr>)))"

subsection \<open>Runs\<close>

text \<open>
  The requests of this theory, and new accounts, in any order. A step carries the account in whose
  name it is made: the user of the session, or the account whose password was given.
\<close>

definition signed_in_as :: "auth_env \<Rightarrow> ustr \<Rightarrow> ustr \<Rightarrow> vault \<Rightarrow> int option" where
  "signed_in_as env email password v =
     (case find (\<lambda>a. map ascii_lower (a_email a) = map ascii_lower (rs_trim email)) (people v) of
        None \<Rightarrow> None
      | Some a \<Rightarrow> if verifies env password (a_password a) then Some (a_id a) else None)"

abbreviation session_user :: "auth_env \<Rightarrow> int \<Rightarrow> ustr option \<Rightarrow> vault \<Rightarrow> int option" where
  "session_user env now cookie v \<equiv> map_option fst (session env now cookie v)"

inductive vault_step :: "auth_env \<Rightarrow> int option \<Rightarrow> vault \<Rightarrow> vault \<Rightarrow> bool" for env where
  login: "sign_in env now email password token csrf v = (r, v') \<Longrightarrow>
    vault_step env (signed_in_as env email password v) v v'"
| log_out: "logout env now cookie t v = (r, v') \<Longrightarrow> vault_step env (session_user env now cookie v) v v'"
| revoke_others: "revoke_other_sessions env now cookie t user v = (r, v') \<Longrightarrow>
    vault_step env (session_user env now cookie v) v v'"
| revoke_one: "revoke_session env now cookie t user i v = (r, v') \<Longrightarrow>
    vault_step env (session_user env now cookie v) v v'"
| password: "change_password env now cookie t user current new v = (r, v') \<Longrightarrow>
    vault_step env (session_user env now cookie v) v v'"
| new_token: "create_api_token env now cookie t name random v = (x, v') \<Longrightarrow>
    vault_step env (session_user env now cookie v) v v'"
| revoke_token: "revoke_api_token env now cookie t i v = (r, v') \<Longrightarrow>
    vault_step env (session_user env now cookie v) v v'"
| use_token: "api_token_user env now header v = (y, v') \<Longrightarrow> vault_step env None v v'"
| join: "a_id a \<notin> a_id ` set (people v) \<Longrightarrow> vault_step env None v (v\<lparr>people := people v @ [a]\<rparr>)"

definition empty_vault :: vault where
  "empty_vault = \<lparr>people = [], sessions = [], session_seq = 1, api_tokens = [], token_seq = 1\<rparr>"

definition vault_ok :: "vault \<Rightarrow> bool" where
  "vault_ok v \<longleftrightarrow>
     distinct (map se_hash (sessions v)) \<and> (\<forall>s \<in> set (sessions v). se_id s < session_seq v) \<and>
     distinct (map tk_hash (api_tokens v))"

subsection \<open>What a step may change\<close>

definition sessions_change :: "vault \<Rightarrow> vault \<Rightarrow> bool" where
  "sessions_change v v' \<longleftrightarrow>
     (session_seq v' = session_seq v \<and> (\<exists>P. sessions v' = filter P (sessions v))) \<or>
     (session_seq v' = session_seq v + 1 \<and>
      (\<exists>s. sessions v' = sessions v @ [s] \<and> se_id s = session_seq v \<and> se_hash s \<notin> se_hash ` set (sessions v)))"

definition token_later :: "token_row \<Rightarrow> token_row \<Rightarrow> bool" where
  "token_later t t' \<longleftrightarrow> tk_id t' = tk_id t \<and> tk_user t' = tk_user t \<and> tk_hash t' = tk_hash t \<and>
     (tk_revoked t \<noteq> None \<longrightarrow> tk_revoked t' = tk_revoked t)"

definition tokens_change :: "vault \<Rightarrow> vault \<Rightarrow> bool" where
  "tokens_change v v' \<longleftrightarrow>
     (\<exists>f. api_tokens v' = map f (api_tokens v) \<and> (\<forall>t. token_later t (f t))) \<or>
     (\<exists>t. api_tokens v' = api_tokens v @ [t] \<and> tk_hash t \<notin> tk_hash ` set (api_tokens v))"

lemma sessions_drop: "sessions v' = filter P (sessions v) \<Longrightarrow> session_seq v' = session_seq v \<Longrightarrow> sessions_change v v'"
  by (auto simp: sessions_change_def)

lemma sessions_same: "sessions v' = sessions v \<Longrightarrow> session_seq v' = session_seq v \<Longrightarrow> sessions_change v v'"
  by (rule sessions_drop [where P = "\<lambda>s. True"]) simp_all

lemma tokens_map: "api_tokens v' = map f (api_tokens v) \<Longrightarrow> (\<And>t. token_later t (f t)) \<Longrightarrow> tokens_change v v'"
  by (auto simp: tokens_change_def)

lemma tokens_same: "api_tokens v' = api_tokens v \<Longrightarrow> tokens_change v v'"
  by (rule tokens_map [where f = "\<lambda>t. t"]) (simp_all add: token_later_def)

lemma tokens_add:
  "api_tokens v' = api_tokens v @ [t] \<Longrightarrow> tk_hash t \<notin> tk_hash ` set (api_tokens v) \<Longrightarrow> tokens_change v v'"
  by (simp add: tokens_change_def)

lemmas vault_same = sessions_same tokens_same

lemma step_changes: "vault_step env actor v v' \<Longrightarrow> sessions_change v v' \<and> tokens_change v v'"
proof (induction rule: vault_step.induct)
  case (login now email password token csrf v r v')
  have "v' = v \<or> (\<exists>s. sessions v' = sessions v @ [s] \<and> se_id s = session_seq v \<and> session_seq v' = session_seq v + 1 \<and>
      se_hash s \<notin> se_hash ` set (sessions v) \<and> api_tokens v' = api_tokens v)"
    using login by (auto simp: sign_in_def create_session_def split: option.splits if_splits)
  then show ?case by (auto simp: vault_same) (simp_all add: sessions_change_def tokens_same)
next
  case (log_out now cookie t v r v')
  then show ?case
    by (auto simp: logout_def destroy_session_def vault_same split: sum.splits option.splits intro: sessions_drop tokens_same)
next
  case (revoke_others now cookie t user v r v')
  then show ?case
    by (auto simp: revoke_other_sessions_def keep_current_def vault_same split: sum.splits intro: sessions_drop tokens_same)
next
  case (revoke_one now cookie t user i v r v')
  then show ?case
    by (auto simp: revoke_session_def vault_same split: sum.splits intro: sessions_drop tokens_same)
next
  case (password now cookie t user current new v r v')
  then show ?case
    by (auto simp: change_password_def keep_current_def vault_same split: sum.splits intro: sessions_drop tokens_same)
next
  case (new_token now cookie t name random v x v')
  have "v' = v \<or> (\<exists>t. api_tokens v' = api_tokens v @ [t] \<and> tk_hash t \<notin> tk_hash ` set (api_tokens v) \<and>
      sessions v' = sessions v \<and> session_seq v' = session_seq v)"
    using new_token by (auto simp: create_api_token_def Let_def split: sum.splits if_splits)
  then show ?case by (elim disjE exE conjE) (simp_all add: vault_same tokens_add)
next
  case (revoke_token now cookie t i v r v')
  show ?case
  proof (cases "ui_session env now cookie t v")
    case (Inr u)
    then have v': "v' = v\<lparr>api_tokens := map (\<lambda>t. if tk_id t = i \<and> tk_user t = u \<and> tk_revoked t = None
        then t\<lparr>tk_revoked := Some now\<rparr> else t) (api_tokens v)\<rparr>"
      using revoke_token by (simp add: revoke_api_token_def)
    then have "api_tokens v' = map (\<lambda>t. if tk_id t = i \<and> tk_user t = u \<and> tk_revoked t = None
        then t\<lparr>tk_revoked := Some now\<rparr> else t) (api_tokens v)" by simp
    from tokens_map [OF this] show ?thesis by (simp add: v' sessions_same token_later_def)
  qed (use revoke_token in \<open>simp add: revoke_api_token_def vault_same\<close>)
next
  case (use_token now header v y v')
  show ?case
  proof (cases "v' = v")
    case False
    then obtain credential where c: "bearer header = Inr credential"
      using use_token by (cases "bearer header") (auto simp: api_token_user_def)
    let ?f = "\<lambda>t. if tk_hash t = token_hash env credential then t\<lparr>tk_used := Some now\<rparr> else t"
    have v': "v' = v\<lparr>api_tokens := map ?f (api_tokens v)\<rparr>"
      using use_token False by (auto simp: api_token_user_def c Let_def split: option.splits if_splits)
    then have "api_tokens v' = map ?f (api_tokens v)" by simp
    from tokens_map [OF this] show ?thesis by (simp add: v' sessions_same token_later_def)
  qed (simp add: vault_same)
qed (simp add: vault_same)

lemma changes_ok: "sessions_change v v' \<Longrightarrow> tokens_change v v' \<Longrightarrow> vault_ok v \<Longrightarrow> vault_ok v'"
proof -
  assume "sessions_change v v'" "tokens_change v v'" and ok: "vault_ok v"
  then have "distinct (map se_hash (sessions v')) \<and> (\<forall>s \<in> set (sessions v'). se_id s < session_seq v')"
    by (auto simp: sessions_change_def vault_ok_def distinct_map_filter) force+
  moreover have "distinct (map tk_hash (api_tokens v'))"
    using \<open>tokens_change v v'\<close> ok by (auto simp: tokens_change_def vault_ok_def token_later_def comp_def)
  ultimately show "vault_ok v'" by (simp add: vault_ok_def)
qed

definition some_step :: "auth_env \<Rightarrow> vault \<Rightarrow> vault \<Rightarrow> bool" where
  "some_step env v v' \<longleftrightarrow> (\<exists>actor. vault_step env actor v v')"

interpretation vaults: machine "some_step env" vault_ok
  by unfold_locales (auto simp: some_step_def dest: step_changes intro: changes_ok)

abbreviation vault_reach :: "auth_env \<Rightarrow> vault \<Rightarrow> vault \<Rightarrow> bool" where
  "vault_reach env \<equiv> (some_step env)\<^sup>*\<^sup>*"

lemma empty_vault_ok: "vault_ok empty_vault"
  by (simp add: vault_ok_def empty_vault_def)

lemma reached_vault_ok: "vault_reach env empty_vault v \<Longrightarrow> vault_ok v"
  using vaults.runs empty_vault_ok by blast

subsection \<open>Revocation is final\<close>

lemma sessions_later:
  "vault_reach env v v' \<Longrightarrow> session_seq v \<le> session_seq v' \<and>
    (\<forall>s \<in> set (sessions v'). se_id s < session_seq v \<longrightarrow> s \<in> set (sessions v))"
proof (induction rule: rtranclp_induct)
  case (step x y)
  then have "sessions_change x y" using step_changes by (auto simp: some_step_def)
  then show ?case using step.IH by (auto simp: sessions_change_def)
qed simp

lemma tokens_later:
  "vault_reach env v v' \<Longrightarrow> t \<in> set (api_tokens v) \<Longrightarrow> \<exists>t' \<in> set (api_tokens v'). token_later t t'"
proof (induction rule: rtranclp_induct)
  case base
  then show ?case by (auto simp: token_later_def)
next
  case (step x y)
  then have "tokens_change x y" using step_changes by (auto simp: some_step_def)
  then show ?case using step.IH [OF step.prems] by (fastforce simp: tokens_change_def token_later_def)
qed

text \<open>Sessions only end: a cookie that opens a session later either opened a session row of the same
  user, with the same last moment, that was there all the time, or was issued since. So a session
  that was logged out or revoked stays closed, and none is ever prolonged.
\<close>

lemma sessions_only_end:
  assumes "vault_reach env v v'" and "session env now (Some c) v' = Some (u, x)"
  shows "\<exists>s \<in> set (sessions v'). se_hash s = token_hash env c \<and> se_user s = u \<and> now < se_expires s \<and>
    (s \<in> set (sessions v) \<or> session_seq v \<le> se_id s)"
proof -
  obtain s where s: "s \<in> set (sessions v')" "se_hash s = token_hash env c" "se_user s = u" "now < se_expires s"
    using assms(2) by (auto simp: session_def dest!: find_SomeD)
  then have "s \<in> set (sessions v) \<or> session_seq v \<le> se_id s"
    using sessions_later [OF assms(1)] by (meson not_le)
  with s show ?thesis by blast
qed

text \<open>A revoked token is refused for ever, whoever presents it and whatever happens in between.
\<close>

lemma revoked_token_refused:
  assumes "vault_reach env empty_vault v" "vault_reach env v v'"
    and t: "t \<in> set (api_tokens v)" "tk_revoked t \<noteq> None"
    and h: "bearer header = Inr credential" "token_hash env credential = tk_hash t"
  shows "api_token_user env now header v' = (Inl Unauthorized, v')"
proof -
  obtain t' where t': "t' \<in> set (api_tokens v')" "token_later t t'" using tokens_later [OF assms(2) t(1)] by blast
  have ok: "vault_ok v'" using reached_vault_ok [OF assms(1)] vaults.runs [OF assms(2)] by blast
  have "x = t'" if "x \<in> set (api_tokens v')" "tk_hash x = tk_hash t" for x
    using ok that t' by (auto simp: vault_ok_def token_later_def distinct_map inj_on_def)
  then have "find (\<lambda>x. tk_hash x = tk_hash t \<and> tk_revoked x = None) (api_tokens v') = None"
    using t' t(2) by (auto simp: find_None_iff token_later_def)
  then show ?thesis by (simp add: api_token_user_def h)
qed

subsection \<open>Credentials are self-service\<close>

text \<open>The sessions, the password and the tokens of an account.\<close>

definition own ::
  "int \<Rightarrow> vault \<Rightarrow> session_row list \<times> ustr list \<times> (int \<times> ustr \<times> int option) list" where
  "own w v =
     (filter (\<lambda>s. se_user s = w) (sessions v),
      map a_password (filter (\<lambda>a. a_id a = w) (people v)),
      map (\<lambda>t. (tk_id t, tk_hash t, tk_revoked t)) (filter (\<lambda>t. tk_user t = w) (api_tokens v)))"

lemma ui_session_user: "ui_session env now cookie t v = Inr u \<Longrightarrow> session_user env now cookie v = Some u"
  by (auto simp: ui_session_def require_session_def and_then_Inr_iff split: option.splits)

lemma self_service_user: "self_service env now cookie t user v = Inr u \<Longrightarrow> session_user env now cookie v = Some u \<and> user = u"
  by (auto simp: self_service_def and_then_Inr_iff split: if_splits dest: ui_session_user)

lemma session_row:
  assumes "session_user env now cookie v = Some u"
  obtains c s where "cookie = Some c" "s \<in> set (sessions v)" "se_hash s = token_hash env c" "se_user s = u"
  using assms by (auto simp: session_def split: option.splits dest!: find_SomeD)

lemma keep_current_others: "w \<noteq> u \<Longrightarrow> filter (\<lambda>s. se_user s = w) (keep_current u h ss) = filter (\<lambda>s. se_user s = w) ss"
  by (induction ss) (auto simp: keep_current_def)

lemma filter_drop_others:
  "(\<And>s. s \<in> set ss \<Longrightarrow> \<not> P s \<Longrightarrow> se_user s \<noteq> w) \<Longrightarrow> filter (\<lambda>s. se_user s = w) (filter P ss) = filter (\<lambda>s. se_user s = w) ss"
  by (induction ss) auto

lemma revoked_others:
  "w \<noteq> u \<Longrightarrow> own w (v\<lparr>sessions := filter (\<lambda>s. \<not> (se_id s = i \<and> se_user s = u)) (sessions v)\<rparr>) = own w v"
  using filter_drop_others [of "sessions v" "\<lambda>s. \<not> (se_id s = i \<and> se_user s = u)" w]
  by (auto simp: own_def simp del: filter_filter)

lemma passwords_others:
  "w \<noteq> u \<Longrightarrow> map a_password (filter (\<lambda>a. a_id a = w) (map (\<lambda>a. if a_id a = u then a\<lparr>a_password := h\<rparr> else a) ps)) =
     map a_password (filter (\<lambda>a. a_id a = w) ps)"
  by (induction ps) auto

lemma tokens_others:
  "w \<noteq> u \<Longrightarrow> map (\<lambda>t. (tk_id t, tk_hash t, tk_revoked t)) (filter (\<lambda>t. tk_user t = w)
       (map (\<lambda>t. if tk_id t = i \<and> tk_user t = u \<and> tk_revoked t = None then t\<lparr>tk_revoked := r\<rparr> else t) ts)) =
     map (\<lambda>t. (tk_id t, tk_hash t, tk_revoked t)) (filter (\<lambda>t. tk_user t = w) ts)"
  by (induction ts) auto

lemma tokens_used:
  "map (\<lambda>t. (tk_id t, tk_hash t, tk_revoked t)) (filter (\<lambda>t. tk_user t = w)
       (map (\<lambda>t. if tk_hash t = h then t\<lparr>tk_used := r\<rparr> else t) ts)) =
     map (\<lambda>t. (tk_id t, tk_hash t, tk_revoked t)) (filter (\<lambda>t. tk_user t = w) ts)"
  by (induction ts) auto

lemma logout_others:
  assumes ok: "vault_ok v" and l: "logout env now cookie t v = (r, v')" and w: "session_user env now cookie v \<noteq> Some w"
  shows "own w v' = own w v"
proof (cases "ui_session env now cookie t v")
  case (Inr u)
  note su = ui_session_user [OF Inr]
  obtain c s where c: "cookie = Some c" "s \<in> set (sessions v)" "se_hash s = token_hash env c" "se_user s = u"
    by (rule session_row [OF su])
  have "se_user x \<noteq> w" if "x \<in> set (sessions v)" "\<not> se_hash x \<noteq> token_hash env c" for x
  proof -
    have "x = s" using ok c that by (auto simp: vault_ok_def distinct_map inj_on_def)
    moreover have "u \<noteq> w" using su w by metis
    ultimately show ?thesis using c(4) by simp
  qed
  then have "filter (\<lambda>s. se_user s = w) (filter (\<lambda>s. se_hash s \<noteq> token_hash env c) (sessions v)) =
      filter (\<lambda>s. se_user s = w) (sessions v)" by (rule filter_drop_others)
  then show ?thesis using l by (auto simp: logout_def Inr [unfolded c(1)] destroy_session_def c(1) own_def)
qed (use l in \<open>simp add: logout_def\<close>)

text \<open>C10:
  Nobody but its owner touches an account's credentials: a request in the name of another account,
  or of none, leaves its sessions, its password and its tokens as they are.
\<close>

lemma credentials_self_service:
  assumes "vault_reach env empty_vault v" and s: "vault_step env actor v v'"
    and w: "w \<in> a_id ` set (people v)" "actor \<noteq> Some w"
  shows "own w v' = own w v"
  using s w reached_vault_ok [OF assms(1)]
proof (induction rule: vault_step.induct)
  case (login now email password token csrf v r v')
  then show ?case
    by (auto simp: sign_in_def signed_in_as_def create_session_def own_def split: option.splits if_splits)
next
  case (log_out now cookie t v r v')
  show ?case by (rule logout_others [OF log_out(4,1,3)])
next
  case (revoke_others now cookie t user v r v')
  then show ?case
    by (auto simp: revoke_other_sessions_def own_def keep_current_others split: sum.splits dest: self_service_user)
next
  case (revoke_one now cookie t user i v r v')
  show ?case
  proof (cases "self_service env now cookie t user v")
    case (Inr u)
    then have "w \<noteq> u" using revoke_one(3) self_service_user by metis
    then show ?thesis using revoke_one(1) revoked_others by (auto simp: revoke_session_def Inr)
  qed (use revoke_one(1) in \<open>simp add: revoke_session_def\<close>)
next
  case (password now cookie t user current new v r v')
  then show ?case
    by (auto simp: change_password_def own_def keep_current_others passwords_others and_then_Inr_iff
        split: sum.splits option.splits if_splits dest!: self_service_user)
next
  case (new_token now cookie t name random v x v')
  then show ?case
    by (auto simp: create_api_token_def Let_def own_def and_then_Inr_iff split: sum.splits if_splits dest!: ui_session_user)
next
  case (revoke_token now cookie t i v r v')
  then show ?case
    by (auto simp: revoke_api_token_def own_def tokens_others split: sum.splits dest: ui_session_user)
next
  case (use_token now header v y v')
  then show ?case
    by (auto simp: api_token_user_def Let_def own_def tokens_used split: sum.splits option.splits if_splits)
qed (auto simp: own_def)

subsection \<open>A new password\<close>

lemma find_filter: "(\<And>x. x \<in> set xs \<Longrightarrow> P x \<Longrightarrow> Q x) \<Longrightarrow> find P (filter Q xs) = find P xs"
  by (induction xs) auto

text \<open>C33:
  A new password is stored for the account of the session alone and has 12 to 1024 characters; the
  session that set it stays open, every other session of the account is closed, and the account's
  API tokens stay in force.
\<close>

lemma password_change_evicts:
  assumes "change_password env now (Some c) t user current new v = (Inr (), v')"
  shows "session_user env now (Some c) v = Some user \<and>
    (\<exists>hash. argon env new = Inr hash \<and> 12 \<le> length new \<and> length new \<le> 1024 \<and>
      people v' = map (\<lambda>a. if a_id a = user then a\<lparr>a_password := hash\<rparr> else a) (people v)) \<and>
    session env now (Some c) v' = session env now (Some c) v \<and>
    (\<forall>later d. session_user env later (Some d) v' = Some user \<longrightarrow> token_hash env d = token_hash env c) \<and>
    api_tokens v' = api_tokens v"
proof -
  let ?h = "token_hash env c"
  obtain a hash where u: "self_service env now (Some c) t user v = Inr user"
    and hash: "hash_password (argon env) new = Inr hash"
    and v': "v' = v\<lparr>people := map (\<lambda>a. if a_id a = user then a\<lparr>a_password := hash\<rparr> else a) (people v),
      sessions := keep_current user ?h (sessions v)\<rparr>"
    using assms by (auto simp: change_password_def current_hash_def and_then_Inr_iff
        split: sum.splits option.splits if_splits dest: self_service_user)
  have "map a_id (people v') = map a_id (people v)" by (simp add: v')
  then have ids: "a_id ` set (people v') = a_id ` set (people v)" by (metis set_map)
  show ?thesis
  proof (intro conjI exI [of _ hash] allI impI)
    show "session_user env now (Some c) v = Some user" using self_service_user [OF u] by blast
    show "argon env new = Inr hash" "12 \<le> length new" "length new \<le> 1024"
      using hash by (auto simp: hash_password_def split: if_splits)
    show "session env now (Some c) v' = session env now (Some c) v"
      unfolding session_def ids by (simp add: v' keep_current_def) (subst find_filter, auto)
    show "token_hash env d = ?h" if m: "session_user env later (Some d) v' = Some user" for later d
    proof -
      obtain e s where "Some d = Some e" "s \<in> set (sessions v')" "se_hash s = token_hash env e" "se_user s = user"
        by (rule session_row [OF m])
      then show ?thesis by (simp add: v' keep_current_def)
    qed
  qed (simp_all add: v')
qed

subsection \<open>A run\<close>

definition demo_auth :: auth_env where
  "demo_auth = \<lparr>digest = (\<lambda>b. b), verifies = (\<lambda>p h. p = h), argon = Inr, session_days = 1, missing_row = [], taken = []\<rparr>"

definition demo_account :: "int \<Rightarrow> string \<Rightarrow> account" where
  "demo_account i e = \<lparr>a_id = i, a_email = lit e, a_name = lit e, a_password = lit ''correct horse''\<rparr>"

definition demo_sessions :: "session_row list" where
  "demo_sessions = [\<lparr>se_id = 1, se_hash = lit ''s'', se_user = 1, se_csrf = lit ''t'', se_expires = 86400\<rparr>]"

definition demo_vault :: "token_row list \<Rightarrow> vault" where
  "demo_vault ts = \<lparr>people = [demo_account 1 ''a@x'', demo_account 2 ''b@x''], sessions = demo_sessions, session_seq = 2,
     api_tokens = ts, token_seq = 1 + int (length ts)\<rparr>"

definition demo_token :: "int option \<Rightarrow> token_row" where
  "demo_token revoked = \<lparr>tk_id = 1, tk_user = 1, tk_name = lit ''ci'', tk_prefix = lit ''zpat_r'', tk_hash = lit ''zpat_r'',
     tk_revoked = revoked, tk_used = None\<rparr>"

lemmas text_eval = lit_def rs_trim_def strip_def strip_start_def strip_end_def rs_ws_def char_class_defs utf8_char_def

lemma demo_session: "session demo_auth 5 (Some (lit ''s'')) (demo_vault ts) = Some (1, lit ''t'')"
  by (simp add: session_def demo_vault_def demo_sessions_def demo_account_def token_hash_def demo_auth_def lit_def utf8_char_def)

lemma demo_ui: "ui_session demo_auth 5 (Some (lit ''s'')) (lit ''t'') (demo_vault ts) = Inr 1"
  by (simp add: ui_session_def require_session_def demo_session check_csrf_def secure_eq_def)

lemma reach_more: "vault_reach env v w \<Longrightarrow> vault_step env actor w x \<Longrightarrow> vault_reach env v x"
  by (rule rtranclp.rtrancl_into_rtrancl) (auto simp: some_step_def)

lemma demo_reach: "vault_reach demo_auth empty_vault (demo_vault [demo_token (Some 5)])"
proof -
  let ?a = "demo_account 1 ''a@x''" and ?b = "demo_account 2 ''b@x''" and ?s = "Some (lit ''s'')"
  let ?v1 = "empty_vault\<lparr>people := [?a]\<rparr>" and ?v2 = "empty_vault\<lparr>people := [?a, ?b]\<rparr>"
  have "vault_step demo_auth None empty_vault ?v1" "vault_step demo_auth None ?v1 ?v2"
    using vault_step.join [of ?a empty_vault demo_auth] vault_step.join [of ?b ?v1 demo_auth]
    by (simp_all add: empty_vault_def demo_account_def)
  then have two: "vault_reach demo_auth empty_vault ?v2"
    by (blast intro: reach_more)
  have "sign_in demo_auth 0 (lit ''a@x'') (lit ''correct horse'') (lit ''s'') (lit ''t'') ?v2 = (Inr (), demo_vault [])"
    by (simp add: sign_in_def create_session_def empty_vault_def demo_vault_def demo_sessions_def demo_account_def
        token_hash_def demo_auth_def text_eval)
  from reach_more [OF two vault_step.login [OF this]] have r1: "vault_reach demo_auth empty_vault (demo_vault [])" .
  have name: "required_text (lit ''name'') (lit ''ci'') 100 = Inr (lit ''ci'')"
    by (simp add: required_text_def text_eval)
  have token: "api_token_prefix @ lit ''r'' = lit ''zpat_r''" "length api_token_prefix = 5"
    by (simp_all add: api_token_prefix_def lit_def)
  have hash: "token_hash demo_auth (lit ''zpat_r'') = lit ''zpat_r''" "take 11 (lit ''zpat_r'') = lit ''zpat_r''"
    by (simp_all add: token_hash_def demo_auth_def text_eval)
  have "create_api_token demo_auth 5 ?s (lit ''t'') (lit ''ci'') (lit ''r'') (demo_vault []) =
      (Inr (lit ''zpat_r''), demo_vault [demo_token None])"
    unfolding create_api_token_def demo_ui and_then.simps name Let_def token sum.case prod.case hash
    by (simp add: hash) (simp add: demo_vault_def demo_token_def)
  from reach_more [OF r1 vault_step.new_token [OF this]] have r2: "vault_reach demo_auth empty_vault (demo_vault [demo_token None])" .
  have "revoke_api_token demo_auth 5 ?s (lit ''t'') 1 (demo_vault [demo_token None]) =
      (Inr (), demo_vault [demo_token (Some 5)])"
    by (simp add: revoke_api_token_def demo_ui) (simp add: demo_vault_def demo_token_def)
  from reach_more [OF r2 vault_step.revoke_token [OF this]] show ?thesis .
qed

lemma sessions_only_end_witness:
  "session demo_auth 5 (Some (lit ''s'')) (demo_vault [demo_token (Some 5)]) = Some (1, lit ''t'') \<and>
   (\<exists>s \<in> set (sessions (demo_vault [demo_token (Some 5)])). se_user s = 1 \<and> 5 < se_expires s)"
  using sessions_only_end [OF demo_reach demo_session] demo_session by blast

lemma revoked_token_refused_witness:
  "fst (api_token_user demo_auth 9 (Some (lit ''Bearer zpat_r'')) (demo_vault [demo_token (Some 5)])) = Inl Unauthorized"
proof -
  have "bearer (Some (lit ''Bearer zpat_r'')) = Inr (lit ''zpat_r'')" by (simp add: bearer_def text_eval)
  moreover have "token_hash demo_auth (lit ''zpat_r'') = tk_hash (demo_token (Some 5))"
    by (simp add: token_hash_def demo_auth_def demo_token_def text_eval)
  ultimately show ?thesis
    using revoked_token_refused [OF demo_reach rtranclp.rtrancl_refl, of "demo_token (Some 5)"]
    by (simp add: demo_vault_def demo_token_def)
qed

lemma credentials_self_service_witness:
  "\<exists>v'. revoke_other_sessions demo_auth 5 (Some (lit ''s'')) (lit ''t'') 1 (demo_vault [demo_token (Some 5)]) = (Inr (), v') \<and>
     own 2 v' = own 2 (demo_vault [demo_token (Some 5)])"
proof -
  let ?v = "demo_vault [demo_token (Some 5)]"
  obtain v' where v': "revoke_other_sessions demo_auth 5 (Some (lit ''s'')) (lit ''t'') 1 ?v = (Inr (), v')"
    by (simp add: revoke_other_sessions_def self_service_def demo_ui)
  have "own 2 v' = own 2 ?v"
    by (rule credentials_self_service [OF demo_reach vault_step.revoke_others [OF v']])
      (simp_all add: demo_session, simp add: demo_vault_def demo_account_def)
  then show ?thesis using v' by blast
qed

lemma password_change_evicts_witness:
  "\<exists>v'. change_password demo_auth 5 (Some (lit ''s'')) (lit ''t'') 1 (lit ''correct horse'') (lit ''battery staple'')
       (demo_vault []) = (Inr (), v') \<and>
     session demo_auth 5 (Some (lit ''s'')) v' = Some (1, lit ''t'') \<and> map a_password (people v') \<noteq> []"
proof -
  have "hash_password (argon demo_auth) (lit ''battery staple'') = Inr (lit ''battery staple'')"
    by (simp add: hash_password_def demo_auth_def lit_def)
  then obtain v' where v': "change_password demo_auth 5 (Some (lit ''s'')) (lit ''t'') 1 (lit ''correct horse'')
      (lit ''battery staple'') (demo_vault []) = (Inr (), v')"
    by (simp add: change_password_def self_service_def demo_ui)
      (simp add: demo_vault_def demo_account_def demo_auth_def)
  have "people v' \<noteq> []" using password_change_evicts [OF v'] by (auto simp: demo_vault_def)
  then show ?thesis using password_change_evicts [OF v'] v' by (auto simp: demo_session)
qed

end
