(* ===== verification/Spool.thy ===== *)
theory Spool
  imports RustString "HOL-Library.List_Lexorder"
begin

text \<open>
  The disk spool of the SDK (\<open>Spool\<close> of \<open>crates/zbierak-sdk/src/lib.rs\<close>): a directory of event files
  whose names sort by time, and a bound on their total size. What the file system answers to the calls
  of one operation is the record \<open>disk\<close>; reading and writing events as JSON is a parameter. Each
  operation holds the lock of the spool, so it is one step.
\<close>

subsection \<open>The directory\<close>

type_synonym spool_file = "ustr \<times> nat list"

text \<open>\<open>None\<close> is a directory that does not exist.\<close>

type_synonym dir = "spool_file list option"

record disk =
  write_fault :: "(ustr \<times> nat list option) option"
  rename_fault :: "ustr option"
  list_fault :: "ustr option"
  stat_fault :: "ustr \<Rightarrow> ustr option"
  read_fault :: "ustr \<Rightarrow> ustr option"
  remove_fault :: "ustr \<Rightarrow> ustr option"
  not_found :: ustr

definition files :: "dir \<Rightarrow> spool_file list" where
  "files d = (case d of None \<Rightarrow> [] | Some fs \<Rightarrow> fs)"

definition drop_file :: "ustr \<Rightarrow> spool_file list \<Rightarrow> spool_file list" where
  "drop_file name fs = filter (\<lambda>f. fst f \<noteq> name) fs"

definition put_file :: "ustr \<Rightarrow> nat list \<Rightarrow> spool_file list \<Rightarrow> spool_file list" where
  "put_file name bytes fs = (name, bytes) # drop_file name fs"

definition remove_file :: "disk \<Rightarrow> ustr \<Rightarrow> dir \<Rightarrow> (ustr + unit) \<times> dir" where
  "remove_file io name d =
     (case remove_fault io name of
        Some x \<Rightarrow> (Inl x, d)
      | None \<Rightarrow>
          if name \<in> set (map fst (files d)) then (Inr (), map_option (drop_file name) d)
          else (Inl (not_found io), d))"

text \<open>\<open>Path::extension\<close>: what follows the last dot, unless the name starts with its only dot.\<close>

definition extension :: "ustr \<Rightarrow> ustr option" where
  "extension name =
     (let rest = dropWhile (\<lambda>c. c \<noteq> 46) (rev name) in
      if length rest \<le> 1 then None else Some (rev (takeWhile (\<lambda>c. c \<noteq> 46) (rev name))))"

definition is_json :: "ustr \<Rightarrow> bool" where
  "is_json name \<longleftrightarrow> extension name = Some (lit ''json'')"

definition paths :: "disk \<Rightarrow> dir \<Rightarrow> ustr + ustr list" where
  "paths io d =
     (case d of
        None \<Rightarrow> Inr []
      | Some fs \<Rightarrow>
          (case list_fault io of
             Some x \<Rightarrow> Inl x
           | None \<Rightarrow> Inr (sort (filter is_json (map fst fs)))))"

definition spool_len :: "disk \<Rightarrow> dir \<Rightarrow> ustr + nat" where
  "spool_len io d = map_sum id length (paths io d)"

text \<open>\<open>Spool::new\<close> creates the directory only when spooling is enabled; \<open>create_fault\<close> is the failure of
  \<open>create_dir_all\<close>.\<close>

definition spool_new :: "ustr option \<Rightarrow> nat \<Rightarrow> dir \<Rightarrow> ustr + dir" where
  "spool_new create_fault max_bytes d =
     (if max_bytes = 0 then Inr d
      else case create_fault of Some x \<Rightarrow> Inl x | None \<Rightarrow> Inr (Some (files d)))"

subsection \<open>Storing an event\<close>

record 'e codec =
  to_vec :: "'e \<Rightarrow> ustr + nat list"
  of_slice :: "nat list \<Rightarrow> 'e option"

datatype spool_error = Disabled | EventTooLarge | Serialize ustr | SpoolIo ustr

definition pad20 :: "nat \<Rightarrow> ustr" where
  "pad20 n = replicate (20 - length (dec n)) 48 @ dec n"

definition spool_stem :: "nat \<Rightarrow> nat \<Rightarrow> ustr \<Rightarrow> ustr" where
  "spool_stem timestamp sequence uuid = pad20 timestamp @ [45] @ pad20 sequence @ [45] @ uuid"

definition spool_name :: "nat \<Rightarrow> nat \<Rightarrow> ustr \<Rightarrow> ustr" where
  "spool_name timestamp sequence uuid = spool_stem timestamp sequence uuid @ lit ''.json''"

definition temporary_name :: "nat \<Rightarrow> nat \<Rightarrow> ustr \<Rightarrow> ustr" where
  "temporary_name timestamp sequence uuid = spool_stem timestamp sequence uuid @ lit ''.tmp''"

fun sizes :: "disk \<Rightarrow> spool_file list \<Rightarrow> ustr list \<Rightarrow> ustr + (ustr \<times> nat) list" where
  "sizes io fs [] = Inr []"
| "sizes io fs (p # ps) =
     (case stat_fault io p of
        Some x \<Rightarrow> Inl x
      | None \<Rightarrow>
          (case map_of fs p of
             None \<Rightarrow> Inl (not_found io)
           | Some bytes \<Rightarrow> map_sum id (Cons (p, length bytes)) (sizes io fs ps)))"

fun evict :: "disk \<Rightarrow> nat \<Rightarrow> nat \<Rightarrow> (ustr \<times> nat) list \<Rightarrow> dir \<Rightarrow> (ustr + unit) \<times> dir" where
  "evict io max_bytes tot [] d = (Inr (), d)"
| "evict io max_bytes tot ((path, n) # rest) d =
     (if tot \<le> max_bytes then (Inr (), d)
      else case remove_file io path d of
             (Inl x, d) \<Rightarrow> (Inl x, d)
           | (Inr _, d) \<Rightarrow> evict io max_bytes (tot - n) rest d)"

definition enforce_bound :: "disk \<Rightarrow> nat \<Rightarrow> dir \<Rightarrow> (ustr + unit) \<times> dir" where
  "enforce_bound io max_bytes d =
     (case paths io d of
        Inl x \<Rightarrow> (Inl x, d)
      | Inr ps \<Rightarrow>
          (case sizes io (files d) ps of
             Inl x \<Rightarrow> (Inl x, d)
           | Inr sized \<Rightarrow> evict io max_bytes (sum_list (map snd sized)) sized d))"

text \<open>The file is written under a temporary name and renamed; then the oldest files make room.\<close>

definition write_event :: "disk \<Rightarrow> nat \<Rightarrow> ustr \<Rightarrow> ustr \<Rightarrow> nat list \<Rightarrow> dir \<Rightarrow> (ustr + unit) \<times> dir" where
  "write_event io max_bytes name temporary bytes d =
     (case d of
        None \<Rightarrow> (Inl (not_found io), None)
      | Some fs \<Rightarrow>
          (case write_fault io of
             Some (x, part) \<Rightarrow>
               (Inl x, Some (case part of None \<Rightarrow> fs | Some b \<Rightarrow> put_file temporary b fs))
           | None \<Rightarrow>
               (case rename_fault io of
                  Some x \<Rightarrow> (Inl x, Some (put_file temporary bytes fs))
                | None \<Rightarrow> enforce_bound io max_bytes (Some (put_file name bytes (drop_file temporary fs))))))"

text \<open>The sequence number is taken once the event is known to be serialised and to fit.\<close>

definition spool_store ::
  "'e codec \<Rightarrow> disk \<Rightarrow> nat \<Rightarrow> nat \<Rightarrow> ustr \<Rightarrow> 'e \<Rightarrow> dir \<times> nat \<Rightarrow> (spool_error + unit) \<times> dir \<times> nat" where
  "spool_store codec io max_bytes timestamp uuid event = (\<lambda>(d, sequence).
     if max_bytes = 0 then (Inl Disabled, d, sequence)
     else case to_vec codec event of
            Inl x \<Rightarrow> (Inl (Serialize x), d, sequence)
          | Inr bytes \<Rightarrow>
              if max_bytes < length bytes then (Inl EventTooLarge, d, sequence)
              else (let (r, d') = write_event io max_bytes (spool_name timestamp sequence uuid)
                          (temporary_name timestamp sequence uuid) bytes d
                    in (map_sum SpoolIo id r, d', sequence + 1)))"

subsection \<open>Reading the oldest event\<close>

fun first_readable ::
  "'e codec \<Rightarrow> disk \<Rightarrow> ustr list \<Rightarrow> dir \<Rightarrow> (ustr + (ustr \<times> 'e) option) \<times> dir" where
  "first_readable codec io [] d = (Inr None, d)"
| "first_readable codec io (p # ps) d =
     (case read_fault io p of
        Some x \<Rightarrow> (Inl x, d)
      | None \<Rightarrow>
          (case map_of (files d) p of
             None \<Rightarrow> first_readable codec io ps d
           | Some bytes \<Rightarrow>
               (case of_slice codec bytes of
                  Some event \<Rightarrow> (Inr (Some (p, event)), d)
                | None \<Rightarrow> first_readable codec io ps (snd (remove_file io p d)))))"

definition oldest :: "'e codec \<Rightarrow> disk \<Rightarrow> dir \<Rightarrow> (ustr + (ustr \<times> 'e) option) \<times> dir" where
  "oldest codec io d =
     (case paths io d of Inl x \<Rightarrow> (Inl x, d) | Inr ps \<Rightarrow> first_readable codec io ps d)"

subsection \<open>What a store leaves\<close>

definition size_at :: "spool_file list \<Rightarrow> ustr \<Rightarrow> nat" where
  "size_at fs p = (case map_of fs p of None \<Rightarrow> 0 | Some bytes \<Rightarrow> length bytes)"

definition json_names :: "dir \<Rightarrow> ustr list" where
  "json_names d = sort (filter is_json (map fst (files d)))"

definition total_bytes :: "dir \<Rightarrow> nat" where
  "total_bytes d = sum_list (map (size_at (files d)) (json_names d))"

lemma map_of_drop: "map_of (drop_file name fs) p = (if p = name then None else map_of fs p)"
  by (induction fs) (auto simp: drop_file_def)

lemma names_drop: "map fst (drop_file name fs) = filter (\<lambda>p. p \<noteq> name) (map fst fs)"
  by (induction fs) (auto simp: drop_file_def)

lemma set_names_drop: "set (map fst (drop_file name fs)) = set (map fst fs) - {name}"
  unfolding names_drop by auto

lemma sizes_Inr: "sizes io fs ps = Inr sized \<Longrightarrow> sized = map (\<lambda>p. (p, size_at fs p)) ps"
proof (induction ps arbitrary: sized)
  case (Cons p ps)
  then show ?case by (cases "sizes io fs ps") (auto simp: size_at_def split: option.splits)
qed simp

lemma remove_Inr: "remove_file io p d = (Inr u, d') \<Longrightarrow>
    \<exists>fs. d = Some fs \<and> p \<in> set (map fst fs) \<and> d' = Some (drop_file p fs)"
  by (cases d) (auto simp: remove_file_def files_def split: option.splits if_splits)

text \<open>The loop removes the shortest prefix after which the rest fits.\<close>

lemma evict_exact:
  assumes "evict io m tot sized (Some fs) = (Inr u, d')" "tot = sum_list (map snd sized)"
  shows "\<exists>k \<le> length sized. d' = Some (filter (\<lambda>f. fst f \<notin> fst ` set (take k sized)) fs) \<and>
    sum_list (map snd (drop k sized)) \<le> m \<and> (\<forall>j < k. m < sum_list (map snd (drop j sized)))"
  using assms
proof (induction sized arbitrary: tot fs)
  case Nil
  then show ?case by auto
next
  case (Cons s sized)
  obtain p n where s: "s = (p, n)" by force
  show ?case
  proof (cases "tot \<le> m")
    case True
    then show ?thesis using Cons.prems s by (intro exI [of _ 0]) auto
  next
    case False
    then have r: "remove_file io p (Some fs) = (Inr (), Some (drop_file p fs))"
      and e: "evict io m (tot - n) sized (Some (drop_file p fs)) = (Inr u, d')"
      using Cons.prems(1) s by (auto split: prod.splits sum.splits dest!: remove_Inr)
    obtain k where k: "k \<le> length sized"
      "d' = Some (filter (\<lambda>f. fst f \<notin> fst ` set (take k sized)) (drop_file p fs))"
      "sum_list (map snd (drop k sized)) \<le> m" "\<forall>j < k. m < sum_list (map snd (drop j sized))"
      using Cons.IH [OF e] Cons.prems(2) s by auto
    have "filter (\<lambda>f. fst f \<notin> fst ` set (take k sized)) (drop_file p fs) =
        filter (\<lambda>f. fst f \<notin> fst ` set (take (Suc k) (s # sized))) fs"
      by (auto simp: drop_file_def s intro: filter_cong)
    moreover have "m < sum_list (map snd (drop j (s # sized)))" if "j < Suc k" for j
      using that k(4) False Cons.prems(2) by (cases j) auto
    ultimately show ?thesis using k(1-3) by (intro exI [of _ "Suc k"]) auto
  qed
qed

lemma json_names_filter:
  "json_names (Some (filter (\<lambda>f. fst f \<notin> X) fs)) = filter (\<lambda>p. p \<notin> X) (json_names (Some fs))"
proof -
  have "filter is_json (map fst (filter (\<lambda>f. fst f \<notin> X) fs)) = filter (\<lambda>p. p \<notin> X) (filter is_json (map fst fs))"
    by (induction fs) auto
  then show ?thesis by (simp add: json_names_def files_def filter_sort)
qed

lemma size_at_filter: "p \<notin> X \<Longrightarrow> size_at (filter (\<lambda>f. fst f \<notin> X) fs) p = size_at fs p"
  by (induction fs) (auto simp: size_at_def)

lemma filter_not_taken: "distinct xs \<Longrightarrow> filter (\<lambda>x. x \<notin> set (take k xs)) xs = drop k xs"
proof -
  assume d: "distinct xs"
  then have "set (drop k xs) \<inter> set (take k xs) = {}" by (metis append_take_drop_id distinct_append inf_commute)
  then have "filter (\<lambda>x. x \<notin> set (take k xs)) (drop k xs) = drop k xs" by (intro filter_True) blast
  moreover have "filter (\<lambda>x. x \<notin> set (take k xs)) (take k xs) = []" by (simp add: filter_empty_conv)
  ultimately have "filter (\<lambda>x. x \<notin> set (take k xs)) (take k xs @ drop k xs) = drop k xs"
    unfolding filter_append by simp
  then show ?thesis by simp
qed

lemma enforce_exact:
  assumes "enforce_bound io m (Some fs) = (Inr u, d')" "distinct (map fst fs)"
  shows "\<exists>k \<le> length (json_names (Some fs)). json_names d' = drop k (json_names (Some fs)) \<and>
    (\<forall>p. p \<notin> set (take k (json_names (Some fs))) \<longrightarrow> map_of (files d') p = map_of fs p) \<and>
    d' \<noteq> None \<and> distinct (map fst (files d')) \<and> set (files d') \<subseteq> set fs \<and>
    total_bytes d' \<le> m \<and> (\<forall>j < k. m < sum_list (map (size_at fs) (drop j (json_names (Some fs)))))"
proof -
  let ?ps = "json_names (Some fs)"
  have ps: "paths io (Some fs) = Inr ?ps"
    using assms(1) by (auto simp: enforce_bound_def paths_def json_names_def files_def split: option.splits)
  obtain sized where sized: "sizes io fs ?ps = Inr sized"
    "evict io m (sum_list (map snd sized)) sized (Some fs) = (Inr u, d')"
    using assms(1) ps by (auto simp: enforce_bound_def files_def split: sum.splits)
  have s: "sized = map (\<lambda>p. (p, size_at fs p)) ?ps" by (rule sizes_Inr [OF sized(1)])
  obtain k where k: "k \<le> length ?ps" "d' = Some (filter (\<lambda>f. fst f \<notin> set (take k ?ps)) fs)"
    "sum_list (map (size_at fs) (drop k ?ps)) \<le> m" "\<forall>j < k. m < sum_list (map (size_at fs) (drop j ?ps))"
    using evict_exact [OF sized(2) refl] unfolding s
    by (auto simp: take_map drop_map comp_def image_image)
  have dps: "distinct ?ps" using assms(2) by (simp add: json_names_def files_def)
  then have names: "json_names d' = drop k ?ps" unfolding k(2) json_names_filter by (rule filter_not_taken)
  have "set (drop k ?ps) \<inter> set (take k ?ps) = {}" using dps by (metis append_take_drop_id distinct_append inf_commute)
  then have "size_at (files d') p = size_at fs p" if "p \<in> set (drop k ?ps)" for p
    using that unfolding k(2) files_def option.case by (intro size_at_filter) blast
  then have "map (size_at (files d')) (drop k ?ps) = map (size_at fs) (drop k ?ps)" by simp
  then have "total_bytes d' = sum_list (map (size_at fs) (drop k ?ps))"
    unfolding total_bytes_def names by (rule arg_cong)
  moreover have "map_of (filter (\<lambda>f. fst f \<notin> X) fs) p = map_of fs p" if "p \<notin> X" for p X
    using that by (induction fs) auto
  moreover have "distinct (map fst (filter P fs))" for P using assms(2) by (rule distinct_map_filter)
  ultimately show ?thesis using k names by (intro exI [of _ k]) (auto simp: files_def)
qed

subsection \<open>The order of names\<close>

definition pad :: "nat \<Rightarrow> nat \<Rightarrow> ustr" where
  "pad w n = replicate (w - length (dec n)) 48 @ dec n"

lemma pad_20: "pad20 n = pad 20 n"
  by (simp add: pad_def pad20_def)

lemma dec_small: "n < 10 \<Longrightarrow> dec n = [48 + n]"
  by (simp add: dec.simps)

lemma dec_ne: "dec n \<noteq> []"
  by (subst dec.simps) simp

lemma pad_Suc: "0 < w \<Longrightarrow> pad (Suc w) n = pad w (n div 10) @ [48 + n mod 10]"
proof (cases "n < 10")
  case True
  assume "0 < w"
  then have "replicate w (48::nat) = replicate (w - 1) 48 @ [48]"
    by (metis Suc_pred' replicate_Suc replicate_append_same)
  then show ?thesis using True by (simp add: pad_def dec_small)
qed (simp add: pad_def dec.simps [of n])

lemma length_pad: "0 < w \<Longrightarrow> n < 10 ^ w \<Longrightarrow> length (pad w n) = w"
proof (induction w arbitrary: n)
  case (Suc w)
  show ?case
  proof (cases "w = 0")
    case True
    then show ?thesis using Suc.prems by (simp add: pad_def dec_small)
  next
    case False
    then show ?thesis using Suc by (simp add: pad_Suc less_mult_imp_div_less mult.commute)
  qed
qed simp

lemma less_prefix_same: "xs < ys \<Longrightarrow> length xs = length ys \<Longrightarrow> xs @ us < ys @ (vs :: nat list)"
  unfolding list_less_def by (rule lexord_sufI) simp_all

lemma less_same_prefix: "us < vs \<Longrightarrow> xs @ us < xs @ (vs :: nat list)"
  unfolding list_less_def by (rule lexord_append_leftI)

lemma pad_less: "0 < w \<Longrightarrow> a < b \<Longrightarrow> b < 10 ^ w \<Longrightarrow> pad w a < pad w b"
proof (induction w arbitrary: a b)
  case (Suc w)
  show ?case
  proof (cases "w = 0")
    case True
    then show ?thesis using Suc.prems by (simp add: pad_def dec_small)
  next
    case False
    then have w: "0 < w" by simp
    have small: "a div 10 < 10 ^ w" "b div 10 < 10 ^ w"
      using Suc.prems by (simp_all add: less_mult_imp_div_less mult.commute)
    consider "a div 10 < b div 10" | "a div 10 = b div 10" "a mod 10 < b mod 10"
      using Suc.prems(2) by (metis div_le_mono le_neq_implies_less less_imp_le_nat div_mult_mod_eq nat_add_left_cancel_less)
    then show ?thesis
    proof cases
      case 1
      have same: "length (pad w (a div 10)) = length (pad w (b div 10))"
        by (rule trans [OF length_pad [OF w small(1)] length_pad [OF w small(2), symmetric]])
      from 1 show ?thesis unfolding pad_Suc [OF w]
        by (intro less_prefix_same Suc.IH w small same)
    next
      case 2
      then show ?thesis unfolding pad_Suc [OF w] by (simp add: less_same_prefix)
    qed
  qed
qed simp

lemma spool_name_less:
  assumes "t < t' \<or> t = t' \<and> n < n'" "t' < 10 ^ 20" "n' < 10 ^ 20"
  shows "spool_name t n u < spool_name t' n' v"
proof -
  have len: "length (pad20 x) = 20" if "x < 10 ^ 20" for x using that by (simp add: pad_20 length_pad)
  have less: "pad20 x < pad20 y" if "x < y" "y < 10 ^ 20" for x y using that by (simp add: pad_20 pad_less)
  from assms(1) show ?thesis
  proof (elim disjE conjE)
    assume l: "t < t'"
    have "t < 10 ^ 20" using l assms(2) by (rule less_trans)
    then show ?thesis unfolding spool_name_def spool_stem_def append_assoc
      by (intro less_prefix_same less l assms(2)) (simp only: len [OF \<open>t < 10 ^ 20\<close>] len [OF assms(2)])
  next
    assume t: "t = t'" and l: "n < n'"
    have "n < 10 ^ 20" using l assms(3) by (rule less_trans)
    then show ?thesis unfolding spool_name_def spool_stem_def append_assoc t
      by (intro less_same_prefix less_prefix_same less l assms(3)) (simp only: len [OF \<open>n < 10 ^ 20\<close>] len [OF assms(3)])
  qed
qed

lemma spool_name_json: "is_json (spool_name t n u)"
  by (simp add: is_json_def extension_def spool_name_def spool_stem_def lit_def)

lemma temporary_not_json: "\<not> is_json (temporary_name t n u)"
  by (simp add: is_json_def extension_def temporary_name_def spool_stem_def lit_def)

subsection \<open>A stored event stays\<close>

lemma insort_last: "\<forall>x \<in> set xs. x < y \<Longrightarrow> insort y xs = xs @ [y :: 'a :: linorder]"
  by (induction xs) auto

lemma map_sum_Inr: "map_sum f g x = Inr y \<longleftrightarrow> (\<exists>z. x = Inr z \<and> y = g z)"
  by (cases x) auto

lemma store_Inr:
  assumes "spool_store codec io m t u e (d, n) = (Inr (), d', n')"
  obtains fs b where "d = Some fs" "to_vec codec e = Inr b" "length b \<le> m" "n' = n + 1"
    "enforce_bound io m (Some (put_file (spool_name t n u) b (drop_file (temporary_name t n u) fs))) = (Inr (), d')"
  using assms
  by (auto simp: spool_store_def write_event_def Let_def map_sum_Inr not_less
      split: if_splits sum.splits option.splits prod.splits)

lemma json_names_put:
  assumes "\<forall>p \<in> set (json_names (Some fs)). p < name" "is_json name" "\<not> is_json temporary"
  shows "json_names (Some (put_file name b (drop_file temporary fs))) = json_names (Some fs) @ [name]"
proof -
  have less: "\<forall>p \<in> set (filter is_json (map fst fs)). p < name"
    using assms(1) by (simp add: json_names_def files_def)
  have "filter is_json (filter (\<lambda>p. p \<noteq> name) (filter (\<lambda>p. p \<noteq> temporary) ps)) = filter is_json ps"
    if "\<forall>p \<in> set (filter is_json ps). p < name" for ps
    using that assms(3) by (induction ps) auto
  from this [OF less] have "filter is_json (map fst (put_file name b (drop_file temporary fs))) = name # filter is_json (map fst fs)"
    using assms(2) by (simp add: put_file_def names_drop)
  then show ?thesis using less by (simp add: json_names_def files_def insort_last)
qed

lemma distinct_put: "distinct (map fst fs) \<Longrightarrow> distinct (map fst (put_file name b (drop_file temporary fs)))"
  by (simp add: put_file_def names_drop)

text \<open>C14:
  An event that is stored while the clock does not run backwards is on disk afterwards, whatever else is
  in the directory; the spool is within its bound, and what was removed are the oldest events.
\<close>

lemma stored_event_kept:
  assumes store: "spool_store codec io m t u e (d, n) = (Inr (), d', n')" and d: "distinct (map fst (files d))"
    and older: "\<forall>p \<in> set (json_names d). \<exists>t' k v. p = spool_name t' k v \<and> (t' < t \<or> t' = t \<and> k < n)"
    and bounds: "t < 10 ^ 20" "n < 10 ^ 20"
  shows "\<exists>b k. to_vec codec e = Inr b \<and> map_of (files d') (spool_name t n u) = Some b \<and> total_bytes d' \<le> m \<and>
    json_names d' = drop k (json_names d @ [spool_name t n u])"
proof -
  let ?name = "spool_name t n u"
  obtain fs b where s: "d = Some fs" "to_vec codec e = Inr b" "length b \<le> m"
    "enforce_bound io m (Some (put_file ?name b (drop_file (temporary_name t n u) fs))) = (Inr (), d')"
    by (rule store_Inr [OF store])
  let ?fs = "put_file ?name b (drop_file (temporary_name t n u) fs)"
  have less: "\<forall>p \<in> set (json_names (Some fs)). p < ?name"
    using older spool_name_less bounds unfolding s(1) by metis
  have names: "json_names (Some ?fs) = json_names d @ [?name]"
    unfolding s(1) by (rule json_names_put [OF less spool_name_json temporary_not_json])
  have "distinct (map fst ?fs)" using d by (simp add: s(1) files_def distinct_put)
  from enforce_exact [OF s(4) this] obtain k where k: "k \<le> length (json_names d) + 1"
    "json_names d' = drop k (json_names d @ [?name])" "total_bytes d' \<le> m"
    "\<And>p. p \<notin> set (take k (json_names d @ [?name])) \<Longrightarrow> map_of (files d') p = map_of ?fs p"
    "\<And>j. j < k \<Longrightarrow> m < sum_list (map (size_at ?fs) (drop j (json_names d @ [?name])))"
    unfolding names by auto
  have new: "map_of ?fs ?name = Some b" by (simp add: put_file_def)
  have "k \<noteq> length (json_names d) + 1"
  proof
    assume "k = length (json_names d) + 1"
    then have "m < size_at ?fs ?name" using k(5) [of "length (json_names d)"] by simp
    then show False using s(3) new by (simp add: size_at_def)
  qed
  then have "set (take k (json_names d @ [?name])) \<subseteq> set (json_names d)" using k(1) set_take_subset by force
  then have "?name \<notin> set (take k (json_names d @ [?name]))" using less unfolding s(1) by blast
  then show ?thesis using k(2-4) new s(2) by auto
qed

definition plain_disk :: disk where
  "plain_disk = \<lparr>write_fault = None, rename_fault = None, list_fault = None, stat_fault = (\<lambda>_. None),
     read_fault = (\<lambda>_. None), remove_fault = (\<lambda>_. None), not_found = []\<rparr>"

definition byte_codec :: "nat list codec" where
  "byte_codec = \<lparr>to_vec = Inr, of_slice = Some\<rparr>"

definition one_file :: dir where
  "one_file = Some [(spool_name 5 0 [97], [1, 2, 3, 4, 5, 6])]"

lemma second_stored:
  "spool_store byte_codec plain_disk 10 5 [98] [7, 8, 9, 9, 9, 9] (one_file, 1) =
     (Inr (), Some [(spool_name 5 1 [98], [7, 8, 9, 9, 9, 9])], 2)"
  by code_simp

lemma stored_event_kept_witness:
  "map_of [(spool_name 5 1 [98], [7, 8, 9, 9, 9, 9])] (spool_name 5 1 [98]) = Some [7, 8, 9, 9, 9, 9 :: nat]"
proof -
  have "json_names one_file = [spool_name 5 0 [97]]" by code_simp
  moreover have "distinct (map fst (files one_file))" by code_simp
  ultimately show ?thesis
    using stored_event_kept [OF second_stored] by (fastforce simp: byte_codec_def files_def)
qed

text \<open>After the clock has been set back the newest event has the oldest name: the spool is full, so the
  event just stored is the one removed, and the store still succeeds.
\<close>

lemma clock_back_drops_newest:
  "spool_store byte_codec plain_disk 10 4 [98] [7, 8, 9, 9, 9, 9] (one_file, 1) = (Inr (), one_file, 2)"
  by code_simp

end
