(* ===== verification/Sender.thy ===== *)
theory Sender
  imports Spool "HOL-Library.Multiset"
begin

text \<open>
  The two clients of the SDK (\<open>blocking.rs\<close>, \<open>async_client.rs\<close>): a bounded queue of commands, the
  spool for what does not fit, and one sender that posts events, retries them from the spool and
  answers flush requests. The sender is a state machine whose turn is one call of the source (a
  receive, a look at the spool, a request), so that captures of the program come between two turns.
  Times are the monotonic clock of the process, the answer of a request is its HTTP status if there
  is one.
\<close>

subsection \<open>State\<close>

datatype 'e command = EventCmd 'e | FlushCmd int nat | ShutdownCmd

datatype sdk_delivery = Delivered | PermanentFailure | Retry

text \<open>What the sender does: a drain of the spool carries its deadline, the flush request it answers, if
  any, and the number of deliveries so far.\<close>

datatype 'e sender_task =
    Idle
  | Sending 'e
  | Draining int "nat option" nat
  | Resending int "nat option" nat ustr 'e
  | Stopped

record flush_report =
  fr_delivered :: nat
  fr_remaining :: nat

record 'e client =
  queue :: "'e command list"
  task :: "'e sender_task"
  spool_dir :: dir
  spool_seq :: nat
  closing :: bool
  hung_up :: bool
  posts :: "('e \<times> sdk_delivery) list"
  replies :: "(nat \<times> (ustr + flush_report)) list"

record 'e client_config =
  cf_codec :: "'e codec"
  queue_capacity :: nat
  spool_max_bytes :: nat
  retry_interval :: int

subsection \<open>Building a client\<close>

datatype build_error = EmptyEndpoint | HttpBuild ustr | BuildIo ustr

definition set_queue_capacity :: "nat \<Rightarrow> 'e client_config \<Rightarrow> 'e client_config" where
  "set_queue_capacity capacity cfg = cfg\<lparr>queue_capacity := max capacity 1\<rparr>"

definition set_retry_interval :: "int \<Rightarrow> 'e client_config \<Rightarrow> 'e client_config" where
  "set_retry_interval interval cfg = cfg\<lparr>retry_interval := max interval 10\<rparr>"

definition new_client :: "dir \<Rightarrow> 'e client" where
  "new_client d = \<lparr>queue = [], task = Idle, spool_dir = d, spool_seq = 0, closing = False, hung_up = False,
     posts = [], replies = []\<rparr>"

definition build ::
  "ustr \<Rightarrow> ustr option \<Rightarrow> ustr option \<Rightarrow> 'e client_config \<Rightarrow> dir \<Rightarrow> build_error + 'e client" where
  "build endpoint http_fault create_fault cfg d =
     (if rs_trim endpoint = [] then Inl EmptyEndpoint
      else case http_fault of
             Some x \<Rightarrow> Inl (HttpBuild x)
           | None \<Rightarrow> map_sum BuildIo new_client (spool_new create_fault (spool_max_bytes cfg) d))"

subsection \<open>Capture and flush\<close>

datatype capture_error =
    InvalidEvent "ustr \<times> ustr" | RedactorPanicked | SenderStopped | SpoolFailed spool_error

text \<open>The queue takes the event, or the spool when the queue is full.\<close>

definition enqueue ::
  "'e client_config \<Rightarrow> disk \<Rightarrow> nat \<Rightarrow> ustr \<Rightarrow> 'e \<Rightarrow> 'e client \<Rightarrow> (capture_error + unit) \<times> 'e client" where
  "enqueue cfg io clock uuid e c =
     (if task c = Stopped then (Inl SenderStopped, c)
      else if length (queue c) < queue_capacity cfg then (Inr (), c\<lparr>queue := queue c @ [EventCmd e]\<rparr>)
      else (let (r, d, n) = spool_store (cf_codec cfg) io (spool_max_bytes cfg) clock uuid e (spool_dir c, spool_seq c)
            in (map_sum SpoolFailed id r, c\<lparr>spool_dir := d, spool_seq := n\<rparr>)))"

definition submit ::
  "'e client_config \<Rightarrow> disk \<Rightarrow> nat \<Rightarrow> ustr \<Rightarrow> 'e \<Rightarrow> 'e client \<Rightarrow> (capture_error + unit) \<times> 'e client" where
  "submit cfg io clock uuid e c =
     (if closing c then (Inl SenderStopped, c) else enqueue cfg io clock uuid e c)"

datatype flush_error = TimedOut | FlushStopped | SpoolUnreadable ustr

text \<open>One attempt to queue a flush: \<open>False\<close> means that the caller tries again.\<close>

definition flush_send ::
  "'e client_config \<Rightarrow> int \<Rightarrow> int \<Rightarrow> nat \<Rightarrow> 'e client \<Rightarrow> (flush_error + bool) \<times> 'e client" where
  "flush_send cfg now deadline reply c =
     (if task c = Stopped then (Inl FlushStopped, c)
      else if length (queue c) < queue_capacity cfg then
        (Inr True, c\<lparr>queue := queue c @ [FlushCmd deadline reply]\<rparr>)
      else if now < deadline then (Inr False, c)
      else (Inl TimedOut, c))"

definition flush_wait :: "int \<Rightarrow> int \<Rightarrow> nat \<Rightarrow> 'e client \<Rightarrow> flush_error + flush_report option" where
  "flush_wait now deadline reply c =
     (case map_of (replies c) reply of
        Some (Inl x) \<Rightarrow> Inl (SpoolUnreadable x)
      | Some (Inr report) \<Rightarrow> Inr (Some report)
      | None \<Rightarrow>
          if task c = Stopped then Inl FlushStopped
          else if deadline \<le> now then Inl TimedOut
          else Inr None)"

text \<open>\<open>shutdown\<close>, and the drop of the last blocking handle: mark, then queue the command.\<close>

definition begin_shutdown :: "'e client \<Rightarrow> 'e client" where
  "begin_shutdown c = c\<lparr>closing := True\<rparr>"

definition send_shutdown :: "'e client_config \<Rightarrow> 'e client \<Rightarrow> 'e client" where
  "send_shutdown cfg c =
     (if task c \<noteq> Stopped \<and> closing c \<and> length (queue c) < queue_capacity cfg
      then c\<lparr>queue := queue c @ [ShutdownCmd]\<rparr> else c)"

definition hang_up :: "'e client \<Rightarrow> 'e client" where
  "hang_up c = c\<lparr>closing := True, hung_up := True\<rparr>"

subsection \<open>The sender\<close>

definition is_retryable :: "nat \<Rightarrow> bool" where
  "is_retryable s \<longleftrightarrow> (500 \<le> s \<and> s < 600) \<or> s = 408 \<or> s = 429"

definition outcome_of :: "nat option \<Rightarrow> sdk_delivery" where
  "outcome_of answer =
     (case answer of
        None \<Rightarrow> Retry
      | Some s \<Rightarrow>
          if 200 \<le> s \<and> s < 300 then Delivered
          else if is_retryable s then Retry
          else PermanentFailure)"

record turn =
  tn_disk :: disk
  tn_now :: int
  tn_clock :: nat
  tn_uuid :: ustr
  tn_answer :: "nat option"

definition receive :: "'e client_config \<Rightarrow> turn \<Rightarrow> 'e client \<Rightarrow> 'e client" where
  "receive cfg t c =
     (case queue c of
        [] \<Rightarrow> c\<lparr>task := (if hung_up c then Stopped else Draining (tn_now t + retry_interval cfg) None 0)\<rparr>
      | EventCmd e # q \<Rightarrow> c\<lparr>queue := q, task := Sending e\<rparr>
      | FlushCmd deadline reply # q \<Rightarrow> c\<lparr>queue := q, task := Draining deadline (Some reply) 0\<rparr>
      | ShutdownCmd # q \<Rightarrow> c\<lparr>queue := q, task := Stopped\<rparr>)"

text \<open>A retry is kept in the spool; a failure to keep it is ignored.\<close>

definition answered_event :: "'e client_config \<Rightarrow> turn \<Rightarrow> 'e \<Rightarrow> 'e client \<Rightarrow> 'e client" where
  "answered_event cfg t e c =
     (let o' = outcome_of (tn_answer t); c = c\<lparr>posts := posts c @ [(e, o')], task := Idle\<rparr> in
      if o' = Retry then
        (let (_, d, n) = spool_store (cf_codec cfg) (tn_disk t) (spool_max_bytes cfg) (tn_clock t) (tn_uuid t) e
               (spool_dir c, spool_seq c)
         in c\<lparr>spool_dir := d, spool_seq := n\<rparr>)
      else c)"

definition finish_drain :: "nat option \<Rightarrow> ustr + flush_report \<Rightarrow> 'e client \<Rightarrow> 'e client" where
  "finish_drain reply report c =
     c\<lparr>task := Idle, replies := (case reply of None \<Rightarrow> replies c | Some r \<Rightarrow> replies c @ [(r, report)])\<rparr>"

definition drain_report :: "disk \<Rightarrow> nat \<Rightarrow> dir \<Rightarrow> ustr + flush_report" where
  "drain_report io n d = map_sum id (\<lambda>k. \<lparr>fr_delivered = n, fr_remaining = k\<rparr>) (spool_len io d)"

definition drain_next :: "'e client_config \<Rightarrow> turn \<Rightarrow> int \<Rightarrow> nat option \<Rightarrow> nat \<Rightarrow> 'e client \<Rightarrow> 'e client" where
  "drain_next cfg t deadline reply n c =
     (if deadline \<le> tn_now t then finish_drain reply (drain_report (tn_disk t) n (spool_dir c)) c
      else case oldest (cf_codec cfg) (tn_disk t) (spool_dir c) of
             (Inl x, d) \<Rightarrow> finish_drain reply (Inl x) (c\<lparr>spool_dir := d\<rparr>)
           | (Inr None, d) \<Rightarrow>
               finish_drain reply (Inr \<lparr>fr_delivered = n, fr_remaining = 0\<rparr>) (c\<lparr>spool_dir := d\<rparr>)
           | (Inr (Some (p, e)), d) \<Rightarrow> c\<lparr>spool_dir := d, task := Resending deadline reply n p e\<rparr>)"

definition answered_resend ::
  "turn \<Rightarrow> int \<Rightarrow> nat option \<Rightarrow> nat \<Rightarrow> ustr \<Rightarrow> 'e \<Rightarrow> 'e client \<Rightarrow> 'e client" where
  "answered_resend t deadline reply n p e c =
     (let o' = outcome_of (tn_answer t); c = c\<lparr>posts := posts c @ [(e, o')]\<rparr>;
          removed = snd (remove_file (tn_disk t) p (spool_dir c)) in
      case o' of
        Delivered \<Rightarrow> c\<lparr>spool_dir := removed, task := Draining deadline reply (n + 1)\<rparr>
      | PermanentFailure \<Rightarrow> c\<lparr>spool_dir := removed, task := Draining deadline reply n\<rparr>
      | Retry \<Rightarrow> finish_drain reply (drain_report (tn_disk t) n (spool_dir c)) c)"

definition sender_turn :: "'e client_config \<Rightarrow> turn \<Rightarrow> 'e client \<Rightarrow> 'e client" where
  "sender_turn cfg t c =
     (case task c of
        Idle \<Rightarrow> receive cfg t c
      | Sending e \<Rightarrow> answered_event cfg t e c
      | Draining deadline reply n \<Rightarrow> drain_next cfg t deadline reply n c
      | Resending deadline reply n p e \<Rightarrow> answered_resend t deadline reply n p e c
      | Stopped \<Rightarrow> c)"

subsection \<open>Runs\<close>

text \<open>A run from an empty spool, with the events the program submitted and whether they were accepted.
  Every answer of the disk satisfies \<open>P\<close>, every submitted event \<open>A\<close>.\<close>

inductive client_run ::
  "'e client_config \<Rightarrow> (disk \<Rightarrow> bool) \<Rightarrow> ('e \<Rightarrow> bool) \<Rightarrow> ('e \<times> bool) list \<Rightarrow> 'e client \<Rightarrow> bool" for cfg P A where
  start: "client_run cfg P A [] (new_client (Some []))"
| submitted: "client_run cfg P A es c \<Longrightarrow> P io \<Longrightarrow> A e \<Longrightarrow> submit cfg io clock uuid e c = (r, c') \<Longrightarrow>
    client_run cfg P A (es @ [(e, \<not> isl r)]) c'"
| flushed: "client_run cfg P A es c \<Longrightarrow> flush_send cfg now deadline reply c = (f, c') \<Longrightarrow> client_run cfg P A es c'"
| closed: "client_run cfg P A es c \<Longrightarrow> client_run cfg P A es (begin_shutdown c)"
| shut: "client_run cfg P A es c \<Longrightarrow> client_run cfg P A es (send_shutdown cfg c)"
| hung: "client_run cfg P A es c \<Longrightarrow> client_run cfg P A es (hang_up c)"
| turned: "client_run cfg P A es c \<Longrightarrow> P (tn_disk t) \<Longrightarrow> client_run cfg P A es (sender_turn cfg t c)"

end
