(* ===== verification/SenderRun.thy ===== *)
theory SenderRun
  imports Sender
begin

text \<open>
  What the runs of a client keep. As long as the disk works and the spool is large enough no accepted
  event is lost or multiplied: it waits in the queue, is with the sender, lies in the spool, or a
  request for it has had a final answer. Without these conditions: whatever is posted was submitted.
\<close>

subsection \<open>A working disk\<close>

definition faultless :: "disk \<Rightarrow> bool" where
  "faultless io \<longleftrightarrow> write_fault io = None \<and> rename_fault io = None \<and> list_fault io = None \<and>
     (\<forall>p. stat_fault io p = None \<and> read_fault io p = None \<and> remove_fault io p = None)"

lemma faultless_paths: "faultless io \<Longrightarrow> paths io (Some fs) = Inr (json_names (Some fs))"
  by (simp add: faultless_def paths_def json_names_def files_def)

lemma faultless_remove: "faultless io \<Longrightarrow> p \<in> set (map fst fs) \<Longrightarrow> remove_file io p (Some fs) = (Inr (), Some (drop_file p fs))"
  by (simp add: faultless_def remove_file_def files_def)

lemma faultless_sizes: "faultless io \<Longrightarrow> set ps \<subseteq> set (map fst fs) \<Longrightarrow> sizes io fs ps = Inr (map (\<lambda>p. (p, size_at fs p)) ps)"
proof (induction ps)
  case (Cons p ps)
  then have "map_of fs p \<noteq> None" by (simp add: map_of_eq_None_iff)
  then show ?case using Cons by (auto simp: faultless_def size_at_def)
qed simp

lemma evict_fits: "tot \<le> m \<Longrightarrow> evict io m tot sized d = (Inr (), d)"
  by (cases sized) auto

lemma sum_sort: "sum_list (map f (sort xs)) = sum_list (map (f :: _ \<Rightarrow> nat) xs)"
  by (metis mset_map mset_sort sum_mset_sum_list)

lemma total_all:
  assumes "distinct (map fst fs)" "\<forall>f \<in> set fs. is_json (fst f)"
  shows "total_bytes (Some fs) = sum_list (map (\<lambda>f. length (snd f)) fs)"
proof -
  have "sum_list (map (\<lambda>f. size_at fs (fst f)) fs) = sum_list (map (\<lambda>f. length (snd f)) fs)"
    using assms(1) by (intro arg_cong [of _ _ sum_list] map_cong refl) (force simp: size_at_def map_of_eq_Some_iff split: option.split)
  moreover have "filter is_json (map fst fs) = map fst fs" using assms(2) by (intro filter_True) auto
  ultimately show ?thesis
    by (simp add: total_bytes_def json_names_def files_def sum_sort comp_def)
qed

lemma drop_absent: "p \<notin> set (map fst fs) \<Longrightarrow> drop_file p fs = fs"
  by (auto simp: drop_file_def intro!: filter_True)

lemma store_fits:
  assumes io: "faultless io" and b: "to_vec codec e = Inr b" and m: "0 < m"
    and fs: "distinct (map fst fs)" "\<forall>f \<in> set fs. is_json (fst f)"
    and new: "spool_name t n u \<notin> set (map fst fs)"
    and room: "sum_list (map (\<lambda>f. length (snd f)) fs) + length b \<le> m"
  shows "spool_store codec io m t u e (Some fs, n) = (Inr (), Some ((spool_name t n u, b) # fs), n + 1)"
proof -
  let ?fs = "(spool_name t n u, b) # fs"
  have "temporary_name t n u \<notin> set (map fst fs)" using fs(2) temporary_not_json by force
  then have put: "put_file (spool_name t n u) b (drop_file (temporary_name t n u) fs) = ?fs"
    using new by (simp add: put_file_def drop_absent)
  have all: "\<forall>f \<in> set ?fs. is_json (fst f)" "distinct (map fst ?fs)" using fs new by (auto simp: spool_name_json)
  have names: "set (json_names (Some ?fs)) \<subseteq> set (map fst ?fs)" by (auto simp: json_names_def files_def)
  have "enforce_bound io m (Some ?fs) = (Inr (), Some ?fs)"
    unfolding enforce_bound_def faultless_paths [OF io] sum.case files_def option.case faultless_sizes [OF io names]
    using total_all [OF all(2,1)] room
    by (intro evict_fits) (simp add: total_bytes_def comp_def files_def)
  then show ?thesis
    using io b m room by (simp add: spool_store_def write_event_def put faultless_def Let_def)
qed

lemma faultless_evict:
  "faultless io \<Longrightarrow> distinct (map fst sized) \<Longrightarrow> fst ` set sized \<subseteq> set (map fst fs) \<Longrightarrow>
    fst (evict io m tot sized (Some fs)) = Inr ()"
proof (induction sized arbitrary: tot fs)
  case (Cons s sized)
  obtain p k where s: "s = (p, k)" by force
  have "remove_file io p (Some fs) = (Inr (), Some (drop_file p fs))"
    using Cons.prems s by (intro faultless_remove) auto
  moreover have "fst ` set sized \<subseteq> set (map fst (drop_file p fs))"
    using Cons.prems(2,3) s unfolding set_names_drop by force
  then have "fst (evict io m (tot - k) sized (Some (drop_file p fs))) = Inr ()"
    using Cons.prems(1,2) by (intro Cons.IH) auto
  ultimately show ?case by (simp add: s)
qed simp

text \<open>On a working disk a store fails before it has written anything.\<close>

lemma store_refused:
  assumes io: "faultless io" and fs: "distinct (map fst fs)"
    and store: "spool_store codec io m t u e (Some fs, n) = (Inl x, d', n')"
  shows "d' = Some fs \<and> n' = n"
proof -
  have "fst (enforce_bound io m (Some gs)) = Inr ()" if "distinct (map fst gs)" for gs
  proof -
    have sub: "set (json_names (Some gs)) \<subseteq> set (map fst gs)" by (auto simp: json_names_def files_def)
    have "distinct (json_names (Some gs))" using that by (simp add: json_names_def files_def)
    then show ?thesis
      unfolding enforce_bound_def faultless_paths [OF io] sum.case files_def option.case faultless_sizes [OF io sub]
      using sub by (intro faultless_evict io) (auto simp: comp_def image_image)
  qed
  then have "fst (write_event io m p q b (Some fs)) = Inr ()" for p q b
    using io distinct_put [OF fs] by (simp add: write_event_def faultless_def)
  then have "write_event io m p q b (Some fs) = (Inr (), snd (write_event io m p q b (Some fs)))" for p q b
    by (simp add: prod_eq_iff)
  then obtain f where f: "\<And>p q b. write_event io m p q b (Some fs) = (Inr (), f p q b)" by (rule that)
  from store show ?thesis by (auto simp: spool_store_def f split: if_splits sum.splits)
qed

subsection \<open>Names are not used twice\<close>

definition number_of :: "ustr \<Rightarrow> nat" where
  "number_of s = foldl (\<lambda>v c. 10 * v + (c - 48)) 0 s"

lemma number_of_snoc: "number_of (s @ [c]) = 10 * number_of s + (c - 48)"
  by (simp add: number_of_def)

lemma number_of_dec: "number_of (dec n) = n"
proof (induction n rule: dec.induct)
  case (1 n)
  show ?case
  proof (cases "n < 10")
    case False
    then show ?thesis using 1 by (subst dec.simps) (simp add: number_of_snoc)
  qed (simp add: dec_small number_of_def)
qed

lemma number_of_pad20: "number_of (pad20 n) = n"
proof -
  have "number_of (replicate k 48 @ s) = number_of s" for k s
    by (induction k) (simp_all add: number_of_def)
  then show ?thesis by (simp add: pad20_def number_of_dec)
qed

lemma dec_no_hyphen: "45 \<notin> set (dec n)"
proof (induction n rule: dec.induct)
  case (1 n)
  show ?case by (cases "n < 10") (use 1 in \<open>auto simp: dec_small dec.simps [of n]\<close>)
qed

lemma pad20_no_hyphen: "45 \<notin> set (pad20 n)"
  by (simp add: pad20_def dec_no_hyphen)

lemma spool_name_seq: "spool_name t n u = spool_name t' n' u' \<Longrightarrow> n = n'"
proof -
  assume same: "spool_name t n u = spool_name t' n' u'"
  have "split_on 45 (spool_name x k v) = pad20 x # pad20 k # split_on 45 (v @ lit ''.json'')" for x k v
    unfolding spool_name_def spool_stem_def append_assoc append_Cons append_Nil
    by (simp add: split_on_append pad20_no_hyphen)
  then have "pad20 n = pad20 n'" using same by (metis list.inject)
  then show ?thesis by (metis number_of_pad20)
qed

subsection \<open>Where an event is\<close>

fun events_in :: "'e command list \<Rightarrow> 'e list" where
  "events_in [] = []"
| "events_in (EventCmd e # q) = e # events_in q"
| "events_in (c # q) = events_in q"

fun decoded :: "'e codec \<Rightarrow> spool_file list \<Rightarrow> 'e list" where
  "decoded codec [] = []"
| "decoded codec ((p, b) # fs) =
     (if is_json p then (case of_slice codec b of None \<Rightarrow> decoded codec fs | Some e \<Rightarrow> e # decoded codec fs)
      else decoded codec fs)"

definition with_sender :: "'e sender_task \<Rightarrow> 'e list" where
  "with_sender t = (case t of Sending e \<Rightarrow> [e] | _ \<Rightarrow> [])"

definition answered :: "('e \<times> sdk_delivery) list \<Rightarrow> 'e list" where
  "answered ps = map fst (filter (\<lambda>p. snd p \<noteq> Retry) ps)"

definition accepted :: "('e \<times> bool) list \<Rightarrow> 'e list" where
  "accepted es = map fst (filter snd es)"

definition event_size :: "'e codec \<Rightarrow> 'e \<Rightarrow> nat" where
  "event_size codec e = (case to_vec codec e of Inl _ \<Rightarrow> 0 | Inr b \<Rightarrow> length b)"

definition reads_back :: "'e codec \<Rightarrow> 'e \<Rightarrow> bool" where
  "reads_back codec e \<longleftrightarrow> (case to_vec codec e of Inl _ \<Rightarrow> False | Inr b \<Rightarrow> of_slice codec b = Some e)"

lemma events_in_append [simp]: "events_in (p @ q) = events_in p @ events_in q"
  by (induction p rule: events_in.induct) auto

lemma with_sender_simps [simp]:
  "with_sender Idle = []" "with_sender (Sending e) = [e]" "with_sender (Draining a b k) = []"
  "with_sender (Resending a b k p e) = []" "with_sender Stopped = []"
  by (simp_all add: with_sender_def)

lemma answered_snoc [simp]: "answered (ps @ [(e, x)]) = answered ps @ (if x = Retry then [] else [e])"
  by (simp add: answered_def)

lemma accepted_snoc [simp]: "accepted (es @ [(e, ok)]) = accepted es @ (if ok then [e] else [])"
  by (simp add: accepted_def)

text \<open>The files of a run: each is an event that was accepted, under a name of its own.\<close>

definition spool_ok :: "'e codec \<Rightarrow> 'e set \<Rightarrow> nat \<Rightarrow> spool_file list \<Rightarrow> bool" where
  "spool_ok codec es n fs \<longleftrightarrow> distinct (map fst fs) \<and>
     (\<forall>f \<in> set fs. (\<exists>t k u. fst f = spool_name t k u \<and> k < n) \<and>
       (\<exists>e \<in> es. to_vec codec e = Inr (snd f) \<and> of_slice codec (snd f) = Some e))"

lemma spool_ok_json: "spool_ok codec es n fs \<Longrightarrow> f \<in> set fs \<Longrightarrow> is_json (fst f)"
  by (auto simp: spool_ok_def spool_name_json)

lemma spool_ok_fresh: "spool_ok codec es n fs \<Longrightarrow> spool_name t n u \<notin> set (map fst fs)"
  by (force simp: spool_ok_def dest: spool_name_seq)

lemma spool_ok_drop: "spool_ok codec es n fs \<Longrightarrow> spool_ok codec es n (drop_file p fs)"
  by (auto simp: spool_ok_def drop_file_def distinct_map_filter)

lemma spool_ok_add:
  "spool_ok codec es n fs \<Longrightarrow> e \<in> es \<Longrightarrow> to_vec codec e = Inr b \<Longrightarrow> of_slice codec b = Some e \<Longrightarrow>
    spool_ok codec es (n + 1) ((spool_name t n u, b) # fs)"
  using spool_ok_fresh [of codec es n fs t u] by (fastforce simp: spool_ok_def)

lemma spool_ok_mono: "spool_ok codec es n fs \<Longrightarrow> es \<subseteq> es' \<Longrightarrow> spool_ok codec es' n fs"
  unfolding spool_ok_def by blast

lemma decoded_drop:
  "distinct (map fst fs) \<Longrightarrow> (p, b) \<in> set fs \<Longrightarrow> is_json p \<Longrightarrow> of_slice codec b = Some e \<Longrightarrow>
    mset (decoded codec fs) = add_mset e (mset (decoded codec (drop_file p fs)))"
proof (induction fs)
  case (Cons f fs)
  obtain q c where f: "f = (q, c)" by force
  show ?case
  proof (cases "q = p")
    case True
    then have new: "p \<notin> set (map fst fs)" using Cons.prems(1) f by simp
    then have "(p, b) \<notin> set fs" by force
    then have "c = b" using Cons.prems(2) f True by simp
    moreover have "drop_file p (f # fs) = fs"
      using drop_absent [OF new] True f by (simp add: drop_file_def)
    ultimately show ?thesis using Cons.prems(3,4) f True by simp
  next
    case False
    then have "drop_file p (f # fs) = f # drop_file p fs" by (simp add: drop_file_def f)
    moreover have "mset (decoded codec fs) = add_mset e (mset (decoded codec (drop_file p fs)))"
      using Cons False f by simp
    ultimately show ?thesis by (simp add: f split: option.split)
  qed
qed simp

lemma decoded_size:
  "spool_ok codec es n fs \<Longrightarrow> sum_list (map (\<lambda>f. length (snd f)) fs) = sum_list (map (event_size codec) (decoded codec fs))"
proof (induction codec fs rule: decoded.induct)
  case (2 codec p b fs)
  have "spool_ok codec es n fs" using 2(4) by (auto simp: spool_ok_def)
  moreover have "is_json p" using spool_ok_json [OF 2(4), of "(p, b)"] by simp
  moreover obtain e where "to_vec codec e = Inr b" "of_slice codec b = Some e" using 2(4) by (auto simp: spool_ok_def)
  ultimately show ?case using 2(1-3) by (simp add: event_size_def)
qed simp

lemma oldest_ok:
  assumes "faultless io" "spool_ok codec es n fs"
  obtains "fs = []" "oldest codec io (Some fs) = (Inr None, Some fs)"
  | p b e where "(p, b) \<in> set fs" "of_slice codec b = Some e" "oldest codec io (Some fs) = (Inr (Some (p, e)), Some fs)"
proof (cases "json_names (Some fs)")
  case Nil
  then have "fs = []" using spool_ok_json [OF assms(2)]
    by (cases fs) (auto simp: json_names_def files_def split: if_splits)
  moreover from this have "oldest codec io (Some fs) = (Inr None, Some fs)"
    using Nil by (simp add: oldest_def faultless_paths [OF assms(1)])
  ultimately show ?thesis by (rule that(1))
next
  case (Cons p ps)
  then have "p \<in> set (json_names (Some fs))" by simp
  then obtain b where b: "(p, b) \<in> set fs" by (auto simp: json_names_def files_def)
  then obtain e where e: "of_slice codec b = Some e" using assms(2) by (force simp: spool_ok_def)
  have "map_of fs p = Some b" using assms(2) b by (simp add: spool_ok_def)
  then have "oldest codec io (Some fs) = (Inr (Some (p, e)), Some fs)"
    using assms(1) e by (simp add: oldest_def faultless_paths Cons files_def faultless_def)
  with b e show ?thesis by (rule that(2))
qed

lemma store_in_run:
  assumes "faultless io" "spool_ok codec es n fs" "e \<in> es" "reads_back codec e" "0 < m"
    "sum_list (map (event_size codec) (decoded codec fs)) + event_size codec e \<le> m"
  obtains b where "spool_store codec io m t u e (Some fs, n) = (Inr (), Some ((spool_name t n u, b) # fs), n + 1)"
    "spool_ok codec es (n + 1) ((spool_name t n u, b) # fs)"
    "decoded codec ((spool_name t n u, b) # fs) = e # decoded codec fs"
proof -
  obtain b where b: "to_vec codec e = Inr b" "of_slice codec b = Some e"
    using assms(4) by (auto simp: reads_back_def split: sum.splits)
  have d: "distinct (map fst fs)" using assms(2) by (simp add: spool_ok_def)
  have "sum_list (map (\<lambda>f. length (snd f)) fs) + length b \<le> m"
    using assms(6) decoded_size [OF assms(2)] b(1) by (simp add: event_size_def)
  then have "spool_store codec io m t u e (Some fs, n) = (Inr (), Some ((spool_name t n u, b) # fs), n + 1)"
    using spool_ok_json [OF assms(2)] spool_ok_fresh [OF assms(2)]
    by (intro store_fits assms(1,5) b(1) d) auto
  then show ?thesis
    using that spool_ok_add [OF assms(2,3) b] b(2) by (simp add: spool_name_json)
qed

subsection \<open>Conservation\<close>

definition conserved :: "'e client_config \<Rightarrow> 'e list \<Rightarrow> 'e client \<Rightarrow> bool" where
  "conserved cfg es c \<longleftrightarrow> (\<exists>fs. spool_dir c = Some fs \<and> spool_ok (cf_codec cfg) (set es) (spool_seq c) fs \<and>
     mset es = mset (events_in (queue c)) + mset (with_sender (task c)) + mset (decoded (cf_codec cfg) fs) +
       mset (answered (posts c)) \<and>
     (\<forall>a r k p e. task c = Resending a r k p e \<longrightarrow> (\<exists>b. (p, b) \<in> set fs \<and> of_slice (cf_codec cfg) b = Some e)))"

lemma sum_sub: "mset es = mset xs + R \<Longrightarrow> sum_list (map f xs) \<le> sum_list (map (f :: _ \<Rightarrow> nat) es)"
proof -
  assume "mset es = mset xs + R"
  then have "sum_mset (image_mset f (mset es)) = sum_mset (image_mset f (mset xs)) + sum_mset (image_mset f R)" by simp
  then show ?thesis by (simp flip: sum_mset_sum_list mset_map)
qed

lemma kept_new: "conserved cfg [] (new_client (Some []))"
  by (simp add: conserved_def new_client_def spool_ok_def answered_def)

lemma kept_mono:
  "conserved cfg es c \<Longrightarrow> queue c' = queue c \<Longrightarrow> task c' = task c \<Longrightarrow> spool_dir c' = spool_dir c \<Longrightarrow>
    spool_seq c' = spool_seq c \<Longrightarrow> posts c' = posts c \<Longrightarrow> conserved cfg es c'"
  by (simp add: conserved_def)

lemma kept_enqueue:
  assumes k: "conserved cfg es c" and io: "faultless io" and e: "reads_back (cf_codec cfg) e"
    and m: "0 < spool_max_bytes cfg" "sum_list (map (event_size (cf_codec cfg)) (es @ [e])) \<le> spool_max_bytes cfg"
    and en: "enqueue cfg io clock uuid e c = (r, c')"
  shows "conserved cfg (es @ (if isl r then [] else [e])) c'"
proof -
  obtain fs where fs: "spool_dir c = Some fs" "spool_ok (cf_codec cfg) (set es) (spool_seq c) fs"
    "mset es = mset (events_in (queue c)) + mset (with_sender (task c)) + mset (decoded (cf_codec cfg) fs) +
       mset (answered (posts c))"
    "\<And>a r k p e. task c = Resending a r k p e \<Longrightarrow> \<exists>b. (p, b) \<in> set fs \<and> of_slice (cf_codec cfg) b = Some e"
    using k unfolding conserved_def by blast
  have ok: "spool_ok (cf_codec cfg) (set (es @ [e])) (spool_seq c) fs" by (rule spool_ok_mono [OF fs(2)]) auto
  consider "task c = Stopped" | "task c \<noteq> Stopped" "length (queue c) < queue_capacity cfg"
    | "task c \<noteq> Stopped" "\<not> length (queue c) < queue_capacity cfg" by blast
  then show ?thesis
  proof cases
    case 1
    then show ?thesis using en k by (auto simp: enqueue_def)
  next
    case 2
    then have r: "r = Inr ()" "c' = c\<lparr>queue := queue c @ [EventCmd e]\<rparr>" using en by (auto simp: enqueue_def)
    then show ?thesis using fs ok by (auto simp: conserved_def)
  next
    case 3
    have "mset es = mset (decoded (cf_codec cfg) fs) +
        (mset (events_in (queue c)) + mset (with_sender (task c)) + mset (answered (posts c)))"
      using fs(3) by simp
    from sum_sub [OF this, of "event_size (cf_codec cfg)"]
    have room: "sum_list (map (event_size (cf_codec cfg)) (decoded (cf_codec cfg) fs)) + event_size (cf_codec cfg) e
        \<le> spool_max_bytes cfg" using m(2) by simp
    have "e \<in> set (es @ [e])" by simp
    from store_in_run [OF io ok this e m(1) room]
    obtain b where b: "spool_store (cf_codec cfg) io (spool_max_bytes cfg) clock uuid e (Some fs, spool_seq c) =
        (Inr (), Some ((spool_name clock (spool_seq c) uuid, b) # fs), spool_seq c + 1)"
      "spool_ok (cf_codec cfg) (set (es @ [e])) (spool_seq c + 1) ((spool_name clock (spool_seq c) uuid, b) # fs)"
      "decoded (cf_codec cfg) ((spool_name clock (spool_seq c) uuid, b) # fs) = e # decoded (cf_codec cfg) fs"
      by blast
    have r: "r = Inr ()" "c' = c\<lparr>spool_dir := Some ((spool_name clock (spool_seq c) uuid, b) # fs), spool_seq := spool_seq c + 1\<rparr>"
      using en 3 b(1) by (auto simp: enqueue_def fs(1))
    show ?thesis unfolding conserved_def r
      by (rule exI [of _ "(spool_name clock (spool_seq c) uuid, b) # fs"])
        (use b(2,3) fs(3,4) in \<open>simp del: decoded.simps; blast\<close>)
  qed
qed

lemma kept_receive: "conserved cfg es c \<Longrightarrow> task c = Idle \<Longrightarrow> conserved cfg es (receive cfg t c)"
  unfolding conserved_def receive_def by (auto split: list.split command.split)

lemma kept_answered:
  assumes k: "conserved cfg es c" and t: "task c = Sending e" and io: "faultless (tn_disk t)"
    and e: "reads_back (cf_codec cfg) e" and m: "0 < spool_max_bytes cfg"
    "sum_list (map (event_size (cf_codec cfg)) es) \<le> spool_max_bytes cfg"
  shows "conserved cfg es (answered_event cfg t e c)"
proof -
  obtain fs where fs: "spool_dir c = Some fs" "spool_ok (cf_codec cfg) (set es) (spool_seq c) fs"
    "mset es = mset (events_in (queue c)) + mset (with_sender (task c)) + mset (decoded (cf_codec cfg) fs) +
       mset (answered (posts c))"
    using k unfolding conserved_def by blast
  show ?thesis
  proof (cases "outcome_of (tn_answer t) = Retry")
    case False
    then show ?thesis using fs t by (auto simp: conserved_def answered_event_def Let_def)
  next
    case True
    have "mset es = mset (e # decoded (cf_codec cfg) fs) + (mset (events_in (queue c)) + mset (answered (posts c)))"
      using fs(3) t by simp
    from sum_sub [OF this, of "event_size (cf_codec cfg)"]
    have room: "sum_list (map (event_size (cf_codec cfg)) (decoded (cf_codec cfg) fs)) + event_size (cf_codec cfg) e
        \<le> spool_max_bytes cfg" using m(2) by simp
    have "e \<in># mset es" unfolding fs(3) t by simp
    then have "e \<in> set es" by simp
    from store_in_run [OF io fs(2) this e m(1) room]
    obtain b where b: "spool_store (cf_codec cfg) (tn_disk t) (spool_max_bytes cfg) (tn_clock t) (tn_uuid t) e (Some fs, spool_seq c) =
        (Inr (), Some ((spool_name (tn_clock t) (spool_seq c) (tn_uuid t), b) # fs), spool_seq c + 1)"
      "spool_ok (cf_codec cfg) (set es) (spool_seq c + 1) ((spool_name (tn_clock t) (spool_seq c) (tn_uuid t), b) # fs)"
      "decoded (cf_codec cfg) ((spool_name (tn_clock t) (spool_seq c) (tn_uuid t), b) # fs) = e # decoded (cf_codec cfg) fs"
      by blast
    let ?fs = "(spool_name (tn_clock t) (spool_seq c) (tn_uuid t), b) # fs"
    have r: "answered_event cfg t e c =
        c\<lparr>posts := posts c @ [(e, Retry)], task := Idle, spool_dir := Some ?fs, spool_seq := spool_seq c + 1\<rparr>"
      using True b(1) by (simp add: answered_event_def fs(1))
    show ?thesis unfolding conserved_def r
      by (rule exI [of _ ?fs]) (use b(2,3) fs(3) t in \<open>simp del: decoded.simps\<close>)
  qed
qed

lemma kept_finish: "conserved cfg es c \<Longrightarrow> with_sender (task c) = [] \<Longrightarrow> conserved cfg es (finish_drain reply report c)"
  by (auto simp: conserved_def finish_drain_def)

lemma kept_drain:
  assumes k: "conserved cfg es c" and t: "task c = Draining deadline reply n" and io: "faultless (tn_disk t)"
  shows "conserved cfg es (drain_next cfg t deadline reply n c)"
proof -
  obtain fs where fs: "spool_dir c = Some fs" "spool_ok (cf_codec cfg) (set es) (spool_seq c) fs"
    "mset es = mset (events_in (queue c)) + mset (with_sender (task c)) + mset (decoded (cf_codec cfg) fs) +
       mset (answered (posts c))"
    using k unfolding conserved_def by blast
  have fin: "conserved cfg es (finish_drain reply report c)" for report by (rule kept_finish [OF k]) (simp add: t)
  from io fs(2) show ?thesis
  proof (cases rule: oldest_ok)
    case 1
    have "conserved cfg es (finish_drain reply report (c\<lparr>spool_dir := Some []\<rparr>))" for report
      by (intro kept_finish kept_mono [OF k]) (simp_all add: fs(1) 1(1) t)
    then show ?thesis using fin 1(2) by (simp add: drain_next_def fs(1) 1(1))
  next
    case (2 p b e)
    have "conserved cfg es (c\<lparr>spool_dir := Some fs, task := Resending deadline reply n p e\<rparr>)"
      unfolding conserved_def by (rule exI [of _ fs]) (use 2(1,2) fs t in auto)
    then show ?thesis using 2(3) fin by (auto simp: drain_next_def fs(1))
  qed
qed

lemma kept_resend:
  assumes k: "conserved cfg es c" and t: "task c = Resending deadline reply n p e" and io: "faultless (tn_disk t)"
  shows "conserved cfg es (answered_resend t deadline reply n p e c)"
proof -
  obtain fs b where fs: "spool_dir c = Some fs" "spool_ok (cf_codec cfg) (set es) (spool_seq c) fs"
    "mset es = mset (events_in (queue c)) + mset (with_sender (task c)) + mset (decoded (cf_codec cfg) fs) +
       mset (answered (posts c))"
    and b: "(p, b) \<in> set fs" "of_slice (cf_codec cfg) b = Some e"
    using k t unfolding conserved_def by blast
  have names: "p \<in> set (map fst fs)" using b(1) by force
  have less: "mset (decoded (cf_codec cfg) fs) = add_mset e (mset (decoded (cf_codec cfg) (drop_file p fs)))"
    using fs(2) b spool_ok_json [OF fs(2) b(1)] by (intro decoded_drop [where b = b]) (auto simp: spool_ok_def)
  have "conserved cfg es (c\<lparr>posts := posts c @ [(e, x)], spool_dir := Some (drop_file p fs), task := Draining deadline reply k\<rparr>)"
    if "x \<noteq> Retry" for x k
    unfolding conserved_def by (rule exI [of _ "drop_file p fs"]) (use that fs t less spool_ok_drop [OF fs(2)] in auto)
  moreover have "conserved cfg es (c\<lparr>posts := posts c @ [(e, Retry)]\<rparr>)"
    using k by (simp add: conserved_def)
  then have "conserved cfg es (finish_drain reply report (c\<lparr>posts := posts c @ [(e, Retry)]\<rparr>))" for report
    by (rule kept_finish) (simp add: t)
  ultimately show ?thesis
    using faultless_remove [OF io names] fs(1)
    by (cases "outcome_of (tn_answer t)") (simp_all add: answered_resend_def Let_def)
qed

lemma kept_turn:
  assumes "conserved cfg es c" "faultless (tn_disk t)" "\<forall>e \<in> set es. reads_back (cf_codec cfg) e" "0 < spool_max_bytes cfg"
    "sum_list (map (event_size (cf_codec cfg)) es) \<le> spool_max_bytes cfg"
  shows "conserved cfg es (sender_turn cfg t c)"
proof (cases "task c")
  case (Sending e)
  have "e \<in># mset es" using assms(1) Sending by (auto simp: conserved_def simp del: set_mset_mset)
  then have "reads_back (cf_codec cfg) e" using assms(3) by simp
  then show ?thesis using assms Sending by (simp add: sender_turn_def kept_answered)
qed (use assms in \<open>simp_all add: sender_turn_def kept_receive kept_drain kept_resend\<close>)

lemma kept_refused:
  assumes k: "conserved cfg es c" and io: "faultless io" and en: "submit cfg io clock uuid e c = (r, c')" and r: "isl r"
  shows "conserved cfg es c'"
proof -
  obtain fs where fs: "spool_dir c = Some fs" "distinct (map fst fs)" using k by (auto simp: conserved_def spool_ok_def)
  obtain y d n where st: "spool_store (cf_codec cfg) io (spool_max_bytes cfg) clock uuid e (Some fs, spool_seq c) = (y, d, n)"
    by (metis prod.exhaust)
  have "d = Some fs \<and> n = spool_seq c" if "isl y"
  proof -
    from that obtain x where "y = Inl x" by (cases y) auto
    from store_refused [OF io fs(2) st [unfolded this]] show ?thesis .
  qed
  moreover have "c' = c \<or> isl y \<and> c' = c\<lparr>spool_dir := d, spool_seq := n\<rparr>"
    using en r st by (cases y) (auto simp: submit_def enqueue_def fs(1) split: if_splits)
  ultimately show ?thesis using k by (auto intro: kept_mono [OF k] simp: fs(1))
qed

lemma kept_run:
  assumes "client_run cfg faultless (reads_back (cf_codec cfg)) es c" "0 < spool_max_bytes cfg"
    "sum_list (map (event_size (cf_codec cfg)) (accepted es)) \<le> spool_max_bytes cfg"
  shows "conserved cfg (accepted es) c \<and> (\<forall>e \<in> set (accepted es). reads_back (cf_codec cfg) e)"
  using assms
proof (induction rule: client_run.induct)
  case start
  then show ?case using kept_new by (simp add: accepted_def)
next
  case (submitted es c io e clock uuid r c')
  have le: "sum_list (map (event_size (cf_codec cfg)) (accepted es)) \<le> spool_max_bytes cfg" using submitted by simp
  then have k: "conserved cfg (accepted es) c" "\<forall>e \<in> set (accepted es). reads_back (cf_codec cfg) e"
    using submitted by blast+
  show ?case
  proof (cases "isl r")
    case True
    then show ?thesis using kept_refused [OF k(1) submitted(2,4)] k(2) by simp
  next
    case False
    then have "sum_list (map (event_size (cf_codec cfg)) (accepted es @ [e])) \<le> spool_max_bytes cfg"
      using submitted by simp
    moreover have "enqueue cfg io clock uuid e c = (r, c')" using submitted(4) False by (auto simp: submit_def split: if_splits)
    ultimately have "conserved cfg (accepted es @ (if isl r then [] else [e])) c'"
      by (intro kept_enqueue [OF k(1) submitted(2,3,6)])
    then show ?thesis using False k(2) submitted(3) by simp
  qed
next
  case (flushed es c now deadline reply f c')
  then show ?case by (auto simp: flush_send_def conserved_def split: if_splits)
next
  case (closed es c)
  then show ?case by (auto simp: conserved_def begin_shutdown_def)
next
  case (shut es c)
  then show ?case by (auto simp: conserved_def send_shutdown_def)
next
  case (hung es c)
  then show ?case by (auto simp: conserved_def hang_up_def)
next
  case (turned es c t)
  then show ?case using kept_turn by blast
qed


subsection \<open>The sender comes to rest\<close>

definition cmd_weight :: "nat \<Rightarrow> nat \<Rightarrow> nat" where
  "cmd_weight k x = k * (2 * x + 4)"

lemma weight_mono: "x \<le> y \<Longrightarrow> cmd_weight k x \<le> cmd_weight k y"
  by (simp add: cmd_weight_def)

lemma weight_Suc [simp]: "cmd_weight (Suc k) x = cmd_weight k x + 2 * x + 4"
  by (simp add: cmd_weight_def)

text \<open>What is left to do: the turns of the task, and for each command as many as a drain of everything
  there is may take.\<close>

definition work :: "'e client \<Rightarrow> nat" where
  "work c =
     (let f = length (files (spool_dir c)) in
      (case task c of Idle \<Rightarrow> 0 | Sending e \<Rightarrow> 1 | Draining a r n \<Rightarrow> 2 * f + 1
       | Resending a r n p e \<Rightarrow> (if p \<in> set (map fst (files (spool_dir c))) then 2 * f else 2 * f + 2) | Stopped \<Rightarrow> 0) +
      cmd_weight (length (queue c)) (f + length (events_in (queue c)) + length (with_sender (task c))))"

definition pending :: "'e client \<Rightarrow> 'e set" where
  "pending c = set (events_in (queue c)) \<union> set (with_sender (task c))"

fun flushes :: "'e command list \<Rightarrow> nat list" where
  "flushes [] = []"
| "flushes (FlushCmd a r # q) = r # flushes q"
| "flushes (c # q) = flushes q"

definition owed :: "'e client \<Rightarrow> nat set" where
  "owed c = set (flushes (queue c)) \<union>
     (case task c of Draining a r n \<Rightarrow> set_option r | Resending a r n p e \<Rightarrow> set_option r | _ \<Rightarrow> {})"

definition open_client :: "'e client \<Rightarrow> bool" where
  "open_client c \<longleftrightarrow> task c \<noteq> Stopped \<and> ShutdownCmd \<notin> set (queue c)"

definition progress :: "'e client \<Rightarrow> 'e client \<Rightarrow> bool" where
  "progress c c' \<longleftrightarrow> work c' < work c \<and> open_client c' \<and> pending c \<subseteq> pending c' \<union> fst ` set (posts c') \<and>
     owed c \<subseteq> owed c' \<union> fst ` set (replies c') \<and> set (posts c) \<subseteq> set (posts c') \<and> set (replies c) \<subseteq> set (replies c')"

lemmas progress_defs = progress_def work_def pending_def owed_def open_client_def Let_def

lemma progress_receive: "open_client c \<Longrightarrow> task c = Idle \<Longrightarrow> queue c \<noteq> [] \<Longrightarrow> progress c (receive cfg t c)"
  by (auto simp: progress_defs receive_def split: list.split command.split)

lemma progress_finish:
  "open_client c \<Longrightarrow> task c = Draining a r n \<or> task c = Resending a r n p e \<Longrightarrow>
    progress c (finish_drain r report c)"
  by (auto simp: progress_defs finish_drain_def split: option.split)

lemma length_drop_file: "length (drop_file p fs) \<le> length fs"
  by (simp add: drop_file_def)

lemma length_drop_named: "p \<in> set (map fst fs) \<Longrightarrow> length (drop_file p fs) < length fs"
  unfolding drop_file_def by (auto intro: length_filter_less)

lemma length_remove: "length (files (snd (remove_file io p d))) \<le> length (files d)"
  by (cases d) (auto simp: remove_file_def files_def length_drop_file split: option.split)

lemma length_evict: "length (files (snd (evict io m tot sized d))) \<le> length (files d)"
proof (induction io m tot sized d rule: evict.induct)
  case (2 io m tot p k sized d)
  show ?case
    using 2 length_remove [of io p d] by (auto split: prod.splits sum.splits intro: le_trans)
qed simp

lemma length_store: "length (files (fst (snd (spool_store codec io m t u e (d, n))))) \<le> length (files d) + 1"
proof -
  have enforce: "length (files (snd (enforce_bound io m d))) \<le> length (files d)" for d
    by (simp add: enforce_bound_def length_evict split: sum.split)
  have "length (put_file q b (drop_file q' fs)) \<le> length fs + 1" for q q' b fs
    using length_drop_file [of q "drop_file q' fs"] length_drop_file [of q' fs] by (simp add: put_file_def)
  moreover have "length (put_file q b fs) \<le> length fs + 1" for q b fs
    using length_drop_file [of q fs] by (simp add: put_file_def)
  ultimately have "length (files (snd (write_event io m q q' b d))) \<le> length (files d) + 1" for q q' b
    using enforce [of "Some (put_file q b (drop_file q' (files d)))"]
    by (cases d) (auto simp: write_event_def files_def split: option.split intro: le_trans)
  then show ?thesis by (simp add: spool_store_def case_prod_beta split: sum.split)
qed

lemma progress_answered:
  assumes "open_client c" "task c = Sending e"
  shows "progress c (answered_event cfg t e c)"
proof (cases "outcome_of (tn_answer t) = Retry")
  case False
  have "cmd_weight k x \<le> cmd_weight k (Suc x)" for k x by (rule weight_mono) simp
  then show ?thesis using assms False by (auto simp: progress_defs answered_event_def less_Suc_eq_le)
next
  case True
  obtain y d n where st: "spool_store (cf_codec cfg) (tn_disk t) (spool_max_bytes cfg) (tn_clock t) (tn_uuid t) e
      (spool_dir c, spool_seq c) = (y, d, n)" by (metis prod.exhaust)
  have len: "length (files d) \<le> length (files (spool_dir c)) + 1"
    using length_store [of "cf_codec cfg" "tn_disk t" "spool_max_bytes cfg" "tn_clock t" "tn_uuid t" e "spool_dir c" "spool_seq c"]
    by (simp add: st)
  then have "cmd_weight (length (queue c)) (length (files d) + length (events_in (queue c))) \<le>
      cmd_weight (length (queue c)) (Suc (length (files (spool_dir c)) + length (events_in (queue c))))"
    by (intro weight_mono) simp
  then show ?thesis using assms True st by (auto simp: progress_defs answered_event_def)
qed

lemma first_readable_some:
  "first_readable codec io ps d = (Inr (Some (p, e)), d') \<Longrightarrow> p \<in> set (map fst (files d'))"
proof (induction codec io ps d rule: first_readable.induct)
  case (2 codec io q ps d)
  then show ?case by (force split: option.splits dest: map_of_SomeD)
qed simp

lemma length_readable: "length (files (snd (first_readable codec io ps d))) \<le> length (files d)"
proof (induction codec io ps d rule: first_readable.induct)
  case (2 codec io q ps d)
  then show ?case using length_remove [of io q d] by (auto split: option.split intro: le_trans)
qed simp

lemma length_oldest: "length (files (snd (oldest codec io d))) \<le> length (files d)"
  by (simp add: oldest_def length_readable split: sum.split)

lemma progress_drain:
  assumes "open_client c" "task c = Draining a r n"
  shows "progress c (drain_next cfg t a r n c)"
proof (cases "a \<le> tn_now t")
  case True
  then show ?thesis using progress_finish [OF assms(1) disjI1, OF assms(2)] by (simp add: drain_next_def)
next
  case False
  obtain y d where o: "oldest (cf_codec cfg) (tn_disk t) (spool_dir c) = (y, d)" by force
  have len: "length (files d) \<le> length (files (spool_dir c))"
    using length_oldest [of "cf_codec cfg" "tn_disk t" "spool_dir c"] by (simp add: o)
  have cost: "cmd_weight (length (queue c)) (length (files d) + length (events_in (queue c))) \<le>
      cmd_weight (length (queue c)) (length (files (spool_dir c)) + length (events_in (queue c)))"
    using len by (intro weight_mono) simp
  have fin: "progress c (finish_drain r report (c\<lparr>spool_dir := d\<rparr>))" for report
    using assms len cost by (auto simp: progress_defs finish_drain_def split: option.split)
  have send: "progress c (c\<lparr>spool_dir := d, task := Resending a r n p e\<rparr>)" if "y = Inr (Some (p, e))" for p e
  proof -
    have "p \<in> set (map fst (files d))"
      using o that first_readable_some by (fastforce simp: oldest_def split: sum.splits)
    then show ?thesis using assms len cost by (auto simp: progress_defs)
  qed
  show ?thesis using False o fin send
    by (cases y) (auto simp: drain_next_def split: option.split)
qed

lemma progress_resend:
  assumes "open_client c" "task c = Resending a r n p e" "remove_fault (tn_disk t) p = None"
  shows "progress c (answered_resend t a r n p e c)"
proof (cases "outcome_of (tn_answer t) = Retry")
  case True
  then show ?thesis using assms by (auto simp: progress_defs answered_resend_def finish_drain_def split: option.split)
next
  case False
  let ?d = "snd (remove_file (tn_disk t) p (spool_dir c))"
  have len: "length (files ?d) \<le> length (files (spool_dir c))" by (rule length_remove)
  have less: "length (files ?d) < length (files (spool_dir c))" if "p \<in> set (map fst (files (spool_dir c)))"
  proof -
    from that have "?d = map_option (drop_file p) (spool_dir c)" using assms(3) by (simp add: remove_file_def)
    then show ?thesis using length_drop_named [OF that] by (cases "spool_dir c") (auto simp: files_def)
  qed
  have cost: "cmd_weight (length (queue c)) (length (files ?d) + length (events_in (queue c))) \<le>
      cmd_weight (length (queue c)) (length (files (spool_dir c)) + length (events_in (queue c)))"
    using len by (intro weight_mono) simp
  have "progress c (c\<lparr>posts := posts c @ [(e, x)], spool_dir := ?d, task := Draining a r k\<rparr>)" for x k
  proof (cases "p \<in> set (map fst (files (spool_dir c)))")
    case True
    from less [OF True] True show ?thesis using assms(1,2) cost by (auto simp: progress_defs)
  next
    case False
    then show ?thesis using assms(1,2) len cost by (auto simp: progress_defs)
  qed
  then show ?thesis using False by (cases "outcome_of (tn_answer t)") (simp_all add: answered_resend_def)
qed

lemma progress_turn:
  assumes "open_client c" "task c \<noteq> Idle \<or> queue c \<noteq> []" "\<forall>p. remove_fault (tn_disk t) p = None"
  shows "progress c (sender_turn cfg t c)"
proof (cases "task c")
  case Stopped
  then show ?thesis using assms(1) by (simp add: open_client_def)
qed (use assms in \<open>simp_all add: sender_turn_def progress_receive progress_answered progress_drain progress_resend\<close>)

definition at_rest :: "'e client \<Rightarrow> 'e client \<Rightarrow> bool" where
  "at_rest c d \<longleftrightarrow> task d = Idle \<and> queue d = [] \<and> pending c \<subseteq> fst ` set (posts d) \<and> set (posts c) \<subseteq> set (posts d) \<and>
     owed c \<subseteq> fst ` set (replies d) \<and> set (replies c) \<subseteq> set (replies d)"

lemma settled_back: "progress c c' \<Longrightarrow> at_rest c' d \<Longrightarrow> at_rest c d"
  unfolding progress_def at_rest_def by (meson image_mono le_supI subset_trans)

lemma settled_self: "task c = Idle \<Longrightarrow> queue c = [] \<Longrightarrow> at_rest c c"
  by (simp add: at_rest_def pending_def owed_def)

lemma turns_settle:
  assumes "open_client c" "\<forall>t \<in> set ts. \<forall>p. remove_fault (tn_disk t) p = None" "work c \<le> length ts"
  shows "\<exists>k \<le> length ts. at_rest c (fold (sender_turn cfg) (take k ts) c)"
  using assms
proof (induction ts arbitrary: c)
  case Nil
  then have "work c = 0" by simp
  then have "task c = Idle" "queue c = []"
    using Nil(1) by (auto simp: work_def cmd_weight_def open_client_def Let_def split: sender_task.splits if_splits)
  then show ?case by (simp add: settled_self)
next
  case (Cons t ts)
  show ?case
  proof (cases "task c = Idle \<and> queue c = []")
    case True
    then show ?thesis by (intro exI [of _ 0]) (simp add: settled_self)
  next
    case False
    then have p: "progress c (sender_turn cfg t c)" using Cons.prems by (intro progress_turn) auto
    then have "open_client (sender_turn cfg t c)" "work (sender_turn cfg t c) \<le> length ts"
      using Cons.prems(3) by (auto simp: progress_def)
    then obtain k where "k \<le> length ts" "at_rest (sender_turn cfg t c) (fold (sender_turn cfg) (take k ts) (sender_turn cfg t c))"
      using Cons.IH [of "sender_turn cfg t c"] Cons.prems(2) by auto
    then show ?thesis using settled_back [OF p] by (intro exI [of _ "Suc k"]) simp
  qed
qed

text \<open>C13:
  A flush comes to its end: whatever the server answers, if files can be removed, the sender is idle
  with an empty queue after at most \<open>work c\<close> turns of its own; every event that was queued has been
  posted by then, and every flush request has been answered.
\<close>

lemma queue_drains:
  assumes "task c \<noteq> Stopped" "ShutdownCmd \<notin> set (queue c)" "work c \<le> length ts"
    and "\<forall>t \<in> set ts. \<forall>p. remove_fault (tn_disk t) p = None"
  shows "\<exists>k \<le> length ts. let d = fold (sender_turn cfg) (take k ts) c in
    task d = Idle \<and> queue d = [] \<and> set (events_in (queue c)) \<subseteq> fst ` set (posts d) \<and>
    set (flushes (queue c)) \<subseteq> fst ` set (replies d)"
proof -
  have "open_client c" using assms(1,2) by (simp add: open_client_def)
  from turns_settle [OF this assms(4,3), of cfg] show ?thesis
    unfolding Let_def at_rest_def pending_def owed_def by blast
qed

subsection \<open>Nothing else is posted\<close>

lemma files_remove: "set (files (snd (remove_file io p d))) \<subseteq> set (files d)"
  by (cases d) (auto simp: remove_file_def files_def drop_file_def split: option.split)

lemma files_evict: "set (files (snd (evict io m tot sized d))) \<subseteq> set (files d)"
proof (induction io m tot sized d rule: evict.induct)
  case (2 io m tot p k sized d)
  obtain y d' where y: "remove_file io p d = (y, d')" by force
  then have "set (files d') \<subseteq> set (files d)" using files_remove [of io p d] by simp
  then show ?case using 2 [OF _ y [symmetric]] by (cases y) (auto simp: y)
qed simp

lemma files_enforce: "set (files (snd (enforce_bound io m d))) \<subseteq> set (files d)"
  by (simp add: enforce_bound_def files_evict split: sum.split)

lemma files_put: "set (put_file q b fs) \<subseteq> insert (q, b) (set fs)"
  by (auto simp: put_file_def drop_file_def)

lemma files_write:
  "f \<in> set (files (snd (write_event io m q q' b d))) \<Longrightarrow> f \<in> set (files d) \<or> fst f = q' \<or> f = (q, b)"
proof (cases d)
  case (Some fs)
  assume f: "f \<in> set (files (snd (write_event io m q q' b d)))"
  have "set (files (snd (enforce_bound io m (Some (put_file q b (drop_file q' fs)))))) \<subseteq> insert (q, b) (set fs)"
    using files_enforce [of io m "Some (put_file q b (drop_file q' fs))"] files_put [of q b "drop_file q' fs"]
    by (auto simp: files_def drop_file_def)
  then show ?thesis
    using f files_put [of q' _ fs] by (fastforce simp: Some write_event_def files_def split: option.splits)
qed (simp add: write_event_def)

lemma files_store:
  "f \<in> set (files (fst (snd (spool_store codec io m t u e (d, n))))) \<Longrightarrow>
    f \<in> set (files d) \<or> \<not> is_json (fst f) \<or> to_vec codec e = Inr (snd f)"
  by (auto simp: spool_store_def case_prod_beta temporary_not_json dest!: files_write split: if_splits sum.splits)

lemma files_readable: "set (files (snd (first_readable codec io ps d))) \<subseteq> set (files d)"
proof (induction codec io ps d rule: first_readable.induct)
  case (2 codec io q ps d)
  then show ?case using files_remove [of io q d] by (auto split: option.split)
qed simp

lemma readable_file:
  "first_readable codec io ps d = (Inr (Some (p, e)), d') \<Longrightarrow>
    \<exists>b. (p, b) \<in> set (files d) \<and> p \<in> set ps \<and> of_slice codec b = Some e"
proof (induction codec io ps d rule: first_readable.induct)
  case (2 codec io q ps d)
  have "set (files (snd (remove_file io q d))) \<subseteq> set (files d)" by (rule files_remove)
  then show ?case using 2 by (auto split: option.splits dest: map_of_SomeD)
qed simp

lemma oldest_file:
  assumes "oldest codec io d = (y, d')"
  shows "set (files d') \<subseteq> set (files d)"
    and "y = Inr (Some (p, e)) \<Longrightarrow> \<exists>b. (p, b) \<in> set (files d) \<and> is_json p \<and> of_slice codec b = Some e"
proof -
  show "set (files d') \<subseteq> set (files d)"
    unfolding arg_cong [OF assms, of snd, unfolded snd_conv, symmetric]
    by (simp add: oldest_def files_readable split: sum.split)
  assume "y = Inr (Some (p, e))"
  then obtain ps where ps: "paths io d = Inr ps" "first_readable codec io ps d = (Inr (Some (p, e)), d')"
    using assms by (auto simp: oldest_def split: sum.splits)
  have "\<forall>q \<in> set ps. is_json q" using ps(1) by (auto simp: paths_def split: option.splits)
  then show "\<exists>b. (p, b) \<in> set (files d) \<and> is_json p \<and> of_slice codec b = Some e"
    using readable_file [OF ps(2)] by blast
qed

definition resending :: "'e sender_task \<Rightarrow> 'e list" where
  "resending t = (case t of Resending a r n p e \<Rightarrow> [e] | _ \<Rightarrow> [])"

lemma resending_simps [simp]:
  "resending Idle = []" "resending (Sending e) = []" "resending (Draining a b k) = []"
  "resending (Resending a b k p e) = [e]" "resending Stopped = []"
  by (simp_all add: resending_def)

definition traced :: "'e codec \<Rightarrow> 'e set \<Rightarrow> 'e client \<Rightarrow> bool" where
  "traced codec es c \<longleftrightarrow> pending c \<subseteq> es \<and> set (resending (task c)) \<subseteq> es \<and> fst ` set (posts c) \<subseteq> es \<and>
     (\<forall>f \<in> set (files (spool_dir c)). is_json (fst f) \<longrightarrow> (\<exists>e \<in> es. to_vec codec e = Inr (snd f)))"

lemmas traced_defs = traced_def pending_def Let_def

lemma traced_store:
  assumes "traced codec es c" "e \<in> es" "spool_store codec io m t u e (spool_dir c, k) = (y, d, n)"
  shows "traced codec es (c\<lparr>spool_dir := d, spool_seq := n\<rparr>)"
  using assms files_store [of _ codec io m t u e "spool_dir c" k] by (fastforce simp: traced_defs)

lemma traced_turn:
  assumes c: "traced (cf_codec cfg) es c" and rb: "\<forall>e \<in> es. reads_back (cf_codec cfg) e"
  shows "traced (cf_codec cfg) es (sender_turn cfg t c)"
proof (cases "task c")
  case Idle
  then show ?thesis using c
    by (auto simp: sender_turn_def receive_def traced_defs split: list.split command.split)
next
  case (Sending e)
  obtain y d n where st: "spool_store (cf_codec cfg) (tn_disk t) (spool_max_bytes cfg) (tn_clock t) (tn_uuid t) e
      (spool_dir c, spool_seq c) = (y, d, n)" by (metis prod.exhaust)
  let ?c = "c\<lparr>posts := posts c @ [(e, outcome_of (tn_answer t))], task := Idle\<rparr>"
  have e: "e \<in> es" and c': "traced (cf_codec cfg) es ?c" using c Sending by (auto simp: traced_defs)
  have "spool_store (cf_codec cfg) (tn_disk t) (spool_max_bytes cfg) (tn_clock t) (tn_uuid t) e
      (spool_dir ?c, spool_seq c) = (y, d, n)" using st by simp
  from traced_store [OF c' e this] c' show ?thesis
    using st by (cases "outcome_of (tn_answer t)") (simp_all add: sender_turn_def Sending answered_event_def)
next
  case (Draining a r n)
  obtain y d where o: "oldest (cf_codec cfg) (tn_disk t) (spool_dir c) = (y, d)" by force
  have fin: "traced (cf_codec cfg) es (finish_drain r report (c\<lparr>spool_dir := d'\<rparr>))"
      if "set (files d') \<subseteq> set (files (spool_dir c))" for report d'
    using c that by (auto simp: traced_defs finish_drain_def)
  have "traced (cf_codec cfg) es (c\<lparr>spool_dir := d, task := Resending a r n p e\<rparr>)" if y: "y = Inr (Some (p, e))" for p e
  proof -
    obtain b where b: "(p, b) \<in> set (files (spool_dir c))" "is_json p" "of_slice (cf_codec cfg) b = Some e"
      using oldest_file(2) [OF o y] by blast
    then obtain e' where "e' \<in> es" "to_vec (cf_codec cfg) e' = Inr b" using c by (force simp: traced_def)
    then have "e \<in> es" using rb b(3) by (force simp: reads_back_def)
    then show ?thesis using c oldest_file(1) [OF o] by (auto simp: traced_defs)
  qed
  moreover have "c\<lparr>spool_dir := spool_dir c\<rparr> = c" by simp
  ultimately show ?thesis
    using o fin [OF oldest_file(1) [OF o]] fin [of "spool_dir c"]
    by (cases y) (auto simp: sender_turn_def Draining drain_next_def split: option.split)
next
  case (Resending a r n p e)
  have "set (files (snd (remove_file (tn_disk t) p (spool_dir c)))) \<subseteq> set (files (spool_dir c))" by (rule files_remove)
  then show ?thesis using c
    by (cases "outcome_of (tn_answer t)")
      (auto simp: sender_turn_def Resending answered_resend_def finish_drain_def traced_defs)
qed (use c in \<open>simp add: sender_turn_def\<close>)

lemma traced_mono: "traced codec es c \<Longrightarrow> es \<subseteq> es' \<Longrightarrow> traced codec es' c"
  unfolding traced_def by blast

lemma traced_same:
  "traced codec es c \<Longrightarrow> pending c' = pending c \<Longrightarrow> task c' = task c \<Longrightarrow> posts c' = posts c \<Longrightarrow>
    spool_dir c' = spool_dir c \<Longrightarrow> traced codec es c'"
  by (simp add: traced_def)

lemma traced_run:
  assumes "client_run cfg P A es c" "\<And>e. A e \<Longrightarrow> reads_back (cf_codec cfg) e"
  shows "traced (cf_codec cfg) (fst ` set es) c \<and> (\<forall>e \<in> fst ` set es. A e)"
  using assms(1)
proof (induction rule: client_run.induct)
  case start
  then show ?case by (simp add: traced_defs new_client_def files_def)
next
  case (submitted es c io e clock uuid r c')
  obtain y d n where st: "spool_store (cf_codec cfg) io (spool_max_bytes cfg) clock uuid e (spool_dir c, spool_seq c) = (y, d, n)"
    by (metis prod.exhaust)
  have c: "traced (cf_codec cfg) (insert e (fst ` set es)) c" using submitted by (blast intro: traced_mono)
  have "c' = c \<or> c' = c\<lparr>queue := queue c @ [EventCmd e]\<rparr> \<or> c' = c\<lparr>spool_dir := d, spool_seq := n\<rparr>"
    using submitted(4) st by (auto simp: submit_def enqueue_def split: if_splits)
  moreover have "traced (cf_codec cfg) (insert e (fst ` set es)) (c\<lparr>queue := queue c @ [EventCmd e]\<rparr>)"
    using c by (auto simp: traced_defs)
  moreover have "traced (cf_codec cfg) (insert e (fst ` set es)) (c\<lparr>spool_dir := d, spool_seq := n\<rparr>)"
    by (rule traced_store [OF c _ st]) simp
  ultimately show ?case using c submitted(3,5) by auto
next
  case (turned es c t)
  then have c: "traced (cf_codec cfg) (fst ` set es) c" and a: "\<forall>e \<in> fst ` set es. A e" by simp_all
  have "\<forall>e \<in> fst ` set es. reads_back (cf_codec cfg) e" using a assms(2) by fast
  from traced_turn [OF c this] a show ?case by simp
next
  case (flushed es c now deadline reply f c')
  have "traced (cf_codec cfg) (fst ` set es) c'"
    by (rule traced_same [of _ _ c]) (use flushed in \<open>auto simp: flush_send_def pending_def split: if_splits\<close>)
  then show ?case using flushed by simp
next
  case (closed es c)
  have "traced (cf_codec cfg) (fst ` set es) (begin_shutdown c)"
    by (rule traced_same [of _ _ c]) (use closed in \<open>simp_all add: begin_shutdown_def pending_def\<close>)
  then show ?case using closed by simp
next
  case (shut es c)
  have "traced (cf_codec cfg) (fst ` set es) (send_shutdown cfg c)"
    by (rule traced_same [of _ _ c]) (use shut in \<open>simp_all add: send_shutdown_def pending_def\<close>)
  then show ?case using shut by simp
next
  case (hung es c)
  have "traced (cf_codec cfg) (fst ` set es) (hang_up c)"
    by (rule traced_same [of _ _ c]) (use hung in \<open>simp_all add: hang_up_def pending_def\<close>)
  then show ?case using hung by simp
qed

subsection \<open>Examples\<close>

definition demo_cfg :: "nat list client_config" where
  "demo_cfg = \<lparr>cf_codec = byte_codec, queue_capacity = 1, spool_max_bytes = 100, retry_interval = 10\<rparr>"

definition demo_turn :: "int \<Rightarrow> nat option \<Rightarrow> turn" where
  "demo_turn now answer =
     \<lparr>tn_disk = plain_disk, tn_now = now, tn_clock = 9, tn_uuid = [100], tn_answer = answer\<rparr>"

definition demo_client :: "nat list client" where
  "demo_client = fold (sender_turn demo_cfg) [demo_turn 0 None, demo_turn 0 None]
     (snd (submit demo_cfg plain_disk 8 [99] [2] (snd (submit demo_cfg plain_disk 7 [98] [1] (new_client (Some []))))))"

lemma plain_faultless: "faultless plain_disk"
  by (simp add: faultless_def plain_disk_def)

lemma bytes_read_back: "reads_back byte_codec e"
  by (simp add: reads_back_def byte_codec_def)

lemma demo_submits:
  "submit demo_cfg plain_disk 7 [98] [1] (new_client (Some [])) = (Inr (), (new_client (Some []))\<lparr>queue := [EventCmd [1]]\<rparr>)"
  "submit demo_cfg plain_disk 8 [99] [2] ((new_client (Some []))\<lparr>queue := [EventCmd [1]]\<rparr>) =
     (Inr (), (new_client (Some []))\<lparr>queue := [EventCmd [1]], spool_dir := Some [(spool_name 8 0 [99], [2])], spool_seq := 1\<rparr>)"
  by code_simp+

lemma demo_run: "client_run demo_cfg faultless (reads_back (cf_codec demo_cfg)) [([1], True), ([2], True)] demo_client"
proof -
  note step = client_run.submitted [where P = faultless and A = "reads_back (cf_codec demo_cfg)", OF _ plain_faultless]
  have rb: "reads_back (cf_codec demo_cfg) e" for e by (simp add: demo_cfg_def bytes_read_back)
  have t: "faultless (tn_disk (demo_turn 0 None))" by (simp add: demo_turn_def plain_faultless)
  have "client_run demo_cfg faultless (reads_back (cf_codec demo_cfg)) [([1], True), ([2], True)]
      ((new_client (Some []))\<lparr>queue := [EventCmd [1]], spool_dir := Some [(spool_name 8 0 [99], [2])], spool_seq := 1\<rparr>)"
    using step [OF step [OF client_run.start rb demo_submits(1)] rb demo_submits(2)] by simp
  then show ?thesis
    unfolding demo_client_def demo_submits snd_conv demo_submits(2)
    by (simp only: fold_simps id_apply) (intro client_run.turned t)
qed

lemma demo_state:
  "queue demo_client = [] \<and> task demo_client = Idle \<and> posts demo_client = [([1], Retry)] \<and>
   length (files (spool_dir demo_client)) = 2"
  by code_simp


definition flush_client :: "nat list client" where
  "flush_client = (new_client (Some []))\<lparr>queue := [EventCmd [1], FlushCmd 100 7]\<rparr>"

lemma queue_drains_witness:
  "\<exists>k \<le> 12. let d = fold (sender_turn demo_cfg) (take k (replicate 12 (demo_turn 5 (Some 503)))) flush_client in
     task d = Idle \<and> queue d = [] \<and> [1] \<in> fst ` set (posts d) \<and> 7 \<in> fst ` set (replies d)"
proof -
  have "work flush_client \<le> length (replicate 12 (demo_turn 5 (Some 503)))" by code_simp
  moreover have "events_in (queue flush_client) = [[1]]" "flushes (queue flush_client) = [7]"
    "task flush_client \<noteq> Stopped" "ShutdownCmd \<notin> set (queue flush_client)"
    by (simp_all add: flush_client_def new_client_def)
  moreover have "\<forall>t \<in> set (replicate 12 (demo_turn 5 (Some 503))). \<forall>p. remove_fault (tn_disk t) p = None"
    by (simp add: demo_turn_def plain_disk_def)
  ultimately show ?thesis
    using queue_drains [of flush_client "replicate 12 (demo_turn 5 (Some 503))" demo_cfg]
    by (simp only: length_replicate list.set(1,2) insert_subset) simp
qed

text \<open>A capture that has looked at the flag before a shutdown began is accepted after the shutdown command,
  and its event is lost: the sender stops in front of it.\<close>

lemma capture_races_shutdown:
  "let cfg = set_queue_capacity 2 demo_cfg;
       (r, c) = enqueue cfg plain_disk 7 [98] [1] (send_shutdown cfg (begin_shutdown (new_client (Some []))));
       d = sender_turn cfg (demo_turn 0 None) c
   in r = Inr () \<and> task d = Stopped \<and> queue d = [EventCmd [1]] \<and> spool_dir d = Some [] \<and> posts d = []"
  by code_simp

text \<open>A file that cannot be removed is posted again until the deadline, and counted each time.\<close>

definition stuck_turn :: "int \<Rightarrow> turn" where
  "stuck_turn now = demo_turn now (Some 200)\<lparr>tn_disk := plain_disk\<lparr>remove_fault := (\<lambda>_. Some [])\<rparr>\<rparr>"

lemma undeletable_counted_twice:
  "replies (fold (sender_turn demo_cfg) (map stuck_turn [0, 1, 2, 3, 4, 5])
     ((new_client (Some [(spool_name 8 0 [99], [2])]))\<lparr>queue := [FlushCmd 5 7]\<rparr>)) =
   [(7, Inr \<lparr>fr_delivered = 2, fr_remaining = 1\<rparr>)]"
  by code_simp

end
