(* ===== verification/Capture.thy ===== *)
theory Capture
  imports Protocol Outbox SenderRun
begin

text \<open>
  What the SDK captures (\<open>crates/zbierak-sdk/src/lib.rs\<close>, \<open>stacktrace.rs\<close>): the trail of breadcrumbs,
  the preparation of an event, the events of panics and errors and the frames of a stack trace. The
  identifier, the time and the stack of a capture are arguments, the redactor is a function that may
  panic, and numbers become JSON by a parameter.
\<close>

subsection \<open>Breadcrumbs\<close>

definition push_breadcrumb :: "nat \<Rightarrow> 'b \<Rightarrow> 'b list \<Rightarrow> 'b list" where
  "push_breadcrumb capacity b trail =
     (if capacity = 0 then trail
      else (if length trail = capacity then tl trail else trail) @ [b])"

datatype 'n field_value = IntField 'n | BoolField bool | StrField ustr | DebugField ustr

record 'n visitor =
  v_message :: "ustr option"
  v_data :: "(ustr \<times> 'n json) list"

text \<open>Insertion into a \<open>BTreeMap\<close>.\<close>

fun tree_insert :: "ustr \<Rightarrow> 'v \<Rightarrow> (ustr \<times> 'v) list \<Rightarrow> (ustr \<times> 'v) list" where
  "tree_insert k v [] = [(k, v)]"
| "tree_insert k v ((k', v') # m) =
     (if k = k' then (k, v) # m
      else if k < k' then (k, v) # (k', v') # m
      else (k', v') # tree_insert k v m)"

definition record_field :: "ustr \<times> 'n field_value \<Rightarrow> 'n visitor \<Rightarrow> 'n visitor" where
  "record_field = (\<lambda>(name, value) v.
     (case value of
        IntField n \<Rightarrow> v\<lparr>v_data := tree_insert name (JNum n) (v_data v)\<rparr>
      | BoolField b \<Rightarrow> v\<lparr>v_data := tree_insert name (JBool b) (v_data v)\<rparr>
      | StrField s \<Rightarrow>
          if name = lit ''message'' then v\<lparr>v_message := Some s\<rparr>
          else v\<lparr>v_data := tree_insert name (JStr s) (v_data v)\<rparr>
      | DebugField s \<Rightarrow>
          if name = lit ''message'' then v\<lparr>v_message := Some s\<rparr>
          else v\<lparr>v_data := tree_insert name (JStr s) (v_data v)\<rparr>))"

datatype level = LTrace | LDebug | LInfo | LWarn | LError

fun tracing_severity :: "level \<Rightarrow> severity" where
  "tracing_severity LTrace = Debug"
| "tracing_severity LDebug = Debug"
| "tracing_severity LInfo = Info"
| "tracing_severity LWarn = Warning"
| "tracing_severity LError = Error"

record 'n tracing_event =
  te_name :: ustr
  te_target :: ustr
  te_level :: level
  te_fields :: "(ustr \<times> 'n field_value) list"

definition on_event :: "nat \<Rightarrow> ustr \<Rightarrow> 'n tracing_event \<Rightarrow> 'n breadcrumb list \<Rightarrow> 'n breadcrumb list" where
  "on_event capacity now e trail =
     (if capacity = 0 then trail
      else (let v = fold record_field (te_fields e) \<lparr>v_message = None, v_data = []\<rparr> in
        push_breadcrumb capacity
          \<lparr>b_timestamp = now, b_message = (case v_message v of None \<Rightarrow> te_name e | Some m \<Rightarrow> m),
            b_severity = tracing_severity (te_level e), b_category = Some (te_target e), b_data = v_data v\<rparr> trail))"

subsection \<open>Preparing an event\<close>

record 'n capture_context =
  cx_release :: "ustr option"
  cx_environment :: "ustr option"
  cx_platform :: "ustr option"
  cx_trail :: "'n breadcrumb list"
  cx_capacity :: nat
  cx_redactor :: "('n event \<Rightarrow> 'n event option) option"

definition or_else :: "'a option \<Rightarrow> 'a option \<Rightarrow> 'a option" where
  "or_else x y = (case x of None \<Rightarrow> y | Some _ \<Rightarrow> x)"

definition fill_event :: "ustr \<Rightarrow> ustr \<Rightarrow> 'n capture_context \<Rightarrow> 'n event \<Rightarrow> 'n event" where
  "fill_event uuid now cx e =
     e\<lparr>event_id := (if event_id e = [] then uuid else event_id e),
       timestamp := (if timestamp e = [] then now else timestamp e),
       release := or_else (release e) (cx_release cx),
       environment := or_else (environment e) (cx_environment cx),
       platform := or_else (platform e) (cx_platform cx),
       breadcrumbs := (if breadcrumbs e = [] then cx_trail cx else breadcrumbs e)\<rparr>"

definition prepare_event ::
  "(ustr \<Rightarrow> int option) \<Rightarrow> ustr \<Rightarrow> ustr \<Rightarrow> 'n capture_context \<Rightarrow> 'n event \<Rightarrow> capture_error + 'n event" where
  "prepare_event rfc3339 uuid now cx e =
     (let e = fill_event uuid now cx e in
      case (case cx_redactor cx of None \<Rightarrow> Some e | Some f \<Rightarrow> f e) of
        None \<Rightarrow> Inl RedactorPanicked
      | Some e \<Rightarrow> (case validate rfc3339 e of Inl x \<Rightarrow> Inl (InvalidEvent x) | Inr _ \<Rightarrow> Inr e))"

text \<open>A capture: prepare, then queue or spool; the result is the identifier.\<close>

definition capture_event ::
  "(ustr \<Rightarrow> int option) \<Rightarrow> 'n event client_config \<Rightarrow> disk \<Rightarrow> nat \<Rightarrow> ustr \<Rightarrow> ustr \<Rightarrow> ustr \<Rightarrow> 'n capture_context
     \<Rightarrow> 'n event \<Rightarrow> 'n event client \<Rightarrow> (capture_error + ustr) \<times> 'n event client" where
  "capture_event rfc3339 cfg io clock file uuid now cx e c =
     (if closing c then (Inl SenderStopped, c)
      else case prepare_event rfc3339 uuid now cx e of
             Inl x \<Rightarrow> (Inl x, c)
           | Inr e \<Rightarrow> (let (r, c') = enqueue cfg io clock file e c in (map_sum id (\<lambda>_. event_id e) r, c')))"

definition default_event :: "'n event" where
  "default_event = \<lparr>version = 1, event_id = [], timestamp = [], message = [], error_of = None, severity_of = Error,
     release = None, environment = None, platform = None, stack_frames = [], breadcrumbs = [], event_tags = [],
     event_contexts = [], event_user = None, fingerprint_parts = None\<rparr>"

definition message_event :: "ustr \<Rightarrow> severity \<Rightarrow> 'n event" where
  "message_event m s = default_event\<lparr>message := m, severity_of := s\<rparr>"

subsection \<open>Panics and errors\<close>

definition panic_event_parts :: "ustr \<Rightarrow> ustr \<Rightarrow> stack_frame list \<Rightarrow> 'n event" where
  "panic_event_parts location payload frames =
     default_event\<lparr>message := lit ''panic at '' @ location @ lit '': '' @ payload, severity_of := Fatal,
       error_of := Some \<lparr>type_name = lit ''panic'', error_text = Some payload, error_frames = frames\<rparr>\<rparr>"

definition max_error_chain :: nat where "max_error_chain = 10"

text \<open>The causes of an error, nearest first, are the list of their texts.\<close>

definition error_chain_context :: "ustr list \<Rightarrow> 'n json list" where
  "error_chain_context sources =
     map (\<lambda>s. JObj [(lit ''type'', JStr (lit ''cause'')), (lit ''value'', JStr s)]) (take max_error_chain sources)"

definition error_event :: "ustr \<Rightarrow> ustr \<Rightarrow> ustr list \<Rightarrow> stack_frame list \<Rightarrow> severity \<Rightarrow> 'n event" where
  "error_event ty m sources frames s =
     (let chain = error_chain_context sources in
      default_event\<lparr>message := m, severity_of := s,
        error_of := Some \<lparr>type_name = ty, error_text = Some m, error_frames = frames\<rparr>,
        event_contexts := (if chain = [] then [] else [(lit ''error_chain'', JArr chain)])\<rparr>)"

subsection \<open>Stack traces\<close>

record symbol =
  sy_name :: "ustr option"
  sy_file :: "ustr option"
  sy_line :: "nat option"
  sy_column :: "nat option"

definition contains :: "ustr \<Rightarrow> ustr \<Rightarrow> bool" where
  "contains s part \<longleftrightarrow> list_ex (\<lambda>t. prefix part t) (suffixes s)"

definition classify_in_app :: "ustr \<Rightarrow> bool" where
  "classify_in_app filename \<longleftrightarrow>
     \<not> list_ex (contains filename)
         [lit ''library/std'', lit ''library/core'', lit ''library/alloc'',
          lit ''library'' @ 92 # lit ''std'', lit ''library'' @ 92 # lit ''core'', lit ''library'' @ 92 # lit ''alloc'',
          lit ''/rustc/'', 92 # lit ''rustc'' @ [92],
          lit ''/.cargo/registry/'', 92 # lit ''.cargo'' @ 92 # lit ''registry'' @ [92]]"

definition is_internal_frame :: "ustr \<Rightarrow> bool" where
  "is_internal_frame function =
     (let function = dropWhile (\<lambda>c. c = 60) function in
      list_ex (\<lambda>p. prefix (lit p) function)
        [''zbierak_sdk'', ''std::panicking'', ''core::panicking'', ''backtrace'', ''gimli'', ''addr2line'',
         ''object['', ''object::'', ''tracing::'', ''tracing['', ''tracing_core::'', ''tracing_core['',
         ''tracing_subscriber::'', ''tracing_subscriber['', ''alloc::boxed::Box<''])"

definition symbol_frame :: "symbol \<Rightarrow> stack_frame option" where
  "symbol_frame s =
     (if sy_name s = None \<and> sy_file s = None then None
      else Some \<lparr>f_filename = sy_file s, f_function = sy_name s, f_line = sy_line s, f_column = sy_column s,
        f_module = None, f_in_app = map_option classify_in_app (sy_file s)\<rparr>)"

definition truncate_frame_fields :: "stack_frame \<Rightarrow> stack_frame" where
  "truncate_frame_fields f =
     (let cut = map_option (\<lambda>s. truncate_utf8 s 1024) in
      f\<lparr>f_function := cut (f_function f), f_filename := cut (f_filename f), f_module := cut (f_module f)\<rparr>)"

definition max_frames :: nat where "max_frames = 128"

definition capture_frames :: "symbol list \<Rightarrow> stack_frame list" where
  "capture_frames symbols =
     (let frames = List.map_filter symbol_frame symbols;
          frames = rev (takeWhile (\<lambda>f. f_function f \<noteq> Some (lit ''rust_begin_unwind'')) (rev frames));
          frames = filter (\<lambda>f. \<not> (case f_function f of None \<Rightarrow> False | Some name \<Rightarrow> is_internal_frame name)) frames
      in map truncate_frame_fields (take max_frames frames))"

subsection \<open>What a capture promises\<close>

text \<open>The trail is the last breadcrumbs, as many as its capacity.\<close>

lemma trail_last: "fold (push_breadcrumb k) bs [] = drop (length bs - k) bs"
proof (induction bs rule: rev_induct)
  case (snoc b bs)
  have "fold (push_breadcrumb k) (bs @ [b]) [] = push_breadcrumb k b (drop (length bs - k) bs)"
    using snoc by simp
  also have "\<dots> = drop (length (bs @ [b]) - k) (bs @ [b])"
  proof (cases "length bs < k")
    case False
    then show ?thesis by (simp add: push_breadcrumb_def Suc_diff_le drop_Suc tl_drop)
  qed (simp add: push_breadcrumb_def)
  finally show ?case .
qed simp

lemma frame_fields_bounded:
  "list_all (\<lambda>v. byte_len (or_empty v) \<le> 1024) [f_function f', f_filename f', f_module f']"
  if "f' = truncate_frame_fields f"
  using slice_bytes_len [of 1024]
  by (auto simp: that truncate_frame_fields_def or_empty_def truncate_slice Let_def split: option.split)

text \<open>The stack trace of a capture is always within the limits of the protocol, whatever the symbols are
  called, so that a verbose symbol cannot make the event invalid.
\<close>

lemma captured_frames_valid: "validate_stack_frames field (capture_frames symbols) = Inr ()"
  unfolding frames_ok frames_bounded_def capture_frames_def Let_def
  using frame_fields_bounded by (auto simp: list_all_length max_frames_def)

lemma prepare_Inr:
  "prepare_event rfc3339 uuid now cx e0 = Inr e \<Longrightarrow> validate rfc3339 e = Inr () \<and>
    (case cx_redactor cx of None \<Rightarrow> e = fill_event uuid now cx e0 | Some f \<Rightarrow> f (fill_event uuid now cx e0) = Some e)"
  by (auto simp: prepare_event_def Let_def split: option.splits sum.splits)

definition redacted :: "(ustr \<Rightarrow> int option) \<Rightarrow> ('n event \<Rightarrow> 'n event option) \<Rightarrow> 'n event \<Rightarrow> bool" where
  "redacted rfc3339 f e \<longleftrightarrow> (\<exists>uuid now cx e0. cx_redactor cx = Some f \<and> prepare_event rfc3339 uuid now cx e0 = Inr e)"


text \<open>Two captures that the protocol refuses although the program did nothing wrong: with a capacity above
  a thousand, every event once the trail is longer than that, and a panic with a long message.\<close>

lemma long_trail_refused:
  "cx_redactor cx = None \<Longrightarrow> 1000 < length (cx_trail cx) \<Longrightarrow> breadcrumbs e = [] \<Longrightarrow>
    \<exists>x. prepare_event rfc3339 uuid now cx e = Inl x"
proof (rule ccontr)
  assume cx: "cx_redactor cx = None" "1000 < length (cx_trail cx)" "breadcrumbs e = []"
    and "\<nexists>x. prepare_event rfc3339 uuid now cx e = Inl x"
  then obtain e' where "prepare_event rfc3339 uuid now cx e = Inr e'" by (metis sum.exhaust)
  from prepare_Inr [OF this] have "validate rfc3339 (fill_event uuid now cx e) = Inr ()" using cx(1) by auto
  from validate_needs [OF this] show False using cx(2,3) by (simp add: fill_event_def)
qed

lemma long_panic_refused:
  "cx_redactor cx = None \<Longrightarrow> 16384 < byte_len payload \<Longrightarrow>
    \<exists>x. prepare_event rfc3339 uuid now cx (panic_event_parts location payload frames) = Inl x"
proof (rule ccontr)
  let ?e = "panic_event_parts location payload frames"
  assume cx: "cx_redactor cx = None" "16384 < byte_len payload" and "\<nexists>x. prepare_event rfc3339 uuid now cx ?e = Inl x"
  then obtain e' where "prepare_event rfc3339 uuid now cx ?e = Inr e'" by (metis sum.exhaust)
  from prepare_Inr [OF this] have "validate rfc3339 (fill_event uuid now cx ?e) = Inr ()" using cx(1) by auto
  from validate_needs [OF this] show False using cx(2) by (simp add: fill_event_def panic_event_parts_def)
qed

subsection \<open>An example\<close>

definition calm_event :: "unit event" where
  "calm_event = message_event (lit ''boom'') Error\<lparr>event_id := lit ''e'', timestamp := lit ''now''\<rparr>"

definition calm_cfg :: "unit event client_config" where
  "calm_cfg = \<lparr>cf_codec = \<lparr>to_vec = (\<lambda>e. Inr []), of_slice = (\<lambda>b. Some calm_event)\<rparr>, queue_capacity = 1,
     spool_max_bytes = 10, retry_interval = 10\<rparr>"

definition calm_context :: "unit capture_context" where
  "calm_context = \<lparr>cx_release = None, cx_environment = None, cx_platform = None, cx_trail = [], cx_capacity = 0,
     cx_redactor = Some (\<lambda>e. Some calm_event)\<rparr>"

lemma calm_valid: "validate (\<lambda>s. Some 2026) calm_event = Inr ()"
  by (simp add: validate_def validate_required_def validate_optional_def validate_timestamp_def validate_tags_def
      validate_parts_def validate_stack_frames_def refuse_def calm_event_def message_event_def default_event_def lit_def
      rs_trim_def strip_def strip_start_def strip_end_def rs_ws_def utf8_char_def)

lemma calm_redacted: "redacted (\<lambda>s. Some 2026) (\<lambda>e. Some calm_event) e \<longleftrightarrow> e = calm_event"
proof
  show "redacted (\<lambda>s. Some 2026) (\<lambda>e. Some calm_event) e \<Longrightarrow> e = calm_event"
    by (auto simp: redacted_def dest: prepare_Inr)
  have "prepare_event (\<lambda>s. Some 2026) [] [] calm_context calm_event = Inr calm_event"
    by (simp add: prepare_event_def calm_context_def calm_valid)
  then show "e = calm_event \<Longrightarrow> redacted (\<lambda>s. Some 2026) (\<lambda>e. Some calm_event) e"
    unfolding redacted_def by (intro exI [of _ "[]"] exI [of _ calm_context] exI [of _ calm_event]) (simp add: calm_context_def)
qed


end
