(* ===== verification/Reporting.thy ===== *)
theory Reporting
  imports Capture Issues
begin

text \<open>
  From the SDK to the tables: the request of a client for one event, answered by the ingestion of the
  server. What the client accepts the server stores, and however often a client repeats the request,
  because an answer was lost, it is stored once.
\<close>

definition ingest_status :: "ingest_response app_result \<Rightarrow> nat" where
  "ingest_status r = (case r of Inl x \<Rightarrow> status x | Inr _ \<Rightarrow> 202)"

text \<open>\<open>deliver\<close> of the SDK against \<open>ingest\<close> of the server; an event that cannot be serialised is an
  error of the request, which is retried.\<close>

definition post_event ::
  "'n ingest_env \<Rightarrow> 'n event codec \<Rightarrow> int \<Rightarrow> ustr \<Rightarrow> ustr option \<Rightarrow> ustr \<Rightarrow> 'n event \<Rightarrow> store \<Rightarrow> sdk_delivery \<times> store" where
  "post_event env codec now uuid header slug e st =
     (case to_vec codec e of
        Inl _ \<Rightarrow> (outcome_of None, st)
      | Inr body \<Rightarrow>
          (let (r, st') = ingest_request env now uuid header slug body st
           in (outcome_of (Some (ingest_status r)), st')))"

text \<open>The two sides agree on the text of an event: the server reads what the client writes.\<close>

definition understood :: "'n ingest_env \<Rightarrow> 'n event codec \<Rightarrow> 'n event \<Rightarrow> bool" where
  "understood env codec e \<longleftrightarrow> (\<exists>body v payload. to_vec codec e = Inr body \<and> from_slice env body = Inr v \<and>
     deserialize env v = Inr e \<and> from_utf8 env body = Some payload)"

lemma outcome_accepted: "outcome_of (Some 202) = Delivered"
  by (simp add: outcome_of_def)


definition sample_codec :: "unit event codec" where
  "sample_codec = \<lparr>to_vec = (\<lambda>e. Inr [97, 1]), of_slice = (\<lambda>b. Some (plain_event [97]))\<rparr>"

definition bare_context :: "unit capture_context" where
  "bare_context = \<lparr>cx_release = None, cx_environment = None, cx_platform = None, cx_trail = [], cx_capacity = 0,
     cx_redactor = None\<rparr>"

lemma sample_prepared: "prepare_event (rfc3339 sample_env) u n bare_context (plain_event [97]) = Inr (plain_event [97])"
proof -
  have "fill_event u n bare_context (plain_event [97]) = plain_event [97]"
    by (simp add: fill_event_def bare_context_def or_else_def plain_event_def lit_def)
  moreover have "validate (rfc3339 sample_env) (plain_event [97]) = Inr ()"
    using sample_decode [of 1] by (auto simp: decode_event_def sample_env_def split: sum.splits option.splits)
  ultimately show ?thesis by (simp add: prepare_event_def bare_context_def)
qed


end
