(* ===== verification/Integrations.thy ===== *)
theory Integrations
  imports Issues
begin

text \<open>
  Ingest keys and webhooks (\<open>src/handlers.rs\<close> 732--789, 2109--2217): the requests that create and remove
  them, beside ingestion, which uses the keys, and the worker, which uses the webhooks. The cipher, the
  random parts of keys and nonces and the parser of URLs are parameters; the rows of the audit log are
  left out.
\<close>

subsection \<open>State\<close>

text \<open>The tables, the next identifiers, and the names of keys and webhooks. A key is shown by its prefix.\<close>

record site =
  db :: store
  key_seq :: int
  key_labels :: "(int \<times> ustr \<times> ustr) list"
  hook_seq :: int
  hook_labels :: "(int \<times> ustr) list"

text \<open>\<open>href\<close> writes a parsed URL, \<open>seal\<close> encrypts with a nonce; the resolver is that of the worker.\<close>

record 'k hook_env =
  outbound :: "'k worker_env"
  href :: "ustr \<Rightarrow> ustr"
  seal :: "ustr \<Rightarrow> 'k \<Rightarrow> ustr \<Rightarrow> ustr app_result"

record webhook_form =
  wf_name :: ustr
  wf_url :: ustr
  wf_kind :: ustr
  wf_secret :: "ustr option"

definition project_admin :: "int \<Rightarrow> ustr \<Rightarrow> ustr \<Rightarrow> ustr \<Rightarrow> store \<Rightarrow> int app_result" where
  "project_admin user session_token slug supplied st =
     and_then (check_csrf session_token supplied) (\<lambda>_.
     require_project_role (projects st) (members st) user slug Admin)"

subsection \<open>Ingest keys\<close>

definition create_ingest_key ::
  "'n ingest_env \<Rightarrow> int \<Rightarrow> ustr \<Rightarrow> ustr \<Rightarrow> ustr \<Rightarrow> ustr \<Rightarrow> ustr \<Rightarrow> site \<Rightarrow> ustr app_result \<times> site" where
  "create_ingest_key env user session_token slug supplied raw random s =
     (case and_then (project_admin user session_token slug supplied (db s)) (\<lambda>project.
         and_then (required_text (lit ''name'') raw 100) (\<lambda>name. Inr (project, name))) of
        Inl e \<Rightarrow> (Inl e, s)
      | Inr (project, name) \<Rightarrow>
          (let key = lit ''zbk_'' @ random; hash = sha256_hex env (utf8 key) in
           if hash \<in> k_hash ` set (ingest_keys (db s)) then (Inl (Database (unique_violation env)), s)
           else
             (Inr key,
              s\<lparr>db := (db s)\<lparr>ingest_keys := ingest_keys (db s) @
                    [\<lparr>k_id = key_seq s, k_project = project, k_hash = hash, k_revoked = None, k_used = None\<rparr>]\<rparr>,
                key_seq := key_seq s + 1,
                key_labels := key_labels s @ [(key_seq s, name, take 12 key)]\<rparr>)))"

definition revokes :: "int \<Rightarrow> int \<Rightarrow> ingest_key \<Rightarrow> bool" where
  "revokes i project k \<longleftrightarrow> k_id k = i \<and> k_project k = project \<and> k_revoked k = None"

definition revoke_ingest_key ::
  "int \<Rightarrow> int \<Rightarrow> ustr \<Rightarrow> ustr \<Rightarrow> ustr \<Rightarrow> int \<Rightarrow> site \<Rightarrow> unit app_result \<times> site" where
  "revoke_ingest_key now user session_token slug supplied i s =
     (case project_admin user session_token slug supplied (db s) of
        Inl e \<Rightarrow> (Inl e, s)
      | Inr project \<Rightarrow>
          if \<not> list_ex (revokes i project) (ingest_keys (db s)) then (Inl NotFound, s)
          else
            (Inr (),
             s\<lparr>db := (db s)\<lparr>ingest_keys := map (\<lambda>k. if revokes i project k then k\<lparr>k_revoked := Some now\<rparr> else k)
                 (ingest_keys (db s))\<rparr>\<rparr>))"

subsection \<open>Webhooks\<close>

definition discord_hosts :: "ustr list" where
  "discord_hosts = [lit ''discord.com'', lit ''discordapp.com'']"

text \<open>The guards on the destination, in the order of the code.\<close>

definition check_destination :: "'k worker_env \<Rightarrow> webhook_form \<Rightarrow> unit app_result" where
  "check_destination env f =
     (case parse_url env (wf_url f) of
        Inl _ \<Rightarrow> Inl (BadRequest (lit ''invalid webhook URL''))
      | Inr url \<Rightarrow>
          if u_scheme url \<noteq> lit ''http'' \<and> u_scheme url \<noteq> lit ''https'' \<or> u_host url = None
          then Inl (BadRequest (lit ''webhook URL must be HTTP or HTTPS''))
          else if wf_kind f \<noteq> lit ''webhook'' \<and> wf_kind f \<noteq> lit ''discord''
          then Inl (BadRequest (lit ''invalid webhook kind''))
          else
            (let host = (case u_host url of None \<Rightarrow> [] | Some h \<Rightarrow> h);
                 default_port = (if u_scheme url = lit ''https'' then 443 else 80);
                 port = (case u_port url of None \<Rightarrow> default_port | Some p \<Rightarrow> p) in
             if wf_kind f = lit ''discord'' \<and> (u_scheme url \<noteq> lit ''https'' \<or> host \<notin> set discord_hosts)
             then Inl (BadRequest (lit ''invalid Discord webhook URL''))
             else
               (case resolve_allowed_with (resolver env) host port of
                  Inl error \<Rightarrow> Inl (BadRequest (lit ''webhook destination rejected: '' @ policy_text error))
                | Inr _ \<Rightarrow> Inr ())))"

definition webhook_secret :: "'k hook_env \<Rightarrow> ustr \<Rightarrow> webhook_form \<Rightarrow> (ustr option \<times> int) app_result" where
  "webhook_secret henv nonce f =
     (if wf_kind f = lit ''webhook'' then
        and_then (required_text (lit ''webhook secret'') (case wf_secret f of None \<Rightarrow> [] | Some t \<Rightarrow> t) 1024) (\<lambda>secret.
        if length secret < 16 then Inl (BadRequest (lit ''webhook secret must contain at least 16 characters''))
        else
          (case webhook_key (outbound henv) of
             None \<Rightarrow> Inl (BadRequest (lit ''ZBIERAK_SECRET_KEY must be configured to store webhook signing secrets''))
           | Some key \<Rightarrow> and_then (seal henv nonce key secret) (\<lambda>c. Inr (Some c, 1))))
      else Inr (None, 0))"

definition create_webhook ::
  "'k hook_env \<Rightarrow> int \<Rightarrow> ustr \<Rightarrow> ustr \<Rightarrow> ustr \<Rightarrow> ustr \<Rightarrow> webhook_form \<Rightarrow> site \<Rightarrow> unit app_result \<times> site" where
  "create_webhook henv user session_token slug supplied nonce f s =
     (case and_then (project_admin user session_token slug supplied (db s)) (\<lambda>project.
         and_then (required_text (lit ''name'') (wf_name f) 100) (\<lambda>name.
         and_then (check_destination (outbound henv) f) (\<lambda>_.
         and_then (webhook_secret henv nonce f) (\<lambda>sealed. Inr (project, name, sealed))))) of
        Inl e \<Rightarrow> (Inl e, s)
      | Inr (project, name, secret, encrypted) \<Rightarrow>
          (Inr (),
           s\<lparr>db := (db s)\<lparr>endpoints := endpoints (db s) @
                 [\<lparr>ep_id = hook_seq s, ep_project = project, ep_kind = wf_kind f, ep_url = href henv (wf_url f),
                   ep_secret = secret, ep_secret_encrypted = encrypted, ep_enabled = 1\<rparr>]\<rparr>,
             hook_seq := hook_seq s + 1, hook_labels := hook_labels s @ [(hook_seq s, name)]\<rparr>))"

text \<open>Removing a webhook removes its notifications: the foreign key of \<open>outbox\<close> cascades.\<close>

definition delete_webhook ::
  "int \<Rightarrow> ustr \<Rightarrow> ustr \<Rightarrow> ustr \<Rightarrow> int \<Rightarrow> site \<Rightarrow> unit app_result \<times> site" where
  "delete_webhook user session_token slug supplied i s =
     (case project_admin user session_token slug supplied (db s) of
        Inl e \<Rightarrow> (Inl e, s)
      | Inr project \<Rightarrow>
          if \<not> list_ex (\<lambda>e. ep_id e = i \<and> ep_project e = project) (endpoints (db s)) then (Inl NotFound, s)
          else
            (Inr (),
             s\<lparr>db := (db s)\<lparr>
                 endpoints := filter (\<lambda>e. \<not> (ep_id e = i \<and> ep_project e = project)) (endpoints (db s)),
                 outbox := filter (\<lambda>r. ob_endpoint r \<noteq> i) (outbox (db s))\<rparr>,
               hook_labels := filter (\<lambda>l. fst l \<noteq> i) (hook_labels s)\<rparr>))"

subsection \<open>Runs\<close>

text \<open>
  The requests of this theory, ingestion, the requests that change issues and the worker, in any
  order. Projects and memberships change beside them; projects are never removed.
\<close>

inductive site_step :: "'n ingest_env \<Rightarrow> 'k hook_env \<Rightarrow> site \<Rightarrow> site \<Rightarrow> bool" for env henv where
  key_made: "create_ingest_key env user t slug u raw random s = (x, s') \<Longrightarrow> site_step env henv s s'"
| key_revoked: "revoke_ingest_key now user t slug u i s = (x, s') \<Longrightarrow> site_step env henv s s'"
| hook_made: "create_webhook henv user t slug u nonce f s = (x, s') \<Longrightarrow> site_step env henv s s'"
| hook_gone: "delete_webhook user t slug u i s = (x, s') \<Longrightarrow> site_step env henv s s'"
| event: "ingest_request env now uuid header slug body (db s) = (x, st') \<Longrightarrow> site_step env henv s (s\<lparr>db := st'\<rparr>)"
| status: "change_issue_status now user t slug u i w (db s) = (x, st') \<Longrightarrow> site_step env henv s (s\<lparr>db := st'\<rparr>)"
| resolve: "resolve_issue now user t slug u i (db s) = (x, st') \<Longrightarrow> site_step env henv s (s\<lparr>db := st'\<rparr>)"
| reopen: "reopen_issue now user t slug u i (db s) = (x, st') \<Longrightarrow> site_step env henv s (s\<lparr>db := st'\<rparr>)"
| tags: "update_issue_tags_form now user t slug u i text (db s) = (x, st') \<Longrightarrow> site_step env henv s (s\<lparr>db := st'\<rparr>)"
| api_tags: "update_issue_tags now user slug i payload (db s) = (x, st') \<Longrightarrow> site_step env henv s (s\<lparr>db := st'\<rparr>)"
| taken: "claim null_error (endpoints (db s)) now (outbox (db s)) = (x, rows) \<Longrightarrow>
    site_step env henv s (s\<lparr>db := (db s)\<lparr>outbox := rows\<rparr>\<rparr>)"
| answered: "deliver (outbound henv) answer now d (outbox (db s)) = (x, rows) \<Longrightarrow>
    site_step env henv s (s\<lparr>db := (db s)\<lparr>outbox := rows\<rparr>\<rparr>)"
| team: "site_step env henv s (s\<lparr>db := (db s)\<lparr>projects := projects (db s) @ p, members := m\<rparr>\<rparr>)"

definition empty_site :: site where
  "empty_site = \<lparr>db = empty_store, key_seq = 1, key_labels = [], hook_seq = 1, hook_labels = []\<rparr>"

abbreviation site_reach :: "'n ingest_env \<Rightarrow> 'k hook_env \<Rightarrow> site \<Rightarrow> site \<Rightarrow> bool" where
  "site_reach env henv \<equiv> (site_step env henv)\<^sup>*\<^sup>*"


subsection \<open>What ingestion, triage and the worker leave alone\<close>

definition key_data :: "ingest_key \<Rightarrow> int \<times> int \<times> ustr \<times> int option" where
  "key_data k = (k_id k, k_project k, k_hash k, k_revoked k)"

text \<open>Keys and webhooks are as before, and notifications are for webhooks.\<close>

definition untouched :: "store \<Rightarrow> store \<Rightarrow> bool" where
  "untouched st st' \<longleftrightarrow> map key_data (ingest_keys st') = map key_data (ingest_keys st) \<and> endpoints st' = endpoints st \<and>
     ob_endpoint ` set (outbox st') \<subseteq> ob_endpoint ` set (outbox st) \<union> ep_id ` set (endpoints st)"

lemma untouched_refl: "untouched st st"
  by (simp add: untouched_def)

lemma untouched_trans:
  assumes "untouched a b" "untouched b c"
  shows "untouched a c"
proof -
  have "ob_endpoint ` set (outbox c) \<subseteq> ob_endpoint ` set (outbox b) \<union> ep_id ` set (endpoints a)"
    "ob_endpoint ` set (outbox b) \<subseteq> ob_endpoint ` set (outbox a) \<union> ep_id ` set (endpoints a)"
    using assms by (simp_all add: untouched_def)
  then have "ob_endpoint ` set (outbox c) \<subseteq> ob_endpoint ` set (outbox a) \<union> ep_id ` set (endpoints a)" by blast
  then show ?thesis using assms by (simp add: untouched_def)
qed

lemma untouched_key: "untouched st (touch_key now k st)"
  by (simp add: untouched_def touch_key_def key_data_def comp_def)

lemma outbox_rows_endpoint: "ob_endpoint ` set (outbox_rows now n k x eps) = ep_id ` set eps"
  by (induction eps arbitrary: n) (simp_all add: outbox_rows_Cons, simp add: outbox_rows_def)

lemma untouched_notify: "untouched st (notify now project kind payload st)"
  by (auto simp: untouched_def notify_def Let_def image_Un outbox_rows_endpoint)

lemma untouched_group: "untouched st (snd (group_event now project fp title producer st))"
  by (simp add: untouched_def group_event_def Let_def split: option.split)

lemma untouched_tags: "untouched st (seed_tags i ls st)"
  by (simp add: untouched_def seed_tags_def)

lemma untouched_rows: "untouched st (st\<lparr>raws := r\<rparr>)" "untouched st (st\<lparr>events := e\<rparr>)"
  by (simp_all add: untouched_def)

lemma untouched_store: "untouched st (snd (store_event env now uuid key project slug body d st))"
proof -
  obtain v ev payload where d: "d = (v, ev, payload)" by (cases d) auto
  let ?g = "group_event now project (event_fingerprint (blake3_hex env) (show_value env) v) (take 200 (message ev)) (event_id ev)
    (st\<lparr>raws := raws st @ [\<lparr>raw_id = uuid, raw_project = project, raw_key = key, raw_body = body,
       raw_producer = event_id ev, raw_hash = Some (sha256_hex env body)\<rparr>]\<rparr>)"
  obtain i kind st1 where g: "?g = ((i, kind), st1)" by (metis surj_pair)
  have 1: "untouched st st1"
    using untouched_trans [OF untouched_rows(1) untouched_group] g by (metis snd_conv)
  note more = untouched_trans [OF untouched_trans [OF untouched_trans [OF 1 untouched_tags] untouched_rows(2)] untouched_key]
  show ?thesis
  proof (cases kind)
    case None
    show ?thesis unfolding d store_event_def Let_def prod.case g None option.case snd_conv by (rule more)
  next
    case (Some k)
    show ?thesis unfolding d store_event_def Let_def prod.case g Some option.case snd_conv
      by (rule untouched_trans [OF more untouched_notify])
  qed
qed

lemma untouched_event:
  assumes "ingest_request env now uuid header slug body st = (x, st')"
  shows "untouched st st'"
proof -
  have "untouched st t" if "ingest env now uuid key project slug body st = (y, t)" for key project y t
  proof (cases "decode_event env body")
    case (Inl e)
    then show ?thesis using that by (simp add: ingest_def untouched_refl)
  next
    case (Inr d)
    obtain v ev payload where d: "d = (v, ev, payload)" by (cases d) auto
    let ?dup = "duplicate_event env now key project (event_id ev) (sha256_hex env body) st"
    let ?new = "store_event env now uuid key project slug body (v, ev, payload) st"
    have "t = snd ?dup \<or> t = st \<or> t = snd ?new"
      using that Inr d by (simp add: ingest_def split: if_splits) (metis snd_apfst snd_conv)
    moreover have "untouched st (snd ?dup)"
      using duplicate_frame [OF prod.collapse [symmetric]] untouched_refl untouched_key by (metis (no_types))
    ultimately show ?thesis using untouched_refl untouched_store by (elim disjE) simp_all
  qed
  then show ?thesis using assms by (auto simp: ingest_request_def intro: untouched_refl split: sum.splits)
qed

lemma untouched_status: "set_issue_status now user t slug u i w st = (x, st') \<Longrightarrow> untouched st st'"
  by (auto simp: set_issue_status_def untouched_def split: sum.splits option.splits if_splits)

lemma untouched_labels: "replace_issue_tags now project i user tags st = (x, st') \<Longrightarrow> untouched st st'"
  by (auto simp: replace_issue_tags_def Let_def untouched_def split: if_splits)

lemma untouched_outbox:
  "ob_endpoint ` set rows = ob_endpoint ` set (outbox st) \<Longrightarrow> untouched st (st\<lparr>outbox := rows\<rparr>)"
  by (simp add: untouched_def)

lemma update_row_endpoints:
  assumes "\<And>r. ob_endpoint (f r) = ob_endpoint r"
  shows "ob_endpoint ` set (update_row i f rows) = ob_endpoint ` set rows"
  unfolding update_row_def set_map image_image by (rule image_cong) (simp_all add: assms)

text \<open>A step is one of the four requests of this theory, a change of the team, or leaves both alone.\<close>

lemma site_step_cases:
  assumes "site_step env henv s s'"
  obtains (made) user t slug u raw random x where "create_ingest_key env user t slug u raw random s = (x, s')"
  | (revoked) now user t slug u i x where "revoke_ingest_key now user t slug u i s = (x, s')"
  | (hooked) user t slug u nonce f x where "create_webhook henv user t slug u nonce f s = (x, s')"
  | (gone) user t slug u i x where "delete_webhook user t slug u i s = (x, s')"
  | (other) st' where "s' = s\<lparr>db := st'\<rparr>" "untouched (db s) st'"
  using assms
proof cases
  case (event now uuid header slug body x st')
  then show ?thesis by (intro other untouched_event)
next
  case (status now user t slug u i w x st')
  then show ?thesis
    by (intro other) (auto simp: change_issue_status_def intro: untouched_refl untouched_status split: option.splits)
next
  case (resolve now user t slug u i x st')
  then show ?thesis by (intro other) (auto simp: resolve_issue_def intro: untouched_status)
next
  case (reopen now user t slug u i x st')
  then show ?thesis by (intro other) (auto simp: reopen_issue_def intro: untouched_status)
next
  case (tags now user t slug u i field x st')
  then show ?thesis
    by (intro other) (auto simp: update_issue_tags_form_def intro: untouched_refl untouched_labels split: sum.splits if_splits)
next
  case (api_tags now user slug i payload x st')
  then show ?thesis
    by (intro other) (auto simp: update_issue_tags_def intro: untouched_refl untouched_labels split: sum.splits)
next
  case (taken null_error now x rows)
  from taken(2) have "rows = outbox (db s) \<or> (\<exists>i. rows = update_row i (claimed now) (outbox (db s)))"
    by (auto simp: claim_def split: option.splits)
  then have "ob_endpoint ` set rows = ob_endpoint ` set (outbox (db s))"
    by (elim disjE exE) (simp_all only: update_row_endpoints claimed_keeps)
  then show ?thesis by (intro other [OF taken(1)] untouched_outbox)
next
  case (answered answer now d x rows)
  then have "ob_endpoint ` set rows = ob_endpoint ` set (outbox (db s))"
    unfolding deliver_def Let_def case_prod_beta by (metis prod.inject update_row_endpoints settle_keeps(2))
  then show ?thesis by (intro other [OF answered(1)] untouched_outbox)
next
  case (team p m)
  then show ?thesis by (intro other) (auto simp: untouched_def)
qed (use made revoked hooked gone in blast)+

subsection \<open>The invariant\<close>

definition destined :: "'k hook_env \<Rightarrow> endpoint \<Rightarrow> bool" where
  "destined henv e \<longleftrightarrow> (\<exists>raw url host. ep_url e = href henv raw \<and> parse_url (outbound henv) raw = Inr url \<and>
     (u_scheme url = lit ''http'' \<or> u_scheme url = lit ''https'') \<and> u_host url = Some host \<and>
     (ep_kind e = lit ''discord'' \<longrightarrow> u_scheme url = lit ''https'' \<and> host \<in> set discord_hosts))"

definition sealed_secret :: "'k hook_env \<Rightarrow> endpoint \<Rightarrow> bool" where
  "sealed_secret henv e \<longleftrightarrow>
     ep_kind e = lit ''discord'' \<and> ep_secret e = None \<or>
     ep_kind e = lit ''webhook'' \<and> ep_secret_encrypted e = 1 \<and>
     (\<exists>nonce key secret c. webhook_key (outbound henv) = Some key \<and> 16 \<le> length secret \<and> length secret \<le> 1024 \<and>
        seal henv nonce key secret = Inr c \<and> ep_secret e = Some c)"

definition site_ok :: "'k hook_env \<Rightarrow> site \<Rightarrow> bool" where
  "site_ok henv s \<longleftrightarrow>
     distinct (map k_id (ingest_keys (db s))) \<and> distinct (map k_hash (ingest_keys (db s))) \<and>
     (\<forall>k \<in> set (ingest_keys (db s)). k_id k < key_seq s) \<and>
     distinct (map ep_id (endpoints (db s))) \<and> (\<forall>e \<in> set (endpoints (db s)). ep_id e < hook_seq s) \<and>
     ob_endpoint ` set (outbox (db s)) \<subseteq> ep_id ` set (endpoints (db s)) \<and>
     (\<forall>e \<in> set (endpoints (db s)). destined henv e \<and> sealed_secret henv e)"

lemma empty_site_ok: "site_ok henv empty_site"
  by (simp add: site_ok_def empty_site_def empty_store_def)

lemma key_data_maps:
  assumes "map key_data ks = map key_data ls"
  shows "map k_id ks = map k_id ls" "map k_hash ks = map k_hash ls"
    "map (\<lambda>k. (k_id k, k_project k, k_hash k)) ks = map (\<lambda>k. (k_id k, k_project k, k_hash k)) ls"
    "(\<lambda>k. (k_id k, k_revoked k)) ` set ks = (\<lambda>k. (k_id k, k_revoked k)) ` set ls"
proof -
  have "map (f \<circ> key_data) ks = map (f \<circ> key_data) ls" for f :: "_ \<Rightarrow> 'z"
    using arg_cong [OF assms, of "map f"] by simp
  note * = this
  show "map k_id ks = map k_id ls" using * [of fst] by (simp add: key_data_def comp_def)
  show "map k_hash ks = map k_hash ls" using * [of "\<lambda>(a, b, c, d). c"] by (simp add: key_data_def comp_def)
  show "map (\<lambda>k. (k_id k, k_project k, k_hash k)) ks = map (\<lambda>k. (k_id k, k_project k, k_hash k)) ls"
    using * [of "\<lambda>(a, b, c, d). (a, b, c)"] by (simp add: key_data_def comp_def)
  have "map (\<lambda>k. (k_id k, k_revoked k)) ks = map (\<lambda>k. (k_id k, k_revoked k)) ls"
    using * [of "\<lambda>(a, b, c, d). (a, d)"] by (simp add: key_data_def comp_def)
  then show "(\<lambda>k. (k_id k, k_revoked k)) ` set ks = (\<lambda>k. (k_id k, k_revoked k)) ` set ls"
    by (metis list.set_map)
qed

lemma key_bound: "(\<forall>k \<in> set ks. k_id k < n) \<longleftrightarrow> list_all (\<lambda>i. i < n) (map k_id ks)"
  by (simp add: list_all_iff)

lemma checked_destination:
  assumes "check_destination (outbound henv) f = Inr ()"
  shows "destined henv \<lparr>ep_id = i, ep_project = p, ep_kind = wf_kind f, ep_url = href henv (wf_url f), ep_secret = c,
    ep_secret_encrypted = x, ep_enabled = 1\<rparr>" and "wf_kind f = lit ''webhook'' \<or> wf_kind f = lit ''discord''"
  using assms by (auto simp: check_destination_def destined_def Let_def split: sum.splits if_splits)

lemma checked_secret:
  assumes "webhook_secret henv nonce f = Inr (c, x)" "wf_kind f = lit ''webhook'' \<or> wf_kind f = lit ''discord''"
  shows "sealed_secret henv \<lparr>ep_id = i, ep_project = p, ep_kind = wf_kind f, ep_url = u, ep_secret = c,
    ep_secret_encrypted = x, ep_enabled = 1\<rparr>"
  using assms by (auto simp: webhook_secret_def sealed_secret_def and_then_Inr_iff required_text_Inr lit_def
      not_less split: if_splits option.splits)

text \<open>A request of this theory is refused and changes nothing, or has this effect.\<close>

lemma key_made_cases:
  assumes "create_ingest_key env user t slug u raw random s = (x, s')"
  obtains (refused) e where "x = Inl e" "s' = s"
  | (done_so) project name where "project_admin user t slug u (db s) = Inr project"
    "required_text (lit ''name'') raw 100 = Inr name" "x = Inr (lit ''zbk_'' @ random)"
    "sha256_hex env (utf8 (lit ''zbk_'' @ random)) \<notin> k_hash ` set (ingest_keys (db s))"
    "s' = s\<lparr>db := (db s)\<lparr>ingest_keys := ingest_keys (db s) @
        [\<lparr>k_id = key_seq s, k_project = project, k_hash = sha256_hex env (utf8 (lit ''zbk_'' @ random)),
          k_revoked = None, k_used = None\<rparr>]\<rparr>,
      key_seq := key_seq s + 1,
      key_labels := key_labels s @ [(key_seq s, name, take 12 (lit ''zbk_'' @ random))]\<rparr>"
proof (cases "and_then (project_admin user t slug u (db s)) (\<lambda>project.
         and_then (required_text (lit ''name'') raw 100) (\<lambda>name. Inr (project, name)))")
  case (Inr pn)
  obtain project name where pn: "pn = (project, name)" by (cases pn) auto
  with Inr have a: "project_admin user t slug u (db s) = Inr project" "required_text (lit ''name'') raw 100 = Inr name"
    by (auto simp: and_then_Inr_iff)
  let ?h = "sha256_hex env (utf8 (lit ''zbk_'' @ random))"
  show ?thesis
  proof (cases "?h \<in> k_hash ` set (ingest_keys (db s))")
    case True
    then have "x = Inl (Database (unique_violation env))" "s' = s"
      using assms a by (simp_all add: create_ingest_key_def Let_def del: utf8_simps)
    then show ?thesis by (rule refused)
  next
    case False
    show ?thesis
      by (rule done_so [OF a _ False]) (use assms a False in \<open>simp_all add: create_ingest_key_def Let_def del: utf8_simps\<close>)
  qed
next
  case (Inl e)
  then have "x = Inl e" "s' = s" using assms by (simp_all add: create_ingest_key_def)
  then show ?thesis by (rule refused)
qed

lemma key_revoked_cases:
  assumes "revoke_ingest_key now user t slug u i s = (x, s')"
  obtains (refused) e where "x = Inl e" "s' = s"
  | (done_so) project where "project_admin user t slug u (db s) = Inr project" "x = Inr ()"
    "list_ex (revokes i project) (ingest_keys (db s))"
    "s' = s\<lparr>db := (db s)\<lparr>ingest_keys := map (\<lambda>k. if revokes i project k then k\<lparr>k_revoked := Some now\<rparr> else k)
       (ingest_keys (db s))\<rparr>\<rparr>"
proof (cases "project_admin user t slug u (db s)")
  case (Inl e)
  then have "x = Inl e" "s' = s" using assms by (simp_all add: revoke_ingest_key_def)
  then show ?thesis by (rule refused)
next
  case (Inr project)
  show ?thesis
  proof (cases "list_ex (revokes i project) (ingest_keys (db s))")
    case True
    show ?thesis by (rule done_so [OF Inr _ True]) (use assms Inr True in \<open>simp_all add: revoke_ingest_key_def\<close>)
  next
    case False
    then have "x = Inl NotFound" "s' = s" using assms Inr by (simp_all add: revoke_ingest_key_def)
    then show ?thesis by (rule refused)
  qed
qed

lemma hook_made_cases:
  assumes "create_webhook henv user t slug u nonce f s = (x, s')"
  obtains (refused) e where "x = Inl e" "s' = s"
  | (done_so) project name e where "ep_id e = hook_seq s" "destined henv e" "sealed_secret henv e"
    "s' = s\<lparr>db := (db s)\<lparr>endpoints := endpoints (db s) @ [e]\<rparr>, hook_seq := hook_seq s + 1,
       hook_labels := hook_labels s @ [(hook_seq s, name)]\<rparr>"
proof (cases "and_then (project_admin user t slug u (db s)) (\<lambda>project.
         and_then (required_text (lit ''name'') (wf_name f) 100) (\<lambda>name.
         and_then (check_destination (outbound henv) f) (\<lambda>_.
         and_then (webhook_secret henv nonce f) (\<lambda>sealed. Inr (project, name, sealed)))))")
  case (Inr pn)
  obtain project name c n where pn: "pn = (project, name, c, n)" by (cases pn) auto
  with Inr have k: "check_destination (outbound henv) f = Inr ()" and c: "webhook_secret henv nonce f = Inr (c, n)"
    by (auto simp: and_then_Inr_iff)
  let ?e = "\<lparr>ep_id = hook_seq s, ep_project = project, ep_kind = wf_kind f, ep_url = href henv (wf_url f),
    ep_secret = c, ep_secret_encrypted = n, ep_enabled = 1\<rparr>"
  have e: "ep_id ?e = hook_seq s" by simp
  show ?thesis
    by (rule done_so [where name = name, OF e checked_destination(1) [OF k] checked_secret [OF c checked_destination(2) [OF k]]])
      (use assms Inr pn in \<open>simp add: create_webhook_def\<close>)
next
  case (Inl e)
  then have "x = Inl e" "s' = s" using assms by (simp_all add: create_webhook_def)
  then show ?thesis by (rule refused)
qed

lemma hook_gone_cases:
  assumes "delete_webhook user t slug u i s = (x, s')"
  obtains (refused) e where "x = Inl e" "s' = s"
  | (done_so) project where "s' = s\<lparr>db := (db s)\<lparr>
       endpoints := filter (\<lambda>e. \<not> (ep_id e = i \<and> ep_project e = project)) (endpoints (db s)),
       outbox := filter (\<lambda>r. ob_endpoint r \<noteq> i) (outbox (db s))\<rparr>,
     hook_labels := filter (\<lambda>l. fst l \<noteq> i) (hook_labels s)\<rparr>"
proof (cases "project_admin user t slug u (db s)")
  case (Inl e)
  then have "x = Inl e" "s' = s" using assms by (simp_all add: delete_webhook_def)
  then show ?thesis by (rule refused)
next
  case (Inr project)
  show ?thesis
  proof (cases "list_ex (\<lambda>e. ep_id e = i \<and> ep_project e = project) (endpoints (db s))")
    case True
    show ?thesis by (rule done_so [where project = project]) (use assms Inr True in \<open>simp add: delete_webhook_def\<close>)
  next
    case False
    then have "x = Inl NotFound" "s' = s" using assms Inr by (simp_all add: delete_webhook_def)
    then show ?thesis by (rule refused)
  qed
qed

lemma site_step_ok:
  assumes "site_step env henv s s'" "site_ok henv s"
  shows "site_ok henv s'"
  using assms(1)
proof (cases rule: site_step_cases)
  case (made user t slug u raw random x)
  have n: "key_seq s \<notin> k_id ` set (ingest_keys (db s))" using assms(2) by (auto simp: site_ok_def)
  have b: "\<forall>k \<in> set (ingest_keys (db s)). k_id k < key_seq s + 1" using assms(2) by (auto simp: site_ok_def)
  from made show ?thesis
    by (cases rule: key_made_cases) (use assms(2) n b in \<open>simp_all add: site_ok_def\<close>)
next
  case (revoked now user t slug u i x)
  then show ?thesis
  proof (cases rule: key_revoked_cases)
    case (done_so project)
    let ?f = "\<lambda>k. if revokes i project k then k\<lparr>k_revoked := Some now\<rparr> else k"
    have "k_id \<circ> ?f = k_id" "k_hash \<circ> ?f = k_hash" by auto
    then show ?thesis using assms(2) done_so(4) unfolding site_ok_def key_bound by simp
  qed (use assms(2) in simp)
next
  case (hooked user t slug u nonce f x)
  have n: "hook_seq s \<notin> ep_id ` set (endpoints (db s))" using assms(2) by (auto simp: site_ok_def)
  have b: "\<forall>e \<in> set (endpoints (db s)). ep_id e < hook_seq s + 1" using assms(2) by (auto simp: site_ok_def)
  from hooked show ?thesis
    by (cases rule: hook_made_cases) (use assms(2) n b in \<open>simp_all add: site_ok_def subset_insertI2\<close>)
next
  case (gone user t slug u i x)
  then show ?thesis
    by (cases rule: hook_gone_cases) (use assms(2) in \<open>auto simp: site_ok_def distinct_map_filter\<close>)
next
  case (other st')
  have d: "map k_id (ingest_keys st') = map k_id (ingest_keys (db s))"
    "map k_hash (ingest_keys st') = map k_hash (ingest_keys (db s))"
    by (rule key_data_maps, use other(2) in \<open>simp add: untouched_def\<close>)+
  have "ob_endpoint ` set (outbox st') \<subseteq> ep_id ` set (endpoints (db s))"
    using assms(2) other(2) unfolding site_ok_def untouched_def by blast
  with d show ?thesis using assms(2) other unfolding site_ok_def key_bound untouched_def by simp
qed

interpretation site: machine "site_step env henv" "site_ok henv"
  by unfold_locales (rule site_step_ok)


subsection \<open>The life of a key\<close>

text \<open>Later keys: the old rows with their hashes, in place, and a key in effect was in effect before.\<close>

definition keys_later :: "site \<Rightarrow> site \<Rightarrow> bool" where
  "keys_later s s' \<longleftrightarrow> key_seq s \<le> key_seq s' \<and>
     prefix (map (\<lambda>k. (k_id k, k_project k, k_hash k)) (ingest_keys (db s)))
       (map (\<lambda>k. (k_id k, k_project k, k_hash k)) (ingest_keys (db s'))) \<and>
     (\<forall>i < key_seq s. (i, None) \<in> (\<lambda>k. (k_id k, k_revoked k)) ` set (ingest_keys (db s')) \<longrightarrow>
        (i, None) \<in> (\<lambda>k. (k_id k, k_revoked k)) ` set (ingest_keys (db s)))"

lemma keys_later_refl: "keys_later s s"
  by (simp add: keys_later_def)

lemma keys_later_trans: "keys_later a b \<Longrightarrow> keys_later b c \<Longrightarrow> keys_later a c"
  unfolding keys_later_def by (blast intro: order_trans prefix_order.trans dest: less_le_trans)

lemma same_keys_later:
  assumes "map key_data (ingest_keys (db s')) = map key_data (ingest_keys (db s))" "key_seq s' = key_seq s"
  shows "keys_later s s'"
  using assms(2) key_data_maps(3,4) [OF assms(1)] by (simp add: keys_later_def)

lemma site_step_later:
  assumes "site_step env henv s s'"
  shows "keys_later s s'"
  using assms
proof (cases rule: site_step_cases)
  case (made user t slug u raw random x)
  then show ?thesis by (cases rule: key_made_cases) (simp_all add: keys_later_def)
next
  case (revoked now user t slug u i x)
  then show ?thesis
  proof (cases rule: key_revoked_cases)
    case (done_so project)
    let ?f = "\<lambda>k. if revokes i project k then k\<lparr>k_revoked := Some now\<rparr> else k"
    have core: "(\<lambda>k. (k_id k, k_project k, k_hash k)) \<circ> ?f = (\<lambda>k. (k_id k, k_project k, k_hash k))" by auto
    have "k_id (?f k) = k_id k" "k_revoked (?f k) = None \<Longrightarrow> k_revoked k = None" for k by (auto split: if_splits)
    then have "(j, None) \<in> (\<lambda>k. (k_id k, k_revoked k)) ` set ks"
      if "(j, None) \<in> (\<lambda>k. (k_id k, k_revoked k)) ` ?f ` set ks" for j ks
      using that by (smt (verit) image_iff prod.inject)
    then show ?thesis using core by (simp add: keys_later_def done_so(4))
  qed (simp add: keys_later_refl)
next
  case (hooked user t slug u nonce f x)
  then show ?thesis by (cases rule: hook_made_cases) (simp_all add: keys_later_def)
next
  case (gone user t slug u i x)
  then show ?thesis by (cases rule: hook_gone_cases) (simp_all add: keys_later_def)
next
  case (other st')
  then show ?thesis by (intro same_keys_later) (simp_all add: untouched_def)
qed

lemma site_reach_later: "site_reach env henv s s' \<Longrightarrow> keys_later s s'"
  by (induction rule: rtranclp_induct) (auto intro: keys_later_refl keys_later_trans site_step_later)

lemma reached_site_ok: "site_reach env henv empty_site s \<Longrightarrow> site_ok henv s"
  using site.runs empty_site_ok by blast

lemma key_by_id:
  "site_ok henv s \<Longrightarrow> k \<in> set (ingest_keys (db s)) \<Longrightarrow> k' \<in> set (ingest_keys (db s)) \<Longrightarrow> k_id k = k_id k' \<Longrightarrow> k = k'"
  by (simp add: site_ok_def distinct_map inj_on_def)

lemma key_of_Inr:
  assumes "ingest_key_project env st header slug = Inr (i, project)"
  shows "(i, None) \<in> (\<lambda>k. (k_id k, k_revoked k)) ` set (ingest_keys st)"
  using assms
  by (force simp: ingest_key_project_def and_then_Inr_iff image_iff dest: find_SomeD split: option.splits)

text \<open>C16:
  Once a request to revoke an ingest key has succeeded, no program is let in with that key again,
  whatever header it sends and whatever happens in between.
\<close>

lemma revoked_key_refused:
  assumes "site_reach env henv empty_site s" "revoke_ingest_key now user t slug u i s = (Inr (), s1)"
    and "site_reach env henv s1 s2"
  shows "ingest_key_project env (db s2) header slug' \<noteq> Inr (i, project)"
proof
  assume a: "ingest_key_project env (db s2) header slug' = Inr (i, project)"
  have ok: "site_ok henv s" by (rule reached_site_ok [OF assms(1)])
  from assms(2) show False
  proof (cases rule: key_revoked_cases)
    case (done_so p)
    from done_so(3) obtain k where k: "k \<in> set (ingest_keys (db s))" "revokes i p k" by (auto simp: list_ex_iff)
    have one: "k' = k" if "k' \<in> set (ingest_keys (db s))" "k_id k' = i" for k'
      by (rule key_by_id [OF ok that(1) k(1)]) (use k(2) that(2) in \<open>simp add: revokes_def\<close>)
    have "i < key_seq s1" using ok k by (auto simp: site_ok_def revokes_def done_so(4))
    then have "(i, None) \<in> (\<lambda>k. (k_id k, k_revoked k)) ` set (ingest_keys (db s1))"
      using site_reach_later [OF assms(3)] key_of_Inr [OF a] by (simp add: keys_later_def)
    then obtain k' where "k' \<in> set (ingest_keys (db s1))" "k_id k' = i" "k_revoked k' = None" by auto
    then obtain k0 where "k0 \<in> set (ingest_keys (db s))" "k_id k0 = i" "\<not> revokes i p k0"
      by (auto simp: done_so(4) split: if_splits)
    then show False using one k(2) by blast
  qed simp
qed

lemma bearer_text:
  assumes "\<forall>c \<in> set b. \<not> rs_ws c" "b \<noteq> []"
  shows "bearer (Some (lit ''Bearer '' @ b)) = Inr b"
proof -
  have "split_once 32 (lit ''Bearer '' @ b) = Some (lit ''Bearer'', b)" by (simp add: lit_def)
  moreover have "rs_trim b = b" unfolding rs_trim_def using assms by (intro strip_id) (auto dest: hd_in_set last_in_set)
  moreover have "map ascii_lower (lit ''Bearer'') = lit ''bearer''" by (simp add: lit_def char_class_defs)
  ultimately show ?thesis using assms(2) by (simp add: bearer_def)
qed

lemma find_hash:
  assumes "distinct (map k_hash ks)" "k \<in> set ks"
  shows "find (\<lambda>x. k_hash x = k_hash k \<and> P x) ks = (if P k then Some k else None)"
  using assms
proof (induction ks)
  case (Cons a ks)
  then show ?case by (cases "a = k") (auto simp: find_None_iff image_iff)
qed simp

text \<open>C24:
  The text a project gets for a new key lets its holder in at every later time, exactly for the slugs
  of the key's project and as long as the key has not been revoked, however many other keys come and go.
\<close>

lemma key_lifetime:
  assumes "site_reach env henv empty_site s" "create_ingest_key env user t slug u raw random s = (Inr key, s1)"
    and "site_reach env henv s1 s2" "\<forall>c \<in> set random. \<not> rs_ws c"
  shows "\<exists>project. project_admin user t slug u (db s) = Inr project \<and>
    ingest_key_project env (db s2) (Some (lit ''Bearer '' @ key)) slug' =
      (if (key_seq s, None) \<in> (\<lambda>k. (k_id k, k_revoked k)) ` set (ingest_keys (db s2)) \<and>
          list_ex (\<lambda>p. fst p = project \<and> same_slug (snd p) slug') (projects (db s2))
       then Inr (key_seq s, project) else Inl Unauthorized)"
  using assms(2)
proof (cases rule: key_made_cases)
  case (done_so project name)
  let ?key = "lit ''zbk_'' @ random"
  let ?h = "sha256_hex env (utf8 ?key)"
  have "site_step env henv s s1" by (rule site_step.key_made [OF assms(2)])
  then have "site_reach env henv empty_site s2" using assms(1,3) by auto
  then have ok: "site_ok henv s2" by (rule reached_site_ok)
  have "prefix (map (\<lambda>k. (k_id k, k_project k, k_hash k)) (ingest_keys (db s1)))
      (map (\<lambda>k. (k_id k, k_project k, k_hash k)) (ingest_keys (db s2)))"
    using site_reach_later [OF assms(3)] by (simp add: keys_later_def)
  then have "(key_seq s, project, ?h) \<in> set (map (\<lambda>k. (k_id k, k_project k, k_hash k)) (ingest_keys (db s2)))"
    by (rule set_mono_prefix [THEN subsetD]) (simp add: done_so(5))
  then obtain k where k: "k \<in> set (ingest_keys (db s2))" "k_id k = key_seq s" "k_project k = project" "k_hash k = ?h"
    by auto
  have one: "k' = k" if "k' \<in> set (ingest_keys (db s2))" "k_id k' = key_seq s" for k'
    by (rule key_by_id [OF ok that(1) k(1)]) (simp add: k(2) that(2))
  have act: "(key_seq s, None) \<in> (\<lambda>k. (k_id k, k_revoked k)) ` set (ingest_keys (db s2)) \<longleftrightarrow> k_revoked k = None"
  proof
    assume "(key_seq s, None) \<in> (\<lambda>k. (k_id k, k_revoked k)) ` set (ingest_keys (db s2))"
    then obtain k' where "k' \<in> set (ingest_keys (db s2))" "k_id k' = key_seq s" "k_revoked k' = None" by auto
    then show "k_revoked k = None" using one by blast
  qed (rule image_eqI [OF _ k(1)], simp add: k(2))
  have b: "bearer (Some (lit ''Bearer '' @ ?key)) = Inr ?key"
    using assms(4) by (intro bearer_text) (auto simp: lit_def rs_ws_def)
  have "distinct (map k_hash (ingest_keys (db s2)))" using ok by (simp add: site_ok_def)
  note f = find_hash [OF this k(1), unfolded k(4)]
  have "ingest_key_project env (db s2) (Some (lit ''Bearer '' @ ?key)) slug' =
      (if k_revoked k = None \<and> list_ex (\<lambda>p. fst p = project \<and> same_slug (snd p) slug') (projects (db s2))
       then Inr (key_seq s, project) else Inl Unauthorized)"
    unfolding ingest_key_project_def b and_then.simps f by (simp add: k)
  then show ?thesis using done_so(1,3) act by simp
qed simp


subsection \<open>What the worker finds\<close>

definition deliverable :: "'k worker_env \<Rightarrow> delivery \<Rightarrow> bool" where
  "deliverable env d \<longleftrightarrow>
     (\<exists>url host. parse_url env (d_url d) = Inr url \<and> u_host url = Some host \<and>
        (u_scheme url = lit ''http'' \<or> u_scheme url = lit ''https'') \<and>
        (if d_kind d = lit ''webhook'' then
           \<exists>secret. 16 \<le> length secret \<and> signature env d =
             Inr [(lit ''x-zbierak-signature'', lit ''sha256='' @ hmac64 env secret (d_payload d))]
         else d_kind d = lit ''discord'' \<and> signature env d = Inr [] \<and>
           u_scheme url = lit ''https'' \<and> host \<in> set discord_hosts))"



subsection \<open>A run\<close>

text \<open>One project with its administrator; every URL is an HTTPS address of one host with a public address.\<close>

definition demo_site :: site where
  "demo_site = empty_site\<lparr>db := empty_store\<lparr>projects := [(1, lit ''app'')], members := [(1, 1, lit ''admin'')]\<rparr>\<rparr>"

definition demo_hooks :: "unit hook_env" where
  "demo_hooks = \<lparr>outbound = \<lparr>parse_url = (\<lambda>u. Inr \<lparr>u_scheme = lit ''https'', u_host = Some (lit ''example.org''), u_port = None\<rparr>),
       resolver = (\<lambda>h p. Inr [V4 8 8 8 8]), build_error = (\<lambda>h a. None), webhook_key = Some (),
       decrypt = (\<lambda>k c. Inr c), hmac64 = (\<lambda>k m. k @ m), status_phrase = (\<lambda>n. [])\<rparr>,
     href = (\<lambda>u. u), seal = (\<lambda>nonce k c. Inr c)\<rparr>"

definition demo_form :: webhook_form where
  "demo_form = \<lparr>wf_name = lit ''team'', wf_url = lit ''u'', wf_kind = lit ''webhook'',
     wf_secret = Some (lit ''correct horse battery'')\<rparr>"

lemma demo_admin:
  "projects st = [(1, lit ''app'')] \<Longrightarrow> members st = [(1, 1, lit ''admin'')] \<Longrightarrow>
   project_admin 1 (lit ''t'') (lit ''app'') (lit ''t'') st = Inr 1"
  by (simp add: project_admin_def check_csrf_def secure_eq_def require_project_role_def membership_of_def same_slug_def
      stored_role_def parse_role_def lit_def)

lemma demo_fields:
  "projects (db demo_site) = [(1, lit ''app'')]" "members (db demo_site) = [(1, 1, lit ''admin'')]"
  "ingest_keys (db demo_site) = []" "key_seq demo_site = 1" "endpoints (db demo_site) = []" "issues (db demo_site) = []"
  "raws (db demo_site) = []" "hook_seq demo_site = 1"
  by (simp_all add: demo_site_def empty_site_def empty_store_def)

lemma demo_site_reach: "site_reach env henv empty_site demo_site"
proof -
  have "site_step env henv empty_site demo_site"
    using site_step.team [where s = empty_site and p = "[(1, lit ''app'')]" and m = "[(1, 1, lit ''admin'')]"]
    by (simp add: demo_site_def empty_site_def empty_store_def)
  then show ?thesis by blast
qed

lemma demo_made_key:
  obtains s1 where
    "create_ingest_key sample_env 1 (lit ''t'') (lit ''app'') (lit ''t'') (lit ''ci'') (lit ''secret'') demo_site =
       (Inr (lit ''zbk_secret''), s1)"
    "ingest_keys (db s1) = [\<lparr>k_id = 1, k_project = 1, k_hash = utf8 (lit ''zbk_secret''), k_revoked = None, k_used = None\<rparr>]"
    "projects (db s1) = [(1, lit ''app'')]" "members (db s1) = [(1, 1, lit ''admin'')]" "key_seq demo_site = 1"
proof -
  have n: "required_text (lit ''name'') (lit ''ci'') 100 = Inr (lit ''ci'')"
    by (simp add: required_text_def lit_def rs_trim_def strip_def strip_start_def strip_end_def rs_ws_def)
  have a: "project_admin 1 (lit ''t'') (lit ''app'') (lit ''t'') (db demo_site) = Inr 1"
    by (rule demo_admin [OF demo_fields(1,2)])
  have k: "lit ''zbk_'' @ lit ''secret'' = lit ''zbk_secret''" by (simp add: lit_def)
  let ?r = "create_ingest_key sample_env 1 (lit ''t'') (lit ''app'') (lit ''t'') (lit ''ci'') (lit ''secret'') demo_site"
  have "fst ?r = Inr (lit ''zbk_secret'')"
    "ingest_keys (db (snd ?r)) = [\<lparr>k_id = 1, k_project = 1, k_hash = utf8 (lit ''zbk_secret''), k_revoked = None, k_used = None\<rparr>]"
    "projects (db (snd ?r)) = [(1, lit ''app'')]" "members (db (snd ?r)) = [(1, 1, lit ''admin'')]" "key_seq demo_site = 1"
    by (simp_all add: create_ingest_key_def a n k Let_def demo_fields del: utf8_simps)
  then show ?thesis using that [of "snd ?r"] by (simp add: prod_eq_iff)
qed

lemma key_lifetime_witness:
  "\<exists>s :: site. ingest_key_project sample_env (db s) (Some (lit ''Bearer '' @ lit ''zbk_secret'')) (lit ''APP'') = Inr (1, 1)"
proof (rule demo_made_key)
  fix s1
  assume c: "create_ingest_key sample_env 1 (lit ''t'') (lit ''app'') (lit ''t'') (lit ''ci'') (lit ''secret'') demo_site =
       (Inr (lit ''zbk_secret''), s1)"
    and k: "ingest_keys (db s1) = [\<lparr>k_id = 1, k_project = 1, k_hash = utf8 (lit ''zbk_secret''), k_revoked = None, k_used = None\<rparr>]"
    and p: "projects (db s1) = [(1, lit ''app'')]" "key_seq demo_site = 1"
  have a: "project_admin 1 (lit ''t'') (lit ''app'') (lit ''t'') (db demo_site) = Inr 1"
    by (rule demo_admin [OF demo_fields(1,2)])
  have w: "\<forall>c \<in> set (lit ''secret''). \<not> rs_ws c" by (simp add: lit_def rs_ws_def)
  have "same_slug (lit ''app'') (lit ''APP'')" by (simp add: same_slug_def lit_def char_class_defs)
  then have l: "list_ex (\<lambda>p. fst p = 1 \<and> same_slug (snd p) (lit ''APP'')) (projects (db s1))" by (simp add: p(1))
  have act: "(key_seq demo_site, None) \<in> (\<lambda>k. (k_id k, k_revoked k)) ` set (ingest_keys (db s1))"
    unfolding k p(2) by simp
  from key_lifetime [where slug' = "lit ''APP''" and henv = demo_hooks, OF demo_site_reach c rtranclp.rtrancl_refl w]
  obtain project where "project_admin 1 (lit ''t'') (lit ''app'') (lit ''t'') (db demo_site) = Inr project"
    and in_effect: "ingest_key_project sample_env (db s1) (Some (lit ''Bearer '' @ lit ''zbk_secret'')) (lit ''APP'') =
      (if (key_seq demo_site, None) \<in> (\<lambda>k. (k_id k, k_revoked k)) ` set (ingest_keys (db s1)) \<and>
          list_ex (\<lambda>p. fst p = project \<and> same_slug (snd p) (lit ''APP'')) (projects (db s1))
       then Inr (key_seq demo_site, project) else Inl Unauthorized)" by blast
  then have "project = 1" using a by simp
  with in_effect act l have works: "ingest_key_project sample_env (db s1) (Some (lit ''Bearer '' @ lit ''zbk_secret'')) (lit ''APP'') = Inr (1, 1)"
    by (simp only: p(2) simp_thms if_True)
  show ?thesis by (rule exI [of _ s1]) (rule works)
qed

lemma revoked_key_refused_witness:
  "\<exists>s :: site. ingest_keys (db s) \<noteq> [] \<and>
     ingest_key_project sample_env (db s) (Some (lit ''Bearer '' @ lit ''zbk_secret'')) (lit ''app'') \<noteq> Inr (1, 1)"
proof (rule demo_made_key)
  fix s1
  assume c: "create_ingest_key sample_env 1 (lit ''t'') (lit ''app'') (lit ''t'') (lit ''ci'') (lit ''secret'') demo_site =
       (Inr (lit ''zbk_secret''), s1)"
    and k: "ingest_keys (db s1) = [\<lparr>k_id = 1, k_project = 1, k_hash = utf8 (lit ''zbk_secret''), k_revoked = None, k_used = None\<rparr>]"
    and p: "projects (db s1) = [(1, lit ''app'')]" "members (db s1) = [(1, 1, lit ''admin'')]"
  have "site_step sample_env demo_hooks demo_site s1" by (rule site_step.key_made [OF c])
  then have run: "site_reach sample_env demo_hooks empty_site s1" using demo_site_reach by (rule rtranclp.rtrancl_into_rtrancl [rotated])
  let ?r = "revoke_ingest_key 9 1 (lit ''t'') (lit ''app'') (lit ''t'') 1 s1"
  have r: "?r = (Inr (), snd ?r)"
    by (simp add: revoke_ingest_key_def demo_admin [OF p] k revokes_def)
  have "ingest_keys (db (snd ?r)) \<noteq> []" by (simp add: revoke_ingest_key_def demo_admin [OF p] k)
  moreover have "ingest_key_project sample_env (db (snd ?r)) (Some (lit ''Bearer '' @ lit ''zbk_secret'')) (lit ''app'') \<noteq> Inr (1, 1)"
    by (rule revoked_key_refused [OF run r rtranclp.rtrancl_refl])
  ultimately have both: "ingest_keys (db (snd ?r)) \<noteq> [] \<and>
     ingest_key_project sample_env (db (snd ?r)) (Some (lit ''Bearer '' @ lit ''zbk_secret'')) (lit ''app'') \<noteq> Inr (1, 1)"
    by (rule conjI)
  show ?thesis by (rule exI [of _ "snd ?r"]) (rule both)
qed

lemma demo_hooked:
  obtains s2 where "site_reach sample_env demo_hooks empty_site s2"
    "ingest_keys (db s2) = [\<lparr>k_id = 1, k_project = 1, k_hash = utf8 (lit ''zbk_secret''), k_revoked = None, k_used = None\<rparr>]"
    "projects (db s2) = [(1, lit ''app'')]" "issues (db s2) = []" "raws (db s2) = []"
    "endpoints (db s2) = [\<lparr>ep_id = 1, ep_project = 1, ep_kind = lit ''webhook'', ep_url = lit ''u'',
       ep_secret = Some (lit ''correct horse battery''), ep_secret_encrypted = 1, ep_enabled = 1\<rparr>]"
proof (rule demo_made_key)
  fix s1
  assume c: "create_ingest_key sample_env 1 (lit ''t'') (lit ''app'') (lit ''t'') (lit ''ci'') (lit ''secret'') demo_site =
       (Inr (lit ''zbk_secret''), s1)"
    and k: "ingest_keys (db s1) = [\<lparr>k_id = 1, k_project = 1, k_hash = utf8 (lit ''zbk_secret''), k_revoked = None, k_used = None\<rparr>]"
    and p: "projects (db s1) = [(1, lit ''app'')]" "members (db s1) = [(1, 1, lit ''admin'')]"
  have s1: "endpoints (db s1) = []" "issues (db s1) = []" "raws (db s1) = []" "hook_seq s1 = 1"
    by (rule key_made_cases [OF c], simp, simp add: demo_fields)+
  have t: "required_text f (lit ''team'') 100 = Inr (lit ''team'')"
    "required_text f (lit ''correct horse battery'') 1024 = Inr (lit ''correct horse battery'')" for f
    by (simp_all add: required_text_def lit_def rs_trim_def strip_def strip_start_def strip_end_def rs_ws_def)
  have d: "check_destination (outbound demo_hooks) demo_form = Inr ()"
    by (simp add: check_destination_def demo_hooks_def demo_form_def resolve_allowed_with_def is_allowed_v4_def Let_def
        lit_def)
  have w: "webhook_secret demo_hooks [] demo_form = Inr (Some (lit ''correct horse battery''), 1)"
    by (simp add: webhook_secret_def demo_form_def t) (simp add: demo_hooks_def lit_def)
  have n: "wf_name demo_form = lit ''team''" "wf_kind demo_form = lit ''webhook''" "href demo_hooks (wf_url demo_form) = lit ''u''"
    by (simp_all add: demo_form_def demo_hooks_def)
  let ?r = "create_webhook demo_hooks 1 (lit ''t'') (lit ''app'') (lit ''t'') [] demo_form s1"
  have r: "snd ?r = s1\<lparr>db := (db s1)\<lparr>endpoints := endpoints (db s1) @ [\<lparr>ep_id = 1, ep_project = 1, ep_kind = lit ''webhook'',
      ep_url = lit ''u'', ep_secret = Some (lit ''correct horse battery''), ep_secret_encrypted = 1, ep_enabled = 1\<rparr>]\<rparr>,
      hook_seq := 2, hook_labels := hook_labels s1 @ [(1, lit ''team'')]\<rparr>"
    by (simp add: create_webhook_def demo_admin [OF p] t d w n s1)
  have "site_step sample_env demo_hooks demo_site s1" by (rule site_step.key_made [OF c])
  then have "site_reach sample_env demo_hooks empty_site s1"
    using demo_site_reach by (rule rtranclp.rtrancl_into_rtrancl [rotated])
  moreover have "site_step sample_env demo_hooks s1 (snd ?r)"
    by (rule site_step.hook_made [OF prod.collapse [symmetric]])
  ultimately have "site_reach sample_env demo_hooks empty_site (snd ?r)" by (rule rtranclp.rtrancl_into_rtrancl)
  then show ?thesis by (rule that) (simp_all add: r k p s1)
qed

text \<open>An event of the program with the key leaves a notification, which the worker claims.\<close>

lemma demo_event:
  assumes "ingest_keys (db s) = [\<lparr>k_id = 1, k_project = 1, k_hash = utf8 (lit ''zbk_secret''), k_revoked = None, k_used = None\<rparr>]"
    and "projects (db s) = [(1, lit ''app'')]" "issues (db s) = []" "raws (db s) = []" "listening 1 e" "endpoints (db s) = [e]"
  obtains x st r where
    "ingest_request sample_env 5 [1] (Some (lit ''Bearer '' @ lit ''zbk_secret'')) (lit ''app'') [97, 1] (db s) = (x, st)"
    "outbox st = outbox (db s) @ [r]" "ob_endpoint r = ep_id e" "eligible 5 r" "endpoints st = [e]"
proof -
  have b: "bearer (Some (lit ''Bearer '' @ lit ''zbk_secret'')) = Inr (lit ''zbk_secret'')"
    by (rule bearer_text) (simp_all add: lit_def rs_ws_def)
  have k: "ingest_key_project sample_env (db s) (Some (lit ''Bearer '' @ lit ''zbk_secret'')) (lit ''app'') = Inr (1, 1)"
    by (simp add: ingest_key_project_def b assms(1,2) same_slug_def)
  define q where "q = ingest_request sample_env 5 [1] (Some (lit ''Bearer '' @ lit ''zbk_secret'')) (lit ''app'') [97, 1] (db s)"
  have n: "\<not> known_event (db s) 1 [97]" by (simp add: known_event_def assms(4))
  have "\<exists>r. outbox (snd q) = outbox (db s) @ [r] \<and> ob_endpoint r = ep_id e \<and> eligible 5 r" "endpoints (snd q) = [e]"
    unfolding q_def ingest_request_def k sum.case prod.case
    by (simp_all add: ingest_def sample_decode n assms store_event_def group_event_def find_issue_def
        Let_def notify_def outbox_rows_def eligible_def)
  then show ?thesis using that [of "fst q" "snd q"] by (auto simp: q_def)
qed


end
