(* ===== verification/LogDrain.thy ===== *)
theory LogDrain
  imports Capture "HOL-Library.AList"
begin

text \<open>
  The log capture of the Bevy integration (\<open>crates/zbierak-sdk/src/bevy.rs\<close>): the tracing layer that
  picks log events, and the system that drains them into the client with a limit per window and a
  suppression of repeated messages. Instants and durations are numbers of one unit; \<open>duration_since\<close>
  saturates, as subtraction of natural numbers does. The systems of the engine only pass the state on.
\<close>

subsection \<open>Configuration\<close>

text \<open>Levels are ordered by verbosity.\<close>

fun verbosity :: "level \<Rightarrow> nat" where
  "verbosity LError = 0"
| "verbosity LWarn = 1"
| "verbosity LInfo = 2"
| "verbosity LDebug = 3"
| "verbosity LTrace = 4"

instantiation level :: linorder
begin

definition less_eq_level :: "level \<Rightarrow> level \<Rightarrow> bool" where
  "less_eq_level a b \<longleftrightarrow> verbosity a \<le> verbosity b"

definition less_level :: "level \<Rightarrow> level \<Rightarrow> bool" where
  "less_level a b \<longleftrightarrow> verbosity a < verbosity b"

instance
proof
  fix a b :: level
  show "a \<le> b \<Longrightarrow> b \<le> a \<Longrightarrow> a = b" by (cases a; cases b) (simp_all add: less_eq_level_def)
qed (auto simp: less_eq_level_def less_level_def)

end

record report_config =
  capture_level :: level
  rate_window :: nat
  max_events_per_window :: nat
  duplicate_suppression :: nat
  max_tracked_messages :: nat
  max_message_bytes :: nat
  excluded_targets :: "ustr list"
  capture_stack_frames :: bool

text \<open>The durations of the default are in seconds.\<close>

definition default_report :: report_config where
  "default_report = \<lparr>capture_level = LError, rate_window = 60, max_events_per_window = 20, duplicate_suppression = 60,
     max_tracked_messages = 1024, max_message_bytes = 4096, excluded_targets = [lit ''zbierak''],
     capture_stack_frames = True\<rparr>"

fun severity_for :: "level \<Rightarrow> severity" where
  "severity_for LError = Error"
| "severity_for LWarn = Warning"
| "severity_for LInfo = Info"
| "severity_for LTrace = Debug"
| "severity_for LDebug = Debug"

definition truncate_message :: "ustr \<Rightarrow> nat \<Rightarrow> ustr" where
  "truncate_message s n = (if byte_len s \<le> n then s else slice_bytes (back_to_boundary s n) s)"

subsection \<open>Installation\<close>

text \<open>The process-wide client and configuration, set once, and the clients whose panic hooks are chained,
  newest first.\<close>

definition init_reporting ::
  "'c \<Rightarrow> report_config \<Rightarrow> ('c \<times> report_config) option \<times> 'c list \<Rightarrow> bool \<times> ('c \<times> report_config) option \<times> 'c list" where
  "init_reporting client cfg = (\<lambda>(global, hooks).
     (case global of
        None \<Rightarrow> (True, Some (client, cfg), client # hooks)
      | Some g \<Rightarrow> (False, Some g, client # hooks)))"

subsection \<open>The layer\<close>

record captured_log =
  cl_message :: ustr
  cl_target :: ustr
  cl_level :: level
  cl_frames :: "stack_frame list"

text \<open>The fields of an event with their debug texts; \<open>symbols\<close> is the stack of the emitting thread.\<close>

definition message_field :: "(ustr \<times> ustr) list \<Rightarrow> ustr option" where
  "message_field fs = fold (\<lambda>(name, v) m. if name = lit ''message'' then Some v else m) fs None"

definition layer_event ::
  "report_config \<Rightarrow> symbol list \<Rightarrow> ustr \<Rightarrow> level \<Rightarrow> (ustr \<times> ustr) list \<Rightarrow> captured_log option" where
  "layer_event cfg symbols target level fs =
     (if capture_level cfg < level then None
      else if list_ex (\<lambda>p. prefix p target) (excluded_targets cfg) then None
      else
        (case message_field fs of
           None \<Rightarrow> None
         | Some m \<Rightarrow>
             if prefix (lit ''panic at '') m then None
             else Some \<lparr>cl_message = m, cl_target = target, cl_level = level,
               cl_frames = (if capture_stack_frames cfg then capture_frames symbols else [])\<rparr>))"

subsection \<open>The drain\<close>

record drain_state =
  last_sent :: "(ustr \<times> nat) list"
  window_start :: "nat option"
  sent_in_window :: nat
  dropped_in_window :: nat

definition new_drain :: drain_state where
  "new_drain = \<lparr>last_sent = [], window_start = None, sent_in_window = 0, dropped_in_window = 0\<rparr>"

definition open_window :: "report_config \<Rightarrow> nat \<Rightarrow> drain_state \<Rightarrow> drain_state" where
  "open_window cfg now st =
     (if (case window_start st of None \<Rightarrow> False | Some start \<Rightarrow> now - start < rate_window cfg) then st
      else st\<lparr>window_start := Some now, sent_in_window := 0, dropped_in_window := 0\<rparr>)"

definition log_event :: "report_config \<Rightarrow> captured_log \<Rightarrow> 'n event" where
  "log_event cfg l =
     (let m = truncate_message (cl_message l) (max_message_bytes cfg) in
      default_event\<lparr>message := m, severity_of := severity_for (cl_level l),
        error_of := Some \<lparr>type_name = lit ''log'', error_text = Some m, error_frames = cl_frames l\<rparr>,
        event_tags := [(lit ''target'', cl_target l)]\<rparr>)"

datatype drain_result = Queued | OverLimit | Repeated | Refused capture_error

definition repeated :: "report_config \<Rightarrow> nat \<Rightarrow> ustr \<Rightarrow> drain_state \<Rightarrow> bool" where
  "repeated cfg now m st =
     (case map_of (last_sent st) m of None \<Rightarrow> False | Some sent \<Rightarrow> now - sent < duplicate_suppression cfg)"

definition note_sent :: "report_config \<Rightarrow> nat \<Rightarrow> ustr \<Rightarrow> drain_state \<Rightarrow> drain_state" where
  "note_sent cfg now m st =
     st\<lparr>sent_in_window := sent_in_window st + 1,
        last_sent := AList.update m now (if max_tracked_messages cfg \<le> length (last_sent st) then [] else last_sent st)\<rparr>"

text \<open>One message, its instant and the capture it may lead to: what the client does with an event then.\<close>

type_synonym ('n, 'c) drained = "nat \<times> captured_log \<times> ('n event \<Rightarrow> 'c \<Rightarrow> (capture_error + ustr) \<times> 'c)"

definition process_log ::
  "report_config \<Rightarrow> ('n, 'c) drained \<Rightarrow> drain_state \<Rightarrow> 'c \<Rightarrow> drain_result \<times> drain_state \<times> 'c" where
  "process_log cfg = (\<lambda>(now, l, capture) st c.
     (let st = open_window cfg now st in
      if max_events_per_window cfg \<le> sent_in_window st
      then (OverLimit, st\<lparr>dropped_in_window := dropped_in_window st + 1\<rparr>, c)
      else if repeated cfg now (cl_message l) st then (Repeated, st, c)
      else
        (case capture (log_event cfg l) c of
           (Inl x, c) \<Rightarrow> (Refused x, st, c)
         | (Inr _, c) \<Rightarrow> (Queued, note_sent cfg now (cl_message l) st, c))))"

text \<open>The trace has, for each message, its instant, its text, the window it fell into and its fate.\<close>

type_synonym fate = "nat \<times> ustr \<times> nat \<times> drain_result"

fun process_captured ::
  "report_config \<Rightarrow> ('n, 'c) drained list \<Rightarrow> drain_state \<Rightarrow> 'c \<Rightarrow> fate list \<times> drain_state \<times> 'c" where
  "process_captured cfg [] st c = ([], st, c)"
| "process_captured cfg (d # ds) st c =
     (let (r, st, c) = process_log cfg d st c; (rs, s) = process_captured cfg ds st c
      in ((fst d, cl_message (fst (snd d)), the (window_start st), r) # rs, s))"

subsection \<open>Windows\<close>

abbreviation queued_in :: "nat \<Rightarrow> fate list \<Rightarrow> nat" where
  "queued_in w trace \<equiv> length (filter (\<lambda>(_, _, w', r). w' = w \<and> r = Queued) trace)"

text \<open>The windows of a trace that starts in the window of \<open>st\<close>: apart by the length of a window, each with
  at most the limit of queued messages.\<close>

definition windows_ok :: "report_config \<Rightarrow> drain_state \<Rightarrow> fate list \<Rightarrow> bool" where
  "windows_ok cfg st trace \<longleftrightarrow>
     (\<forall>(now, _, w, _) \<in> set trace. w \<le> now \<and> now < w + rate_window cfg \<and>
        (\<forall>s. window_start st = Some s \<longrightarrow> w = s \<or> s + rate_window cfg \<le> w)) \<and>
     (\<forall>a \<in> set trace. \<forall>b \<in> set trace. fst (snd (snd a)) < fst (snd (snd b)) \<longrightarrow>
        fst (snd (snd a)) + rate_window cfg \<le> fst (snd (snd b))) \<and>
     (\<forall>w. queued_in w trace + (if window_start st = Some w then sent_in_window st else 0) \<le> max_events_per_window cfg)"

text \<open>What one message does to the window.\<close>

lemma process_log_window:
  assumes "process_log cfg (now, l, capture) st c = (r, st', c')"
  shows "window_start st' = window_start (open_window cfg now st)"
    "sent_in_window st' = sent_in_window (open_window cfg now st) + (if r = Queued then 1 else 0)"
    "r = Queued \<Longrightarrow> sent_in_window (open_window cfg now st) < max_events_per_window cfg"
  using assms by (auto simp: process_log_def note_sent_def Let_def split: if_splits prod.splits sum.splits)

lemma queued_in_none: "\<forall>x \<in> set trace. w < fst (snd (snd x)) \<Longrightarrow> queued_in w trace = 0"
  by (auto simp: filter_empty_conv)

lemma windows_ok_Cons:
  assumes ok: "windows_ok cfg st1 rest" and w0: "window_start st1 = Some w0" "w0 \<le> now" "now < w0 + rate_window cfg"
    and n: "sent_in_window st1 = n + (if r = Queued then 1 else 0)"
    and st: "window_start st = Some w0 \<and> sent_in_window st = n \<or>
      n = 0 \<and> sent_in_window st \<le> max_events_per_window cfg \<and>
      (\<forall>s. window_start st = Some s \<longrightarrow> s + rate_window cfg \<le> w0)"
  shows "windows_ok cfg st ((now, m, w0, r) # rest)"
proof -
  let ?R = "rate_window cfg" let ?max = "max_events_per_window cfg"
  have rest: "w \<le> t \<and> t < w + ?R \<and> (w = w0 \<or> w0 + ?R \<le> w)" if "(t, x, w, y) \<in> set rest" for t x w y
    using ok that w0(1) by (auto simp: windows_ok_def)
  have R: "0 < ?R" using w0(2,3) by simp
  have start: "w = s \<or> s + ?R \<le> w" if "window_start st = Some s" "w = w0 \<or> w0 + ?R \<le> w" for s w
    using st that by auto
  have pairs: "fst (snd (snd a)) + ?R \<le> fst (snd (snd b))"
    if "a \<in> set rest" "b \<in> set rest" "fst (snd (snd a)) < fst (snd (snd b))" for a b
    using ok that by (auto simp: windows_ok_def)
  have count: "queued_in w rest + (if w0 = w then sent_in_window st1 else 0) \<le> ?max" for w
    using ok w0(1) by (auto simp: windows_ok_def)
  have head: "queued_in w ((now, m, w0, r) # rest) = queued_in w rest + (if w = w0 \<and> r = Queued then 1 else 0)" for w
    by simp
  have "queued_in w ((now, m, w0, r) # rest) + (if window_start st = Some w then sent_in_window st else 0) \<le> ?max" for w
  proof (cases "w = w0")
    case True
    have "(if window_start st = Some w0 then sent_in_window st else 0) = n" using st R by auto
    then show ?thesis using count [of w0] n unfolding head True by simp
  next
    case False
    show ?thesis
    proof (cases "window_start st = Some w")
      case True
      then have "w + ?R \<le> w0" "sent_in_window st \<le> ?max" using st False by auto
      moreover from this(1) have "queued_in w rest = 0" using rest R by (intro queued_in_none) fastforce
      ultimately show ?thesis using False unfolding head by simp
    next
      case no: False
      then show ?thesis using count [of w] False unfolding head by simp
    qed
  qed
  moreover have "case e of (t, x, w, y) \<Rightarrow> w \<le> t \<and> t < w + ?R \<and> (\<forall>s. window_start st = Some s \<longrightarrow> w = s \<or> s + ?R \<le> w)"
    if "e \<in> set ((now, m, w0, r) # rest)" for e
  proof -
    obtain t x w y where e: "e = (t, x, w, y)" by (cases e) auto
    have "w \<le> t" "t < w + ?R" and w: "w = w0 \<or> w0 + ?R \<le> w" using that e rest w0(2,3) by auto
    then show ?thesis using start [OF _ w] by (simp add: e)
  qed
  moreover have "\<forall>a \<in> set ((now, m, w0, r) # rest). \<forall>b \<in> set ((now, m, w0, r) # rest).
      fst (snd (snd a)) < fst (snd (snd b)) \<longrightarrow> fst (snd (snd a)) + ?R \<le> fst (snd (snd b))"
    using rest pairs by (auto dest: rest)
  ultimately show ?thesis unfolding windows_ok_def by blast
qed

lemma windows_ok_trace:
  assumes "sorted (map fst ds)" "process_captured cfg ds st c = (trace, s)" "0 < rate_window cfg"
    and "sent_in_window st \<le> max_events_per_window cfg"
    and "\<forall>w. window_start st = Some w \<longrightarrow> (\<forall>d \<in> set ds. w \<le> fst d)"
  shows "windows_ok cfg st trace"
  using assms
proof (induction ds arbitrary: st c trace s)
  case Nil
  then show ?case by (simp add: windows_ok_def)
next
  case (Cons d ds)
  obtain now l capture where d: "d = (now, l, capture)" by (cases d) auto
  obtain r st1 c1 where p: "process_log cfg d st c = (r, st1, c1)" by (metis prod_cases3)
  obtain rest s' where q: "process_captured cfg ds st1 c1 = (rest, s')" by (metis surj_pair)
  note w = process_log_window [OF p [unfolded d]]
  let ?st = "open_window cfg now st" let ?R = "rate_window cfg"
  obtain w0 where w0: "window_start ?st = Some w0" "w0 \<le> now" "now < w0 + ?R"
    and st: "window_start st = Some w0 \<and> sent_in_window st = sent_in_window ?st \<or>
      sent_in_window ?st = 0 \<and> (\<forall>s. window_start st = Some s \<longrightarrow> s + ?R \<le> w0)"
  proof (cases "case window_start st of None \<Rightarrow> False | Some start \<Rightarrow> now - start < ?R")
    case True
    then obtain start where "window_start st = Some start" "now - start < ?R" by (cases "window_start st") auto
    moreover from this have "start \<le> now" using Cons.prems(5) by (simp add: d)
    ultimately show ?thesis using True by (intro that [of start]) (auto simp: open_window_def)
  next
    case False
    then have "s + ?R \<le> now" if "window_start st = Some s" for s using that Cons.prems(5) by (force simp: d)
    then show ?thesis using False Cons.prems(3) by (intro that [of now]) (auto simp: open_window_def)
  qed
  have sent: "sent_in_window ?st \<le> max_events_per_window cfg" using st Cons.prems(4) by auto
  have "sent_in_window st1 \<le> max_events_per_window cfg" using w(2,3) sent by (cases "r = Queued") simp_all
  moreover have "\<forall>w. window_start st1 = Some w \<longrightarrow> (\<forall>d \<in> set ds. w \<le> fst d)"
    using w(1) w0(1,2) Cons.prems(1) by (force simp: d)
  ultimately have "windows_ok cfg st1 rest" using Cons.IH [OF _ q Cons.prems(3)] Cons.prems(1) by simp
  then have "windows_ok cfg st ((now, cl_message l, w0, r) # rest)"
    by (rule windows_ok_Cons) (use w(1,2) w0 st Cons.prems(4) in auto)
  moreover have "trace = (now, cl_message l, w0, r) # rest" using Cons.prems(2) p q w(1) w0(1) by (simp add: d)
  ultimately show ?case by simp
qed

lemma two_classes:
  "\<forall>x \<in> set xs. P x \<longrightarrow> g x = a \<or> g x = b \<Longrightarrow>
   length (filter P xs) \<le> length (filter (\<lambda>x. g x = a \<and> P x) xs) + length (filter (\<lambda>x. g x = b \<and> P x) xs)"
  by (induction xs) auto

lemma length_filter_mono: "(\<And>x. P x \<Longrightarrow> Q x) \<Longrightarrow> length (filter P xs) \<le> length (filter Q xs)"
  by (induction xs) auto

lemma at_most_two:
  fixes S :: "nat set"
  assumes "\<And>u v w. u \<in> S \<Longrightarrow> v \<in> S \<Longrightarrow> w \<in> S \<Longrightarrow> u < v \<Longrightarrow> v < w \<Longrightarrow> False" "finite S"
  shows "\<exists>a b. S \<subseteq> {a, b}"
proof (cases "S = {}")
  case False
  define a where "a = Min S"
  have a: "a \<in> S" "\<forall>w \<in> S. a \<le> w" unfolding a_def using False assms(2) by simp_all
  show ?thesis
  proof (cases "S - {a} = {}")
    case ne: False
    define b where "b = Min (S - {a})"
    have b: "b \<in> S - {a}" "\<forall>w \<in> S - {a}. b \<le> w" unfolding b_def using ne assms(2) by (intro Min_in, simp_all)
    have "w = a \<or> w = b" if "w \<in> S" for w
    proof (rule ccontr)
      assume "\<not> (w = a \<or> w = b)"
      then have "a < b" "b < w" using a(2) b that by (auto simp: le_less)
      then show False using assms(1) [OF a(1) _ that] b(1) by blast
    qed
    then show ?thesis by blast
  qed blast
qed blast

text \<open>C22:
  However the messages arrive, any stretch of time as long as the rate window sees at most twice the
  limit of events queued: the windows are fixed when they open, so two of them can meet in the stretch.
\<close>

lemma log_rate_bounded:
  assumes "sorted (map fst ds)" "process_captured cfg ds new_drain c = (trace, s)"
  shows "length (filter (\<lambda>(now, m, w, r). r = Queued \<and> t \<le> now \<and> now < t + rate_window cfg) trace)
    \<le> 2 * max_events_per_window cfg"
proof (cases "rate_window cfg = 0")
  case False
  let ?P = "\<lambda>(now, m, w, r). r = Queued \<and> t \<le> now \<and> now < t + rate_window cfg"
  let ?w = "\<lambda>x :: fate. fst (snd (snd x))"
  have ok: "windows_ok cfg new_drain trace"
    by (rule windows_ok_trace [OF assms]) (use False in \<open>simp_all add: new_drain_def\<close>)
  have inside: "?w x < t + rate_window cfg" "t < ?w x + rate_window cfg" if "x \<in> set trace" "?P x" for x
    using ok that by (auto simp: windows_ok_def)
  have apart: "?w x + rate_window cfg \<le> ?w y" if "x \<in> set trace" "y \<in> set trace" "?w x < ?w y" for x y
    using ok that by (simp add: windows_ok_def)
  let ?S = "?w ` {x \<in> set trace. ?P x}"
  have "\<exists>a b. ?S \<subseteq> {a, b}"
  proof (rule at_most_two)
    fix u v w
    assume "u \<in> ?S" "v \<in> ?S" "w \<in> ?S" and l: "u < v" "v < w"
    then obtain x y z where x: "x \<in> set trace" "?P x" "?w x = u" and y: "y \<in> set trace" "?w y = v"
      and z: "z \<in> set trace" "?P z" "?w z = w" by blast
    have "u + rate_window cfg \<le> v" using apart [OF x(1) y(1)] l(1) x(3) y(2) by simp
    moreover have "v + rate_window cfg \<le> w" using apart [OF y(1) z(1)] l(2) y(2) z(3) by simp
    moreover have "w < t + rate_window cfg" using inside(1) [OF z(1,2)] z(3) by simp
    moreover have "t < u + rate_window cfg" using inside(2) [OF x(1,2)] x(3) by simp
    ultimately show False by linarith
  qed simp
  then obtain a b where "?S \<subseteq> {a, b}" by blast
  then have "\<forall>x \<in> set trace. ?P x \<longrightarrow> ?w x = a \<or> ?w x = b" by blast
  note two = two_classes [OF this]
  have one: "length (filter (\<lambda>x. ?w x = v \<and> ?P x) trace) \<le> max_events_per_window cfg" for v
  proof -
    have "length (filter (\<lambda>x. ?w x = v \<and> ?P x) trace) \<le> queued_in v trace"
      by (rule length_filter_mono) auto
    moreover have "queued_in v trace \<le> max_events_per_window cfg"
      using ok unfolding windows_ok_def by (blast intro: add_leD1)
    ultimately show ?thesis by (rule order_trans)
  qed
  show ?thesis using two one [of a] one [of b] by linarith
qed (simp add: filter_empty_conv case_prod_beta)

subsection \<open>Repetitions\<close>

text \<open>What the state remembers: each key once, and only instants that have passed.\<close>

definition memory_ok :: "ustr set \<Rightarrow> nat \<Rightarrow> drain_state \<Rightarrow> bool" where
  "memory_ok M now st \<longleftrightarrow> distinct (map fst (last_sent st)) \<and> fst ` set (last_sent st) \<subseteq> M \<and>
     (\<forall>m sent. map_of (last_sent st) m = Some sent \<longrightarrow> sent \<le> now)"

definition apart_in :: "report_config \<Rightarrow> drain_state \<Rightarrow> fate list \<Rightarrow> bool" where
  "apart_in cfg st trace \<longleftrightarrow>
     (\<forall>(now, m, _, r) \<in> set trace. r = Queued \<longrightarrow>
        (\<forall>sent. map_of (last_sent st) m = Some sent \<longrightarrow> sent + duplicate_suppression cfg \<le> now)) \<and>
     sorted_wrt (\<lambda>(t, m, _, r) (t', m', _, r'). r = Queued \<and> r' = Queued \<and> m = m' \<longrightarrow>
        t + duplicate_suppression cfg \<le> t') trace"

lemma memory_mono: "memory_ok M now st \<Longrightarrow> now \<le> later \<Longrightarrow> memory_ok M later st"
  unfolding memory_ok_def by (meson order_trans)

lemma process_log_memory:
  assumes "process_log cfg (now, l, capture) st c = (r, st', c')" "memory_ok M now st" "cl_message l \<in> M"
    and "finite M" "card M < max_tracked_messages cfg"
  shows "memory_ok M now st'"
    "map_of (last_sent st') = (if r = Queued then (map_of (last_sent st))(cl_message l \<mapsto> now) else map_of (last_sent st))"
    "r = Queued \<Longrightarrow> map_of (last_sent st) (cl_message l) = Some sent \<Longrightarrow> sent + duplicate_suppression cfg \<le> now"
proof -
  have o: "last_sent (open_window cfg now st) = last_sent st" by (simp add: open_window_def)
  have "length (last_sent st) = card (fst ` set (last_sent st))"
    using assms(2) by (metis distinct_card length_map list.set_map memory_ok_def)
  also have "\<dots> \<le> card M" using assms(2,4) by (intro card_mono) (auto simp: memory_ok_def)
  finally have room: "\<not> max_tracked_messages cfg \<le> length (last_sent st)" using assms(5) by simp
  have new: "last_sent st' = (if r = Queued then AList.update (cl_message l) now (last_sent st) else last_sent st)"
    using assms(1) room by (auto simp: process_log_def note_sent_def o Let_def split: if_splits prod.splits sum.splits)
  then show m: "map_of (last_sent st') = (if r = Queued then (map_of (last_sent st))(cl_message l \<mapsto> now) else map_of (last_sent st))"
    by (simp add: update_conv')
  have "distinct (map fst (last_sent st'))" unfolding new using assms(2) by (simp add: memory_ok_def distinct_update)
  moreover have "fst ` set (last_sent st') \<subseteq> M" unfolding new using assms(2,3) by (auto simp: memory_ok_def dom_update)
  moreover have "sent \<le> now" if "map_of (last_sent st') x = Some sent" for x sent
    using that assms(2) unfolding m by (auto simp: memory_ok_def split: if_splits)
  ultimately show "memory_ok M now st'" by (simp add: memory_ok_def)
  show "sent + duplicate_suppression cfg \<le> now" if "r = Queued" "map_of (last_sent st) (cl_message l) = Some sent"
  proof -
    have "\<not> repeated cfg now (cl_message l) (open_window cfg now st)"
      using assms(1) that(1) by (auto simp: process_log_def Let_def split: if_splits)
    then have "duplicate_suppression cfg \<le> now - sent" using that(2) by (simp add: repeated_def o)
    moreover have "sent \<le> now" using assms(2) that(2) by (simp add: memory_ok_def)
    ultimately show ?thesis by simp
  qed
qed

lemma apart_in_trace:
  assumes "sorted (map fst ds)" "process_captured cfg ds st c = (trace, s)"
    and "finite M" "card M < max_tracked_messages cfg" "(\<lambda>d. cl_message (fst (snd d))) ` set ds \<subseteq> M"
    and "memory_ok M start st" "\<forall>d \<in> set ds. start \<le> fst d"
  shows "apart_in cfg st trace"
  using assms
proof (induction ds arbitrary: st c trace s start)
  case Nil
  then show ?case by (simp add: apart_in_def)
next
  case (Cons d ds)
  obtain now l capture where d: "d = (now, l, capture)" by (cases d) auto
  obtain r st1 c1 where p: "process_log cfg d st c = (r, st1, c1)" by (metis prod_cases3)
  obtain rest s' where q: "process_captured cfg ds st1 c1 = (rest, s')" by (metis surj_pair)
  have now: "memory_ok M now st" by (rule memory_mono [OF Cons.prems(6)]) (use Cons.prems(7) in \<open>simp add: d\<close>)
  have l: "cl_message l \<in> M" using Cons.prems(5) by (simp add: d)
  note m = process_log_memory [OF p [unfolded d] now l Cons.prems(3,4)]
  have "apart_in cfg st1 rest"
    by (rule Cons.IH [OF _ q Cons.prems(3,4) _ m(1)]) (use Cons.prems(1,5) in \<open>auto simp: d\<close>)
  then have later: "sent + duplicate_suppression cfg \<le> t"
    if "(t, x, w, Queued) \<in> set rest" "map_of (last_sent st1) x = Some sent" for t x w sent
    using that by (auto simp: apart_in_def)
  have old: "sent + duplicate_suppression cfg \<le> t"
    if e: "(t, x, w, Queued) \<in> set rest" and sent: "map_of (last_sent st) x = Some sent" for t x w sent
  proof (cases "r = Queued \<and> x = cl_message l")
    case True
    then have "now + duplicate_suppression cfg \<le> t" by (intro later [OF e]) (simp add: m(2))
    moreover have "sent \<le> now" using now sent by (simp add: memory_ok_def)
    ultimately show ?thesis by simp
  next
    case False
    then show ?thesis by (intro later [OF e]) (use sent in \<open>auto simp: m(2)\<close>)
  qed
  have new: "now + duplicate_suppression cfg \<le> t" if "(t, cl_message l, w, Queued) \<in> set rest" "r = Queued" for t w
    by (rule later [OF that(1)]) (simp add: m(2) that(2))
  have tr: "trace = (now, cl_message l, the (window_start st1), r) # rest" using Cons.prems(2) p q by (simp add: d)
  show ?case using \<open>apart_in cfg st1 rest\<close> old new m(3) unfolding apart_in_def tr by fastforce
qed

text \<open>C34:
  As long as fewer different messages occur than the state can remember, the same message is never
  queued twice within the time of suppression.
\<close>

lemma repeats_suppressed:
  assumes "sorted (map fst ds)" "process_captured cfg ds new_drain c = (trace, s)"
    and "card ((\<lambda>d. cl_message (fst (snd d))) ` set ds) < max_tracked_messages cfg"
    and "i < j" "j < length trace" "trace ! i = (t, m, w, Queued)" "trace ! j = (t', m, w', Queued)"
  shows "t + duplicate_suppression cfg \<le> t'"
proof -
  have "apart_in cfg new_drain trace"
    by (rule apart_in_trace [OF assms(1,2) _ assms(3)]) (auto simp: memory_ok_def new_drain_def)
  then have "sorted_wrt (\<lambda>(t, m, _, r) (t', m', _, r'). r = Queued \<and> r' = Queued \<and> m = m' \<longrightarrow>
      t + duplicate_suppression cfg \<le> t') trace" by (simp add: apart_in_def)
  from sorted_wrt_nth_less [OF this assms(4,5)] show ?thesis by (simp add: assms(6,7))
qed

subsection \<open>What the layer keeps out\<close>

text \<open>With the default configuration the library does not report on itself, and a panic is never
  reported a second time by its log entry.\<close>

lemma own_logs_excluded: "layer_event default_report symbols (lit ''zbierak'' @ rest) level fs = None"
  by (simp add: layer_event_def default_report_def)

lemma panics_not_logged:
  "message_field fs = Some (message (panic_event_parts location payload frames)) \<Longrightarrow>
    layer_event cfg symbols target level fs = None"
  by (simp add: layer_event_def panic_event_parts_def)

text \<open>The second call of \<open>init\<close> fails and leaves the first client in place, but panics go to both.\<close>

lemma second_init_hooks:
  "init_reporting c1 cfg1 (None, []) = (True, Some (c1, cfg1), [c1]) \<and>
   init_reporting c2 cfg2 (Some (c1, cfg1), [c1]) = (False, Some (c1, cfg1), [c2, c1])"
  by (simp add: init_reporting_def)

subsection \<open>Examples\<close>

definition demo_log :: "nat \<Rightarrow> nat \<Rightarrow> (unit, unit) drained" where
  "demo_log t m = (t, \<lparr>cl_message = [m], cl_target = lit ''game'', cl_level = LError, cl_frames = []\<rparr>, (\<lambda>e c. (Inr [], c)))"

definition demo_report :: report_config where
  "demo_report = \<lparr>capture_level = LError, rate_window = 10, max_events_per_window = 2, duplicate_suppression = 10,
     max_tracked_messages = 2, max_message_bytes = 4096, excluded_targets = [], capture_stack_frames = False\<rparr>"

text \<open>The limit is not one of every stretch of time: with two events per ten units, three are queued within
  three units.\<close>

lemma limit_not_sliding:
  "map (\<lambda>(t, m, w, r). (t, w, r)) (fst (process_captured demo_report [demo_log 0 1, demo_log 9 2, demo_log 10 3, demo_log 11 4]
     new_drain ())) = [(0, 0, Queued), (9, 0, Queued), (10, 10, Queued), (11, 10, Queued)]"
  by (simp add: demo_log_def process_log_def open_window_def new_drain_def demo_report_def repeated_def note_sent_def Let_def)

text \<open>A full memory is emptied, and a message sent two units ago is sent again.\<close>

lemma full_memory_repeats:
  "map (\<lambda>(t, m, w, r). (t, m, r)) (fst (process_captured (demo_report\<lparr>max_events_per_window := 20\<rparr>)
     [demo_log 0 1, demo_log 1 2, demo_log 2 3, demo_log 3 2] new_drain ())) =
   [(0, [1], Queued), (1, [2], Queued), (2, [3], Queued), (3, [2], Queued)]"
  by (simp add: demo_log_def process_log_def open_window_def new_drain_def demo_report_def repeated_def note_sent_def Let_def)

lemma log_rate_bounded_witness:
  "length (filter (\<lambda>(now, m, w, r). r = Queued \<and> 9 \<le> now \<and> now < 9 + rate_window demo_report)
     (fst (process_captured demo_report [demo_log 0 1, demo_log 9 2, demo_log 10 3, demo_log 11 4] new_drain ()))) \<le> 4"
proof -
  have "sorted (map fst [demo_log 0 1, demo_log 9 2, demo_log 10 3, demo_log 11 4])" by (simp add: demo_log_def)
  from log_rate_bounded [where cfg = demo_report and t = 9 and c = "()", OF this prod.collapse [symmetric]] show ?thesis
    by (simp add: demo_report_def)
qed

lemma repeats_suppressed_witness:
  "\<exists>trace t t'. trace ! 0 = (t, [1], 0, Queued) \<and> trace ! 2 = (t', [1], 10, Queued) \<and>
     t + duplicate_suppression demo_report \<le> (t' :: nat)"
proof -
  let ?ds = "[demo_log 0 1, demo_log 5 1, demo_log 10 1]"
  have tr: "process_captured demo_report ?ds new_drain () =
      ([(0, [1], 0, Queued), (5, [1], 0, Repeated), (10, [1], 10, Queued)],
       snd (process_captured demo_report ?ds new_drain ()))"
    by (simp add: demo_log_def process_log_def open_window_def new_drain_def demo_report_def repeated_def note_sent_def Let_def)
  have "sorted (map fst ?ds)" by (simp add: demo_log_def)
  moreover have "card ((\<lambda>d. cl_message (fst (snd d))) ` set ?ds) < max_tracked_messages demo_report"
    by (simp add: demo_log_def demo_report_def)
  ultimately have "0 + duplicate_suppression demo_report \<le> 10"
    by (rule repeats_suppressed [OF _ tr _ zero_less_two, where t = 0 and t' = 10 and m = "[1]" and w = 0 and w' = 10]) simp_all
  then show ?thesis
    by (intro exI [of _ "[(0, [1], 0, Queued), (5, [1], 0, Repeated), (10, [1], 10, Queued)]"] exI [of _ 0] exI [of _ 10]) simp
qed

end
